(* ===== verification/Prelude.thy ===== *)
theory Prelude
  imports Main "HOL-Library.Word"
begin

text \<open>
  What the component theories share: the machine-integer types of the Rust source on a
  64-bit little-endian Linux target, the result type of fallible functions, byte encodings
  of words, the saturating operations of the standard library, and generic facts about
  lists and maps. Facts meant for automation are collected in \<open>bytes_simps\<close> (byte
  encodings) and \<open>result_simps\<close> (fallible calls).
\<close>

unbundle bit_operations_syntax

named_theorems bytes_simps
named_theorems result_simps

section \<open>Types\<close>

type_synonym u8 = "8 word"
type_synonym u16 = "16 word"
type_synonym u32 = "32 word"
type_synonym u64 = "64 word"
type_synonym i32 = "32 word"
type_synonym i64 = "64 word"
type_synonym usize = "64 word"
type_synonym raw_fd = "32 word"

text \<open>A waker is known by the task it wakes: two wakers of one task are interchangeable.\<close>

type_synonym waker = nat

section \<open>Results\<close>

text \<open>\<open>Result<T, E>\<close> is \<open>E + T\<close>: \<open>Inl\<close> for \<open>Err\<close>, \<open>Inr\<close> for \<open>Ok\<close>.\<close>

definition bind_result :: "'e + 'a \<Rightarrow> ('a \<Rightarrow> 'e + 'b) \<Rightarrow> 'e + 'b" where
  "bind_result r f = (case r of Inl e \<Rightarrow> Inl e | Inr x \<Rightarrow> f x)"

definition map_err :: "('e \<Rightarrow> 'f) \<Rightarrow> 'e + 'a \<Rightarrow> 'f + 'a" where
  "map_err g r = (case r of Inl e \<Rightarrow> Inl (g e) | Inr x \<Rightarrow> Inr x)"

definition map_ok :: "('a \<Rightarrow> 'b) \<Rightarrow> 'e + 'a \<Rightarrow> 'e + 'b" where
  "map_ok g r = (case r of Inl e \<Rightarrow> Inl e | Inr x \<Rightarrow> Inr (g x))"

definition ok_or :: "'e \<Rightarrow> 'a option \<Rightarrow> 'e + 'a" where
  "ok_or e r = (case r of None \<Rightarrow> Inl e | Some x \<Rightarrow> Inr x)"

definition is_ok :: "'e + 'a \<Rightarrow> bool" where
  "is_ok r = (case r of Inl _ \<Rightarrow> False | Inr _ \<Rightarrow> True)"

lemma bind_result_simps [simp, result_simps]:
  "bind_result (Inl e) f = Inl e"
  "bind_result (Inr x) f = f x"
  by (simp_all add: bind_result_def)

lemma map_err_simps [simp, result_simps]:
  "map_err g (Inl e) = Inl (g e)"
  "map_err g (Inr x) = Inr x"
  by (simp_all add: map_err_def)

lemma map_ok_simps [simp, result_simps]:
  "map_ok g (Inl e) = Inl e"
  "map_ok g (Inr x) = Inr (g x)"
  by (simp_all add: map_ok_def)

lemma ok_or_simps [simp, result_simps]:
  "ok_or e None = Inl e"
  "ok_or e (Some x) = Inr x"
  by (simp_all add: ok_or_def)

lemma is_ok_simps [simp, result_simps]:
  "\<not> is_ok (Inl e)"
  "is_ok (Inr x)"
  by (simp_all add: is_ok_def)

lemma bind_result_Inr_iff:
  "bind_result r f = Inr y \<longleftrightarrow> (\<exists>x. r = Inr x \<and> f x = Inr y)"
  by (cases r) auto

text \<open>The \<open>for\<close> loop that pushes the result of a fallible call and stops at the first error.\<close>

fun map_result :: "('a \<Rightarrow> 'e + 'b) \<Rightarrow> 'a list \<Rightarrow> 'e + 'b list" where
  "map_result f [] = Inr []"
| "map_result f (x # xs) =
     bind_result (f x) (\<lambda>y. bind_result (map_result f xs) (\<lambda>ys. Inr (y # ys)))"

lemma map_result_Inr:
  "(\<And>x. x \<in> set xs \<Longrightarrow> f x = Inr (g x)) \<Longrightarrow> map_result f xs = Inr (map g xs)"
  by (induction xs) auto

lemma map_result_length: "map_result f xs = Inr ys \<Longrightarrow> length ys = length xs"
  by (induction xs arbitrary: ys) (auto simp: bind_result_Inr_iff)

text \<open>What polling a future or a queue gives.\<close>

datatype 'a poll = PollPending | PollReady 'a

text \<open>Code that may also panic, or read memory it does not own, fails with one of these.\<close>

datatype 'e failure = Panic | Undefined | Fail 'e

abbreviation lift_err :: "('e \<Rightarrow> 'f) \<Rightarrow> 'e failure + 'a \<Rightarrow> 'f failure + 'a" where
  "lift_err f \<equiv> map_err (map_failure f)"

section \<open>Machine integers\<close>

abbreviation usize_max :: usize where "usize_max \<equiv> 18446744073709551615"

definition saturating_sub :: "'a::len word \<Rightarrow> 'a word \<Rightarrow> 'a word" where
  "saturating_sub a b = (if b \<le> a then a - b else 0)"

lemma unat_saturating_sub: "unat (saturating_sub a b) = unat a - unat b"
  by (simp add: saturating_sub_def unat_sub word_le_nat_alt)

section \<open>Byte encodings\<close>

text \<open>\<open>le_bytes n w\<close> are the low \<open>n\<close> bytes of \<open>w\<close>, least significant first, as the
  target stores an integer; \<open>be_bytes\<close> are the same bytes most significant first.\<close>

fun le_bytes :: "nat \<Rightarrow> 'a::len word \<Rightarrow> u8 list" where
  "le_bytes 0 w = []"
| "le_bytes (Suc n) w = ucast w # le_bytes n (drop_bit 8 w)"

fun of_le_bytes :: "u8 list \<Rightarrow> 'a::len word" where
  "of_le_bytes [] = 0"
| "of_le_bytes (b # bs) = ucast b OR push_bit 8 (of_le_bytes bs)"

definition be_bytes :: "nat \<Rightarrow> 'a::len word \<Rightarrow> u8 list" where
  "be_bytes n w = rev (le_bytes n w)"

definition of_be_bytes :: "u8 list \<Rightarrow> 'a::len word" where
  "of_be_bytes bs = of_le_bytes (rev bs)"

lemma length_le_bytes [simp, bytes_simps]: "length (le_bytes n w) = n"
  by (induction n arbitrary: w) auto

lemma length_be_bytes [simp, bytes_simps]: "length (be_bytes n w) = n"
  by (simp add: be_bytes_def)

lemma bit_of_le_bytes:
  "bit (of_le_bytes bs :: 'a::len word) i \<longleftrightarrow>
     i < LENGTH('a) \<and> i div 8 < length bs \<and> bit (bs ! (i div 8)) (i mod 8)"
proof (induction bs arbitrary: i)
  case Nil
  then show ?case by simp
next
  case (Cons b bs)
  show ?case
  proof (cases "i < 8")
    case True
    then have "i div 8 = 0" "i mod 8 = i" by auto
    with True show ?thesis
      by (auto simp: bit_or_iff bit_push_bit_iff bit_ucast_iff dest: bit_imp_le_length)
  next
    case False
    then have "8 \<le> i" by simp
    then obtain j where j: "i = j + 8" by (metis le_iff_add add.commute)
    then have d: "i div 8 = Suc (j div 8)" "i mod 8 = j mod 8" by auto
    have "\<not> bit (ucast b :: 'a word) i"
      using \<open>8 \<le> i\<close> by (auto simp: bit_ucast_iff dest: bit_imp_le_length)
    then have "bit (of_le_bytes (b # bs) :: 'a word) i \<longleftrightarrow>
        i < LENGTH('a) \<and> bit (of_le_bytes bs :: 'a word) j"
      using \<open>8 \<le> i\<close> j by (auto simp: bit_or_iff bit_push_bit_iff dest: bit_imp_le_length)
    also have "\<dots> \<longleftrightarrow> i < LENGTH('a) \<and> i div 8 < length (b # bs) \<and> bit ((b # bs) ! (i div 8)) (i mod 8)"
      using Cons.IH [of j] j d by auto
    finally show ?thesis .
  qed
qed

lemma le_bytes_nth:
  "k < n \<Longrightarrow> le_bytes n w ! k = ucast (drop_bit (8 * k) w)"
proof (induction n arbitrary: w k)
  case 0
  then show ?case by simp
next
  case (Suc n)
  show ?case
  proof (cases k)
    case 0
    then show ?thesis by simp
  next
    case (Suc m)
    with Suc.prems have "m < n" by simp
    with Suc.IH [of m "drop_bit 8 w"] Suc show ?thesis
      by (simp add: drop_bit_drop_bit add.commute)
  qed
qed

lemma of_le_bytes_le_bytes [simp, bytes_simps]:
  fixes w :: "'a::len word"
  assumes "LENGTH('a) \<le> 8 * n"
  shows "of_le_bytes (le_bytes n w) = w"
proof (rule bit_word_eqI)
  fix i assume i: "i < LENGTH('a)"
  then have "i div 8 < n" using assms by (simp add: less_mult_imp_div_less mult.commute)
  then show "bit (of_le_bytes (le_bytes n w) :: 'a word) i \<longleftrightarrow> bit w i"
    using i by (simp add: bit_of_le_bytes le_bytes_nth bit_ucast_iff bit_drop_bit_eq)
qed

lemma le_bytes_of_le_bytes [simp, bytes_simps]:
  assumes "length bs = n" "8 * n \<le> LENGTH('a::len)"
  shows "le_bytes n (of_le_bytes bs :: 'a word) = bs"
proof (rule nth_equalityI)
  show "length (le_bytes n (of_le_bytes bs :: 'a word)) = length bs" using assms by simp
next
  fix k assume "k < length (le_bytes n (of_le_bytes bs :: 'a word))"
  then have k: "k < n" by simp
  show "le_bytes n (of_le_bytes bs :: 'a word) ! k = bs ! k"
  proof (rule bit_word_eqI)
    fix i assume i: "i < LENGTH(8)"
    with k assms have "8 * k + i < LENGTH('a)" by simp
    then show "bit (le_bytes n (of_le_bytes bs :: 'a word) ! k) i \<longleftrightarrow> bit (bs ! k) i"
      using i k assms
      by (simp add: le_bytes_nth bit_ucast_iff bit_drop_bit_eq bit_of_le_bytes)
  qed
qed

lemma of_be_bytes_be_bytes [simp, bytes_simps]:
  fixes w :: "'a::len word"
  assumes "LENGTH('a) \<le> 8 * n"
  shows "of_be_bytes (be_bytes n w) = w"
  using assms by (simp add: of_be_bytes_def be_bytes_def)

lemma be_bytes_of_be_bytes [simp, bytes_simps]:
  assumes "length bs = n" "8 * n \<le> LENGTH('a::len)"
  shows "be_bytes n (of_be_bytes bs :: 'a word) = bs"
  using assms by (simp add: of_be_bytes_def be_bytes_def)

text \<open>\<open>to_be\<close> and \<open>from_be\<close> on a little-endian target swap the bytes.\<close>

definition swap_bytes :: "nat \<Rightarrow> 'a::len word \<Rightarrow> 'a word" where
  "swap_bytes n w = of_le_bytes (be_bytes n w)"

lemma swap_bytes_swap_bytes [simp, bytes_simps]:
  fixes w :: "'a::len word"
  assumes "8 * n = LENGTH('a)"
  shows "swap_bytes n (swap_bytes n w) = w"
proof -
  have "le_bytes n (swap_bytes n w) = be_bytes n w"
    using assms by (simp add: swap_bytes_def)
  then show ?thesis
    using assms by (simp add: swap_bytes_def be_bytes_def)
qed

end
