(* ===== verification/Libc.thy ===== *)
theory Libc
  imports Prelude
begin

text \<open>
  The constants of the C library the source names (\<open>libc::EINVAL\<close>, \<open>libc::AF_INET\<close>, ...),
  with the values the Linux ABI documents for x86-64. They are numbers of a fixed ABI, not
  behaviour: what a system call does is never defined here, it is an argument of the
  definitions that make the call.
\<close>

section \<open>Error numbers\<close>

abbreviation EPERM :: i32 where "EPERM \<equiv> 1"
abbreviation ENOENT :: i32 where "ENOENT \<equiv> 2"
abbreviation EINTR :: i32 where "EINTR \<equiv> 4"
abbreviation EBADF :: i32 where "EBADF \<equiv> 9"
abbreviation EAGAIN :: i32 where "EAGAIN \<equiv> 11"
abbreviation ENOMEM :: i32 where "ENOMEM \<equiv> 12"
abbreviation EACCES :: i32 where "EACCES \<equiv> 13"
abbreviation EFAULT :: i32 where "EFAULT \<equiv> 14"
abbreviation EBUSY :: i32 where "EBUSY \<equiv> 16"
abbreviation EEXIST :: i32 where "EEXIST \<equiv> 17"
abbreviation ENOTDIR :: i32 where "ENOTDIR \<equiv> 20"
abbreviation EISDIR :: i32 where "EISDIR \<equiv> 21"
abbreviation EINVAL :: i32 where "EINVAL \<equiv> 22"
abbreviation ENFILE :: i32 where "ENFILE \<equiv> 23"
abbreviation EMFILE :: i32 where "EMFILE \<equiv> 24"
abbreviation EFBIG :: i32 where "EFBIG \<equiv> 27"
abbreviation EPIPE :: i32 where "EPIPE \<equiv> 32"
abbreviation EDEADLK :: i32 where "EDEADLK \<equiv> 35"
abbreviation ENOMSG :: i32 where "ENOMSG \<equiv> 42"
abbreviation EDESTADDRREQ :: i32 where "EDESTADDRREQ \<equiv> 89"
abbreviation EMSGSIZE :: i32 where "EMSGSIZE \<equiv> 90"
abbreviation ENOTSUP :: i32 where "ENOTSUP \<equiv> 95"
abbreviation EAFNOSUPPORT :: i32 where "EAFNOSUPPORT \<equiv> 97"
abbreviation EADDRINUSE :: i32 where "EADDRINUSE \<equiv> 98"
abbreviation EADDRNOTAVAIL :: i32 where "EADDRNOTAVAIL \<equiv> 99"
abbreviation ENETDOWN :: i32 where "ENETDOWN \<equiv> 100"
abbreviation ENETUNREACH :: i32 where "ENETUNREACH \<equiv> 101"
abbreviation ECONNABORTED :: i32 where "ECONNABORTED \<equiv> 103"
abbreviation ECONNRESET :: i32 where "ECONNRESET \<equiv> 104"
abbreviation ENOBUFS :: i32 where "ENOBUFS \<equiv> 105"
abbreviation ENOTCONN :: i32 where "ENOTCONN \<equiv> 107"
abbreviation ETIMEDOUT :: i32 where "ETIMEDOUT \<equiv> 110"
abbreviation ECONNREFUSED :: i32 where "ECONNREFUSED \<equiv> 111"
abbreviation EHOSTDOWN :: i32 where "EHOSTDOWN \<equiv> 112"
abbreviation EHOSTUNREACH :: i32 where "EHOSTUNREACH \<equiv> 113"
abbreviation EINPROGRESS :: i32 where "EINPROGRESS \<equiv> 115"
abbreviation ECANCELED :: i32 where "ECANCELED \<equiv> 125"

section \<open>Address families and protocol levels\<close>

abbreviation AF_INET :: u16 where "AF_INET \<equiv> 2"
abbreviation AF_INET6 :: u16 where "AF_INET6 \<equiv> 10"
abbreviation SOL_SOCKET :: i32 where "SOL_SOCKET \<equiv> 1"
abbreviation IPPROTO_IP :: i32 where "IPPROTO_IP \<equiv> 0"
abbreviation IPPROTO_IPV6 :: i32 where "IPPROTO_IPV6 \<equiv> 41"
abbreviation SOL_TLS :: i32 where "SOL_TLS \<equiv> 282"

section \<open>Control message types\<close>

abbreviation SCM_RIGHTS :: i32 where "SCM_RIGHTS \<equiv> 1"
abbreviation SCM_CREDENTIALS :: i32 where "SCM_CREDENTIALS \<equiv> 2"
abbreviation SCM_TIMESTAMP :: i32 where "SCM_TIMESTAMP \<equiv> 29"
abbreviation SCM_TIMESTAMPNS :: i32 where "SCM_TIMESTAMPNS \<equiv> 35"
abbreviation SCM_TIMESTAMPING :: i32 where "SCM_TIMESTAMPING \<equiv> 37"
abbreviation IP_TTL :: i32 where "IP_TTL \<equiv> 2"
abbreviation IP_PKTINFO :: i32 where "IP_PKTINFO \<equiv> 8"
abbreviation IP_RECVERR :: i32 where "IP_RECVERR \<equiv> 11"
abbreviation IPV6_RECVERR :: i32 where "IPV6_RECVERR \<equiv> 25"
abbreviation IPV6_PKTINFO :: i32 where "IPV6_PKTINFO \<equiv> 50"
abbreviation IPV6_HOPLIMIT :: i32 where "IPV6_HOPLIMIT \<equiv> 52"
abbreviation IPV6_TCLASS :: i32 where "IPV6_TCLASS \<equiv> 67"
abbreviation TLS_SET_RECORD_TYPE :: i32 where "TLS_SET_RECORD_TYPE \<equiv> 1"
abbreviation TLS_GET_RECORD_TYPE :: i32 where "TLS_GET_RECORD_TYPE \<equiv> 2"

section \<open>Message flags\<close>

abbreviation MSG_OOB :: i32 where "MSG_OOB \<equiv> 0x1"
abbreviation MSG_PEEK :: i32 where "MSG_PEEK \<equiv> 0x2"
abbreviation MSG_CTRUNC :: i32 where "MSG_CTRUNC \<equiv> 0x8"
abbreviation MSG_TRUNC :: i32 where "MSG_TRUNC \<equiv> 0x20"
abbreviation MSG_EOR :: i32 where "MSG_EOR \<equiv> 0x80"
abbreviation MSG_ERRQUEUE :: i32 where "MSG_ERRQUEUE \<equiv> 0x2000"

section \<open>Files\<close>

abbreviation AT_FDCWD :: i32 where "AT_FDCWD \<equiv> 0xffffff9c"
abbreviation AT_EMPTY_PATH :: i32 where "AT_EMPTY_PATH \<equiv> 0x1000"
abbreviation S_IFMT :: u32 where "S_IFMT \<equiv> 0xf000"
abbreviation S_IFSOCK :: u32 where "S_IFSOCK \<equiv> 0xc000"
abbreviation S_IFLNK :: u32 where "S_IFLNK \<equiv> 0xa000"
abbreviation S_IFREG :: u32 where "S_IFREG \<equiv> 0x8000"
abbreviation S_IFBLK :: u32 where "S_IFBLK \<equiv> 0x6000"
abbreviation S_IFDIR :: u32 where "S_IFDIR \<equiv> 0x4000"
abbreviation S_IFCHR :: u32 where "S_IFCHR \<equiv> 0x2000"
abbreviation S_IFIFO :: u32 where "S_IFIFO \<equiv> 0x1000"
abbreviation DT_FIFO :: u8 where "DT_FIFO \<equiv> 1"
abbreviation DT_CHR :: u8 where "DT_CHR \<equiv> 2"
abbreviation DT_DIR :: u8 where "DT_DIR \<equiv> 4"
abbreviation DT_BLK :: u8 where "DT_BLK \<equiv> 6"
abbreviation DT_REG :: u8 where "DT_REG \<equiv> 8"
abbreviation DT_LNK :: u8 where "DT_LNK \<equiv> 10"
abbreviation DT_SOCK :: u8 where "DT_SOCK \<equiv> 12"
abbreviation O_CREAT :: i32 where "O_CREAT \<equiv> 0x40"
abbreviation O_TRUNC :: i32 where "O_TRUNC \<equiv> 0x200"
abbreviation O_DIRECTORY :: i32 where "O_DIRECTORY \<equiv> 0x10000"
abbreviation O_CLOEXEC :: i32 where "O_CLOEXEC \<equiv> 0x80000"
abbreviation STATX_TYPE :: u32 where "STATX_TYPE \<equiv> 0x1"
abbreviation STATX_MODE :: u32 where "STATX_MODE \<equiv> 0x2"
abbreviation STATX_NLINK :: u32 where "STATX_NLINK \<equiv> 0x4"
abbreviation STATX_UID :: u32 where "STATX_UID \<equiv> 0x8"
abbreviation STATX_GID :: u32 where "STATX_GID \<equiv> 0x10"
abbreviation STATX_ATIME :: u32 where "STATX_ATIME \<equiv> 0x20"
abbreviation STATX_MTIME :: u32 where "STATX_MTIME \<equiv> 0x40"
abbreviation STATX_CTIME :: u32 where "STATX_CTIME \<equiv> 0x80"
abbreviation STATX_INO :: u32 where "STATX_INO \<equiv> 0x100"
abbreviation STATX_SIZE :: u32 where "STATX_SIZE \<equiv> 0x200"
abbreviation STATX_BLOCKS :: u32 where "STATX_BLOCKS \<equiv> 0x400"
abbreviation STATX_BTIME :: u32 where "STATX_BTIME \<equiv> 0x800"
abbreviation STATX_MNT_ID :: u32 where "STATX_MNT_ID \<equiv> 0x1000"
abbreviation STATX_DIOALIGN :: u32 where "STATX_DIOALIGN \<equiv> 0x2000"

section \<open>Polling\<close>

abbreviation EPOLLIN :: i32 where "EPOLLIN \<equiv> 0x1"
abbreviation EPOLLOUT :: i32 where "EPOLLOUT \<equiv> 0x4"
abbreviation EPOLLERR :: i32 where "EPOLLERR \<equiv> 0x8"
abbreviation EPOLLHUP :: i32 where "EPOLLHUP \<equiv> 0x10"
abbreviation EPOLLRDHUP :: i32 where "EPOLLRDHUP \<equiv> 0x2000"
abbreviation EPOLLONESHOT :: i32 where "EPOLLONESHOT \<equiv> 0x40000000"
abbreviation EPOLLET :: i32 where "EPOLLET \<equiv> 0x80000000"

section \<open>Signals\<close>

abbreviation SIGHUP :: i32 where "SIGHUP \<equiv> 1"
abbreviation SIGINT :: i32 where "SIGINT \<equiv> 2"
abbreviation SIGQUIT :: i32 where "SIGQUIT \<equiv> 3"
abbreviation SIGTRAP :: i32 where "SIGTRAP \<equiv> 5"
abbreviation SIGABRT :: i32 where "SIGABRT \<equiv> 6"
abbreviation SIGBUS :: i32 where "SIGBUS \<equiv> 7"
abbreviation SIGFPE :: i32 where "SIGFPE \<equiv> 8"
abbreviation SIGKILL :: i32 where "SIGKILL \<equiv> 9"
abbreviation SIGUSR1 :: i32 where "SIGUSR1 \<equiv> 10"
abbreviation SIGSEGV :: i32 where "SIGSEGV \<equiv> 11"
abbreviation SIGUSR2 :: i32 where "SIGUSR2 \<equiv> 12"
abbreviation SIGPIPE :: i32 where "SIGPIPE \<equiv> 13"
abbreviation SIGALRM :: i32 where "SIGALRM \<equiv> 14"
abbreviation SIGTERM :: i32 where "SIGTERM \<equiv> 15"
abbreviation SIGCHLD :: i32 where "SIGCHLD \<equiv> 17"
abbreviation SIGCONT :: i32 where "SIGCONT \<equiv> 18"
abbreviation SIGSTOP :: i32 where "SIGSTOP \<equiv> 19"
abbreviation SIGTSTP :: i32 where "SIGTSTP \<equiv> 20"
abbreviation SIGTTIN :: i32 where "SIGTTIN \<equiv> 21"
abbreviation SIGTTOU :: i32 where "SIGTTOU \<equiv> 22"

section \<open>Sockets\<close>

abbreviation IPPROTO_TCP :: i32 where "IPPROTO_TCP \<equiv> 6"
abbreviation SO_DEBUG :: i32 where "SO_DEBUG \<equiv> 1"
abbreviation SO_REUSEADDR :: i32 where "SO_REUSEADDR \<equiv> 2"
abbreviation SO_DONTROUTE :: i32 where "SO_DONTROUTE \<equiv> 5"
abbreviation SO_BROADCAST :: i32 where "SO_BROADCAST \<equiv> 6"
abbreviation SO_SNDBUF :: i32 where "SO_SNDBUF \<equiv> 7"
abbreviation SO_RCVBUF :: i32 where "SO_RCVBUF \<equiv> 8"
abbreviation SO_KEEPALIVE :: i32 where "SO_KEEPALIVE \<equiv> 9"
abbreviation SO_OOBINLINE :: i32 where "SO_OOBINLINE \<equiv> 10"
abbreviation SO_LINGER :: i32 where "SO_LINGER \<equiv> 13"
abbreviation SO_REUSEPORT :: i32 where "SO_REUSEPORT \<equiv> 15"
abbreviation TCP_NODELAY :: i32 where "TCP_NODELAY \<equiv> 1"

end
