(* ===== verification/Os_Error.thy ===== *)
theory Os_Error
  imports Libc
begin

text \<open>
  The operating-system errors of the crate (\<open>src/os_error.rs\<close>): the \<open>OsError\<close> enum and
  its conversions from and to an error number.
\<close>

datatype os_error =
    MaxFdReached
  | NotEnoughMemory
  | OperationCanceled
  | OperationInProgress
  | OperationForbidden
  | OperationNotSupported
  | ResourceUnavailable
  | ResourceBusy
  | InvalidMessage
  | MessageTooLong
  | InvalidFd
  | Deadlock
  | ResourceTooLarge
  | IsADirectory
  | AlreadyExists
  | NotFound
  | NotADirectory
  | InvalidPointer
  | PermissionDenied
  | OperationInterrupted
  | InvalidOperation
  | UnknownError
  | AddressInUse
  | AddressNotAvailable
  | AddressFamilyNotSupported
  | ConnectionRefused
  | ConnectionReset
  | NotConnected
  | ConnectionAborted
  | ConnectionTimedOut
  | NetworkUnreachable
  | PeerUnreachable
  | NetworkDisconnected
  | PeerDisconnected
  | DestinationAddressRequired
  | BrokenPipe
  | NoBufferSpace
  | Generic i32

text \<open>\<open>impl From<i32> for OsError\<close>, its arms in the source's order.\<close>

definition os_error_of_i32 :: "i32 \<Rightarrow> os_error" where
  "os_error_of_i32 c =
     (if c = EINVAL then InvalidOperation
      else if c = EMFILE \<or> c = ENFILE then MaxFdReached
      else if c = ENOMEM then NotEnoughMemory
      else if c = EACCES then OperationForbidden
      else if c = EBADF then InvalidFd
      else if c = EEXIST then AlreadyExists
      else if c = EFAULT then InvalidPointer
      else if c = ENOENT then NotFound
      else if c = EPERM then PermissionDenied
      else if c = EINTR then OperationInterrupted
      else if c = ECANCELED then OperationCanceled
      else if c = ENOTDIR then NotADirectory
      else if c = EISDIR then IsADirectory
      else if c = EAGAIN then ResourceUnavailable
      else if c = EINPROGRESS then OperationInProgress
      else if c = EDEADLK then Deadlock
      else if c = EFBIG then ResourceTooLarge
      else if c = EADDRINUSE then AddressInUse
      else if c = EADDRNOTAVAIL then AddressNotAvailable
      else if c = EAFNOSUPPORT then AddressFamilyNotSupported
      else if c = ECONNREFUSED then ConnectionRefused
      else if c = ECONNRESET then ConnectionReset
      else if c = ECONNABORTED then ConnectionAborted
      else if c = ETIMEDOUT then ConnectionTimedOut
      else if c = EDESTADDRREQ then DestinationAddressRequired
      else if c = EMSGSIZE then MessageTooLong
      else if c = ENOMSG then InvalidMessage
      else if c = ENOTCONN then NotConnected
      else if c = ENETUNREACH then NetworkUnreachable
      else if c = ENETDOWN then NetworkDisconnected
      else if c = EHOSTUNREACH then PeerUnreachable
      else if c = EHOSTDOWN then PeerDisconnected
      else if c = EPIPE then BrokenPipe
      else if c = ENOBUFS then NoBufferSpace
      else Generic c)"

text \<open>\<open>impl Into<i32> for OsError\<close>.\<close>

fun i32_of_os_error :: "os_error \<Rightarrow> i32" where
  "i32_of_os_error (Generic c) = c"
| "i32_of_os_error InvalidOperation = EINVAL"
| "i32_of_os_error MaxFdReached = EMFILE"
| "i32_of_os_error NotEnoughMemory = ENOMEM"
| "i32_of_os_error OperationForbidden = EACCES"
| "i32_of_os_error InvalidFd = EBADF"
| "i32_of_os_error AlreadyExists = EEXIST"
| "i32_of_os_error InvalidPointer = EFAULT"
| "i32_of_os_error NotFound = ENOENT"
| "i32_of_os_error PermissionDenied = EPERM"
| "i32_of_os_error OperationInterrupted = EINTR"
| "i32_of_os_error OperationCanceled = ECANCELED"
| "i32_of_os_error NotADirectory = ENOTDIR"
| "i32_of_os_error IsADirectory = EISDIR"
| "i32_of_os_error ResourceUnavailable = EAGAIN"
| "i32_of_os_error OperationInProgress = EINPROGRESS"
| "i32_of_os_error Deadlock = EDEADLK"
| "i32_of_os_error ResourceTooLarge = EFBIG"
| "i32_of_os_error AddressInUse = EADDRINUSE"
| "i32_of_os_error AddressNotAvailable = EADDRNOTAVAIL"
| "i32_of_os_error AddressFamilyNotSupported = EAFNOSUPPORT"
| "i32_of_os_error ConnectionRefused = ECONNREFUSED"
| "i32_of_os_error ConnectionReset = ECONNRESET"
| "i32_of_os_error ConnectionAborted = ECONNABORTED"
| "i32_of_os_error ConnectionTimedOut = ETIMEDOUT"
| "i32_of_os_error DestinationAddressRequired = EDESTADDRREQ"
| "i32_of_os_error MessageTooLong = EMSGSIZE"
| "i32_of_os_error InvalidMessage = ENOMSG"
| "i32_of_os_error OperationNotSupported = ENOTSUP"
| "i32_of_os_error ResourceBusy = EBUSY"
| "i32_of_os_error NetworkUnreachable = ENETUNREACH"
| "i32_of_os_error NetworkDisconnected = ENETDOWN"
| "i32_of_os_error PeerUnreachable = EHOSTUNREACH"
| "i32_of_os_error PeerDisconnected = EHOSTDOWN"
| "i32_of_os_error NotConnected = ENOTCONN"
| "i32_of_os_error BrokenPipe = EPIPE"
| "i32_of_os_error NoBufferSpace = ENOBUFS"
| "i32_of_os_error UnknownError = - 1"

text \<open>\<open>impl From<std::io::Error>\<close> and \<open>OsError::last\<close>, given the raw error number the
  standard library's error carries, if it carries one.\<close>

definition os_error_of_io_error :: "i32 option \<Rightarrow> os_error" where
  "os_error_of_io_error raw =
     (case raw of None \<Rightarrow> UnknownError | Some c \<Rightarrow> os_error_of_i32 c)"

text \<open>The errors that some error number converts to.\<close>

definition from_errno :: "os_error \<Rightarrow> bool" where
  "from_errno e \<longleftrightarrow>
     e \<notin> {OperationNotSupported, ResourceBusy, UnknownError} \<and>
     (\<forall>c. e = Generic c \<longrightarrow> os_error_of_i32 c = Generic c)"

lemma os_error_of_i32_Generic_iff:
  "os_error_of_i32 c = Generic d \<Longrightarrow> c = d"
  by (simp add: os_error_of_i32_def split: if_splits)

text \<open>
  Reading an error number and writing it back gives the number again,
  but for \<open>ENFILE\<close>, which shares its variant with \<open>EMFILE\<close>.
\<close>

theorem os_error_code_preserved:
  "i32_of_os_error (os_error_of_i32 c) = (if c = ENFILE then EMFILE else c)"
  unfolding os_error_of_i32_def
  by (simp split: if_split)

text \<open>
  Writing an error as a number and reading it back gives the same
  error exactly for the errors some number converts to; the three named variants
  \<open>OperationNotSupported\<close>, \<open>ResourceBusy\<close> and \<open>UnknownError\<close> are lost.
\<close>

theorem os_error_roundtrip_iff:
  "os_error_of_i32 (i32_of_os_error e) = e \<longleftrightarrow> from_errno e"
  by (cases e) (simp_all add: from_errno_def os_error_of_i32_def)

end
