(* ===== verification/Transition.thy ===== *)
theory Transition
  imports Prelude
begin

text \<open>
  The shape shared by the concurrent components: a state, and a partial function that
  performs one named action of one thread, \<open>None\<close> where the action is not enabled.
  An execution is a list of actions, so every interleaving of the threads is one list.
  The locale \<open>invariant_of\<close> is the contract a component's invariant discharges.
\<close>

fun run :: "('a \<Rightarrow> 's \<Rightarrow> 's option) \<Rightarrow> 'a list \<Rightarrow> 's \<Rightarrow> 's option" where
  "run act [] s = Some s"
| "run act (a # as) s = (case act a s of None \<Rightarrow> None | Some t \<Rightarrow> run act as t)"

inductive reachable :: "('a \<Rightarrow> 's \<Rightarrow> 's option) \<Rightarrow> 's \<Rightarrow> 's \<Rightarrow> bool"
  for act :: "'a \<Rightarrow> 's \<Rightarrow> 's option" and init :: 's where
  reach_init: "reachable act init init"
| reach_step: "reachable act init s \<Longrightarrow> act a s = Some t \<Longrightarrow> reachable act init t"

lemma run_append:
  "run act (as @ bs) s = (case run act as s of None \<Rightarrow> None | Some t \<Rightarrow> run act bs t)"
  by (induction as arbitrary: s) (auto split: option.splits)

lemma reachable_run:
  "reachable act init s \<Longrightarrow> run act as s = Some t \<Longrightarrow> reachable act init t"
  by (induction as arbitrary: s) (auto split: option.splits intro: reach_step)

lemma run_reachable: "run act as init = Some t \<Longrightarrow> reachable act init t"
  by (rule reachable_run [OF reach_init])

lemma reachable_iff_run: "reachable act init t \<longleftrightarrow> (\<exists>as. run act as init = Some t)"
proof
  assume "reachable act init t"
  then show "\<exists>as. run act as init = Some t"
  proof induction
    case reach_init
    have "run act [] init = Some init" by simp
    then show ?case ..
  next
    case (reach_step s a t)
    then obtain as where "run act as init = Some s" by blast
    with reach_step.hyps(2) have "run act (as @ [a]) init = Some t"
      by (simp add: run_append)
    then show ?case ..
  qed
qed (auto intro: run_reachable)

locale invariant_of =
  fixes act :: "'a \<Rightarrow> 's \<Rightarrow> 's option"
    and init :: 's
    and inv :: "'s \<Rightarrow> bool"
  assumes inv_init: "inv init"
    and inv_step: "inv s \<Longrightarrow> act a s = Some t \<Longrightarrow> inv t"
begin

lemma reachable_inv: "reachable act init s \<Longrightarrow> inv s"
  by (induction rule: reachable.induct) (auto intro: inv_init inv_step)

lemma run_inv: "inv s \<Longrightarrow> run act as s = Some t \<Longrightarrow> inv t"
  by (induction as arbitrary: s) (auto split: option.splits intro: inv_step)

end

text \<open>Counting the entries of a list after one of them is replaced.\<close>

lemma length_filter_update:
  "i < length xs \<Longrightarrow>
     length (filter P (xs[i := y])) + (if P (xs ! i) then 1 else 0)
       = length (filter P xs) + (if P y then 1 else 0)"
proof (induction xs arbitrary: i)
  case Nil
  then show ?case by simp
next
  case (Cons x xs)
  then show ?case by (cases i) auto
qed

lemma sum_list_map_update:
  "i < length xs \<Longrightarrow>
     sum_list (map f (xs[i := y])) + (f (xs ! i) :: nat) = sum_list (map f xs) + f y"
proof (induction xs arbitrary: i)
  case Nil
  then show ?case by simp
next
  case (Cons x xs)
  show ?case
  proof (cases i)
    case 0
    then show ?thesis by simp
  next
    case (Suc j)
    with Cons.prems Cons.IH [of j] show ?thesis by simp
  qed
qed

text \<open>A detailed process that implements an abstract one: every step from a state with the invariant is, through
  \<open>view\<close>, some steps of the abstract process, none for a step it does not see.\<close>

locale simulation_of = invariant_of act init inv
  for act :: "'a \<Rightarrow> 's \<Rightarrow> 's option" and init :: 's and inv :: "'s \<Rightarrow> bool" +
  fixes abs_act :: "'b \<Rightarrow> 't \<Rightarrow> 't option"
    and abs_init :: 't
    and view :: "'s \<Rightarrow> 't"
  assumes view_init: "view init = abs_init"
    and view_step: "inv s \<Longrightarrow> act a s = Some t \<Longrightarrow> \<exists>bs. run abs_act bs (view s) = Some (view t)"
begin

lemma view_run: "inv s \<Longrightarrow> run act as s = Some t \<Longrightarrow> \<exists>bs. run abs_act bs (view s) = Some (view t)"
proof (induction as arbitrary: s)
  case Nil
  then have "run abs_act [] (view s) = Some (view t)" by simp
  then show ?case ..
next
  case (Cons a as)
  then obtain u where u: "act a s = Some u" "run act as u = Some t" by (auto split: option.splits)
  obtain bs where "run abs_act bs (view s) = Some (view u)" using view_step [OF Cons.prems(1) u(1)] ..
  moreover obtain cs where "run abs_act cs (view u) = Some (view t)"
    using Cons.IH [OF inv_step [OF Cons.prems(1) u(1)] u(2)] ..
  ultimately have "run abs_act (bs @ cs) (view s) = Some (view t)" by (simp add: run_append)
  then show ?case ..
qed

lemma view_reachable: "reachable act init s \<Longrightarrow> reachable abs_act abs_init (view s)"
  using view_run [OF inv_init] by (auto simp: reachable_iff_run view_init)

end

end
