(* ===== verification/Mutex.thy ===== *)
theory Mutex
  imports Transition
begin

text \<open>
  The asynchronous mutex (\<open>src/sync/mutex.rs\<close>). The state of \<open>MutexInner\<close> is the
  \<open>locked\<close> flag and the queue of wakers; a \<open>MutexFuture\<close> and the destructor of a
  \<open>MutexGuard\<close> are split at their atomic operations, so that any interleaving of
  several tasks is a list of actions. A task is known by the index of its future, which is
  also its waker. A task is polled for the first time when it is spawned and later only
  after it was woken, as the executor does.
\<close>

section \<open>State\<close>

record mutex_inner =
  locked :: bool
  waker_queue :: "waker list"

text \<open>Where \<open>MutexFuture::poll\<close> stands: before the first \<open>check_lock\<close>, before the
  push of the waker, before the second \<open>check_lock\<close>, or between two polls.\<close>

datatype mutex_pc = Created | FirstCheck | PushWaker | SecondCheck | Waiting | Ready | Dropped

text \<open>Where a \<open>MutexGuard\<close> stands: alive, or in \<open>drop\<close> after the store of \<open>false\<close>.\<close>

datatype guard_pc = Held | Unlocked | Released

record mutex_sys =
  inner :: mutex_inner
  futures :: "mutex_pc list"
  guards :: "guard_pc list"
  woken :: "waker set"

definition mutex_new :: mutex_inner where
  "mutex_new = \<lparr>locked = False, waker_queue = []\<rparr>"

definition mutex_init :: mutex_sys where
  "mutex_init = \<lparr>inner = mutex_new, futures = [], guards = [], woken = {}\<rparr>"

section \<open>Operations\<close>

text \<open>\<open>check_lock\<close>: \<open>compare_exchange(false, true)\<close>; the result says whether it succeeded.\<close>

definition check_lock :: "mutex_inner \<Rightarrow> mutex_inner \<times> bool" where
  "check_lock m = (if locked m then (m, False) else (m\<lparr>locked := True\<rparr>, True))"

text \<open>One atomic operation of \<open>MutexFuture::poll\<close>: the inner state, the next position, and
  whether a guard was made.\<close>

fun mutex_poll_step :: "waker \<Rightarrow> mutex_inner \<Rightarrow> mutex_pc \<Rightarrow> (mutex_inner \<times> mutex_pc \<times> bool) option" where
  "mutex_poll_step w m FirstCheck =
     (case check_lock m of (m', ok) \<Rightarrow> Some (if ok then (m', Ready, True) else (m', PushWaker, False)))"
| "mutex_poll_step w m PushWaker =
     Some (m\<lparr>waker_queue := waker_queue m @ [w]\<rparr>, SecondCheck, False)"
| "mutex_poll_step w m SecondCheck =
     (case check_lock m of (m', ok) \<Rightarrow> Some (if ok then (m', Ready, True) else (m', Waiting, False)))"
| "mutex_poll_step w m _ = None"

text \<open>The two atomic operations of \<open>MutexGuard::drop\<close>.\<close>

definition guard_unlock :: "mutex_inner \<Rightarrow> mutex_inner" where
  "guard_unlock m = m\<lparr>locked := False\<rparr>"

definition guard_pop :: "mutex_inner \<Rightarrow> mutex_inner \<times> waker option" where
  "guard_pop m =
     (case waker_queue m of [] \<Rightarrow> (m, None) | w # ws \<Rightarrow> (m\<lparr>waker_queue := ws\<rparr>, Some w))"

section \<open>The system of tasks\<close>

datatype mutex_action =
    Lock            \<comment> \<open>\<open>Mutex::lock\<close> makes a future\<close>
  | BeginPoll nat
  | PollStep nat
  | DropFuture nat
  | Unlock nat      \<comment> \<open>first half of \<open>MutexGuard::drop\<close>\<close>
  | PopWaker nat    \<comment> \<open>second half of \<open>MutexGuard::drop\<close>\<close>
  | CloneGuard nat  \<comment> \<open>the derived \<open>Clone\<close> of \<open>MutexGuard\<close>\<close>

definition may_poll :: "mutex_sys \<Rightarrow> nat \<Rightarrow> bool" where
  "may_poll s i \<longleftrightarrow> i < length (futures s) \<and>
     (futures s ! i = Created \<or> futures s ! i = Waiting \<and> i \<in> woken s)"

fun mutex_act :: "mutex_action \<Rightarrow> mutex_sys \<Rightarrow> mutex_sys option" where
  "mutex_act Lock s = Some (s\<lparr>futures := futures s @ [Created]\<rparr>)"
| "mutex_act (BeginPoll i) s =
     (if may_poll s i
      then Some (s\<lparr>futures := (futures s)[i := FirstCheck], woken := woken s - {i}\<rparr>)
      else None)"
| "mutex_act (PollStep i) s =
     (if i < length (futures s)
      then case mutex_poll_step i (inner s) (futures s ! i) of
             None \<Rightarrow> None
           | Some (m, pc, got) \<Rightarrow>
               Some (s\<lparr>inner := m, futures := (futures s)[i := pc],
                       guards := guards s @ (if got then [Held] else [])\<rparr>)
      else None)"
| "mutex_act (DropFuture i) s =
     (if i < length (futures s) \<and> futures s ! i \<in> {Created, Waiting, Ready}
      then Some (s\<lparr>futures := (futures s)[i := Dropped]\<rparr>)
      else None)"
| "mutex_act (Unlock j) s =
     (if j < length (guards s) \<and> guards s ! j = Held
      then Some (s\<lparr>inner := guard_unlock (inner s), guards := (guards s)[j := Unlocked]\<rparr>)
      else None)"
| "mutex_act (PopWaker j) s =
     (if j < length (guards s) \<and> guards s ! j = Unlocked
      then case guard_pop (inner s) of (m, w) \<Rightarrow>
             Some (s\<lparr>inner := m, guards := (guards s)[j := Released],
                     woken := woken s \<union> set_option w\<rparr>)
      else None)"
| "mutex_act (CloneGuard j) s =
     (if j < length (guards s) \<and> guards s ! j = Held
      then Some (s\<lparr>guards := guards s @ [Held]\<rparr>)
      else None)"

text \<open>The same system without the derived \<open>Clone\<close>.\<close>

definition mutex_act_no_clone :: "mutex_action \<Rightarrow> mutex_sys \<Rightarrow> mutex_sys option" where
  "mutex_act_no_clone a s = (case a of CloneGuard _ \<Rightarrow> None | _ \<Rightarrow> mutex_act a s)"

section \<open>Mutual exclusion\<close>

definition n_held :: "mutex_sys \<Rightarrow> nat" where
  "n_held s = length (filter (\<lambda>g. g = Held) (guards s))"

text \<open>The flag is set exactly while one guard is alive, and there is never more than one.\<close>

definition mutex_inv :: "mutex_sys \<Rightarrow> bool" where
  "mutex_inv s \<longleftrightarrow> n_held s = (if locked (inner s) then 1 else 0)"

lemma mutex_poll_step_lock:
  "mutex_poll_step w m pc = Some (m', pc', got) \<Longrightarrow>
     (got \<longrightarrow> \<not> locked m \<and> locked m') \<and> (\<not> got \<longrightarrow> locked m' = locked m)"
  by (cases pc) (auto simp: check_lock_def split: if_splits)

lemma guard_pop_locked: "guard_pop m = (m', w) \<Longrightarrow> locked m' = locked m"
  by (auto simp: guard_pop_def split: list.splits)

lemma n_held_replace:
  assumes "j < length (guards s)" "guards s ! j = g"
  shows "length (filter (\<lambda>g. g = Held) ((guards s)[j := g'])) + (if g = Held then 1 else 0)
    = n_held s + (if g' = Held then 1 else 0)"
  using length_filter_update [OF assms(1), of "\<lambda>g. g = Held" g'] assms(2)
  by (simp add: n_held_def)

lemma mutex_inv_step:
  assumes inv: "mutex_inv s" and step: "mutex_act_no_clone a s = Some t"
  shows "mutex_inv t"
proof (cases a)
  case (PollStep i)
  with step obtain m pc got where
    m: "mutex_poll_step i (inner s) (futures s ! i) = Some (m, pc, got)" and
    t: "t = s\<lparr>inner := m, futures := (futures s)[i := pc],
              guards := guards s @ (if got then [Held] else [])\<rparr>"
    by (auto simp: mutex_act_no_clone_def split: if_splits option.splits)
  from mutex_poll_step_lock [OF m] inv show ?thesis
    by (auto simp: t mutex_inv_def n_held_def)
next
  case (Unlock j)
  with step have j: "j < length (guards s)" "guards s ! j = Held" and
    t: "t = s\<lparr>inner := guard_unlock (inner s), guards := (guards s)[j := Unlocked]\<rparr>"
    by (auto simp: mutex_act_no_clone_def split: if_splits)
  from n_held_replace [OF j, of Unlocked] inv show ?thesis
    by (auto simp: t mutex_inv_def n_held_def guard_unlock_def split: if_splits)
next
  case (PopWaker j)
  with step obtain m w where j: "j < length (guards s)" "guards s ! j = Unlocked" and
    m: "guard_pop (inner s) = (m, w)" and
    t: "t = s\<lparr>inner := m, guards := (guards s)[j := Released], woken := woken s \<union> set_option w\<rparr>"
    by (auto simp: mutex_act_no_clone_def split: if_splits prod.splits)
  from n_held_replace [OF j, of Released] guard_pop_locked [OF m] inv show ?thesis
    by (auto simp: t mutex_inv_def n_held_def)
qed (use inv step in \<open>auto simp: mutex_act_no_clone_def mutex_inv_def n_held_def split: if_splits\<close>)

lemma mutex_inv_init: "mutex_inv mutex_init"
  by (simp add: mutex_init_def mutex_inv_def n_held_def mutex_new_def)

interpretation mutex: invariant_of mutex_act_no_clone mutex_init mutex_inv
  by unfold_locales (fact mutex_inv_init, fact mutex_inv_step)

lemma filter_two_le_one:
  assumes "length (filter P xs) \<le> 1" "i < length xs" "j < length xs" "P (xs ! i)" "P (xs ! j)"
  shows "i = j"
proof (rule ccontr)
  assume ij: "i \<noteq> j"
  have "card {i, j} \<le> card {k. k < length xs \<and> P (xs ! k)}"
    using assms(2-5) by (intro card_mono) auto
  then show False using assms(1) ij by (simp add: length_filter_conv_card)
qed

text \<open>C4. Mutual exclusion. In every state that any interleaving of locking, polling, dropping
  and unlocking tasks reaches (without cloning a guard), two live guards are the same guard.\<close>

theorem mutex_mutual_exclusion:
  assumes "reachable mutex_act_no_clone mutex_init s"
    and "i < length (guards s)" "guards s ! i = Held"
    and "j < length (guards s)" "guards s ! j = Held"
  shows "i = j"
proof -
  from mutex.reachable_inv [OF assms(1)] have "length (filter (\<lambda>g. g = Held) (guards s)) \<le> 1"
    by (simp add: mutex_inv_def n_held_def split: if_splits)
  from filter_two_le_one [OF this assms(2,4)] assms(3,5) show ?thesis by simp
qed

text \<open>Two tasks contend: the first holds the guard while the second waits.\<close>

definition mutex_contended :: "mutex_action list" where
  "mutex_contended = [Lock, Lock, BeginPoll 0, PollStep 0, BeginPoll 1, PollStep 1, PollStep 1, PollStep 1]"

lemma mutex_contended_run:
  "\<exists>s. run mutex_act_no_clone mutex_contended mutex_init = Some s \<and>
       guards s = [Held] \<and> futures s = [Ready, Waiting] \<and> waker_queue (inner s) = [1]"
  by (simp add: mutex_contended_def mutex_act_no_clone_def mutex_init_def mutex_new_def
      may_poll_def check_lock_def)

theorem mutex_mutual_exclusion_witness:
  "\<exists>s. reachable mutex_act_no_clone mutex_init s \<and> guards s ! 0 = Held \<and> (0::nat) = 0"
proof -
  obtain s where r: "run mutex_act_no_clone mutex_contended mutex_init = Some s"
    and g: "guards s = [Held]" using mutex_contended_run by blast
  from run_reachable [OF r] have re: "reachable mutex_act_no_clone mutex_init s" .
  from mutex_mutual_exclusion [OF re, of 0 0] g have "(0::nat) = 0" by simp
  with re g show ?thesis by auto
qed

text \<open>A cloned guard breaks mutual exclusion: with the derived \<open>Clone\<close>, a state is
  reachable in which two different tasks hold live guards of one mutex.\<close>

theorem mutex_clone_breaks_exclusion:
  "\<exists>s. reachable mutex_act mutex_init s \<and> guards s = [Released, Held, Held] \<and>
       futures s = [Ready, Ready]"
proof -
  let ?as = "[Lock, Lock, BeginPoll 0, PollStep 0, CloneGuard 0, Unlock 0, PopWaker 0,
    BeginPoll 1, PollStep 1]"
  have "\<exists>s. run mutex_act ?as mutex_init = Some s \<and> guards s = [Released, Held, Held] \<and>
      futures s = [Ready, Ready]"
    by (simp add: mutex_init_def mutex_new_def may_poll_def check_lock_def guard_unlock_def
        guard_pop_def)
  then show ?thesis by (blast intro: run_reachable)
qed

section \<open>Wake-ups\<close>

text \<open>A task that stored its waker and was not yet woken still has it in the queue.\<close>

definition registered :: "mutex_sys \<Rightarrow> nat \<Rightarrow> bool" where
  "registered s i \<longleftrightarrow> i \<in> set (waker_queue (inner s)) \<or> i \<in> woken s"

definition waiters_inv :: "mutex_sys \<Rightarrow> bool" where
  "waiters_inv s \<longleftrightarrow>
     (\<forall>i < length (futures s). futures s ! i \<in> {SecondCheck, Waiting} \<longrightarrow> registered s i)"

lemma mutex_poll_step_queue:
  assumes "mutex_poll_step w m pc = Some (m', pc', got)"
  shows "set (waker_queue m) \<subseteq> set (waker_queue m')"
    and "pc' \<in> {SecondCheck, Waiting} \<Longrightarrow> w \<in> set (waker_queue m') \<or> pc = SecondCheck"
  using assms by (cases pc; auto simp: check_lock_def split: if_splits)+

lemma guard_pop_queue:
  "guard_pop m = (m', w) \<Longrightarrow> set (waker_queue m) = set_option w \<union> set (waker_queue m') \<or>
     set (waker_queue m) \<subseteq> set_option w \<union> set (waker_queue m')"
  by (auto simp: guard_pop_def split: list.splits)

lemma waiters_inv_init: "waiters_inv mutex_init"
  by (simp add: waiters_inv_def mutex_init_def)

lemma waiters_inv_step:
  assumes inv: "waiters_inv s" and step: "mutex_act a s = Some t"
  shows "waiters_inv t"
proof (cases a)
  case Lock
  with step have t: "t = s\<lparr>futures := futures s @ [Created]\<rparr>" by simp
  with inv show ?thesis
    by (fastforce simp: waiters_inv_def registered_def nth_append less_Suc_eq)
next
  case (BeginPoll i)
  with inv step show ?thesis
    by (auto simp: waiters_inv_def registered_def may_poll_def nth_list_update split: if_splits)
next
  case (PollStep i)
  with step obtain m pc got where
    m: "mutex_poll_step i (inner s) (futures s ! i) = Some (m, pc, got)" and
    t: "t = s\<lparr>inner := m, futures := (futures s)[i := pc],
              guards := guards s @ (if got then [Held] else [])\<rparr>"
    by (auto split: if_splits option.splits)
  show ?thesis
    unfolding waiters_inv_def
  proof (intro allI impI)
    fix k assume k: "k < length (futures t)" and pc_k: "futures t ! k \<in> {SecondCheck, Waiting}"
    from inv have old: "futures s ! k \<in> {SecondCheck, Waiting} \<Longrightarrow> registered s k"
      using k t by (auto simp: waiters_inv_def)
    show "registered t k"
    proof (cases "k = i")
      case True
      with pc_k t k mutex_poll_step_queue [OF m] old show ?thesis
        by (auto simp: registered_def)
    next
      case False
      with pc_k t old mutex_poll_step_queue(1) [OF m] show ?thesis
        by (auto simp: registered_def)
    qed
  qed
next
  case (PopWaker j)
  with step obtain m w where
    m: "guard_pop (inner s) = (m, w)" and
    t: "t = s\<lparr>inner := m, guards := (guards s)[j := Released], woken := woken s \<union> set_option w\<rparr>"
    by (auto split: if_splits prod.splits)
  from guard_pop_queue [OF m] inv show ?thesis
    by (auto simp: t waiters_inv_def registered_def)
qed (use inv step in \<open>auto simp: waiters_inv_def registered_def guard_unlock_def nth_list_update
      split: if_splits\<close>)

interpretation waiters: invariant_of mutex_act mutex_init waiters_inv
  by unfold_locales (fact waiters_inv_init, fact waiters_inv_step)

text \<open>No waker is dropped: in every reachable state of every interleaving, a task whose lock
  future is pending either has its waker in the queue or has already been woken.\<close>

theorem mutex_waiter_registered:
  assumes "reachable mutex_act mutex_init s" "i < length (futures s)" "futures s ! i = Waiting"
  shows "i \<in> set (waker_queue (inner s)) \<or> i \<in> woken s"
  using waiters.reachable_inv [OF assms(1)] assms(2,3)
  by (auto simp: waiters_inv_def registered_def)

theorem mutex_waiter_registered_witness:
  "\<exists>s. reachable mutex_act mutex_init s \<and> futures s ! 1 = Waiting \<and>
       (1 \<in> set (waker_queue (inner s)) \<or> 1 \<in> woken s)"
proof -
  have "\<exists>s. run mutex_act mutex_contended mutex_init = Some s \<and> futures s = [Ready, Waiting]"
    by (simp add: mutex_contended_def mutex_init_def mutex_new_def may_poll_def check_lock_def)
  then obtain s where r: "reachable mutex_act mutex_init s" and f: "futures s = [Ready, Waiting]"
    by (blast intro: run_reachable)
  from mutex_waiter_registered [OF r, of 1] r f show ?thesis by auto
qed

text \<open>A state in which nothing runs: every future is finished or asleep, and no guard is alive
  or being dropped.\<close>

definition asleep :: "mutex_sys \<Rightarrow> nat \<Rightarrow> bool" where
  "asleep s i \<longleftrightarrow> i < length (futures s) \<and> futures s ! i = Waiting \<and> i \<notin> woken s"

definition quiescent :: "mutex_sys \<Rightarrow> bool" where
  "quiescent s \<longleftrightarrow>
     list_all (\<lambda>i. futures s ! i \<in> {Ready, Dropped} \<or> asleep s i) [0..<length (futures s)] \<and>
     list_all (\<lambda>g. g = Released) (guards s)"

lemma quiescent_step:
  assumes "quiescent s" "mutex_act a s = Some t"
  shows "a = Lock \<or> (\<exists>i. a = DropFuture i)"
  using assms
  by (cases a)
    (auto simp: quiescent_def asleep_def may_poll_def list_all_length split: if_splits option.splits)

text \<open>C6. The lost wake-up. A waker pushed before a second check that succeeds stays in the queue,
  and the unlock that should wake the next waiter pops it instead. So a state is reachable in
  which the mutex is free, one task is asleep waiting for it, and nothing in the system will
  ever wake that task.\<close>

theorem mutex_lost_wakeup:
  "\<exists>s. reachable mutex_act_no_clone mutex_init s \<and> \<not> locked (inner s) \<and> asleep s 2 \<and> quiescent s"
proof -
  let ?as = "[Lock, Lock, Lock, BeginPoll 0, PollStep 0, BeginPoll 1, PollStep 1, Unlock 0,
    PopWaker 0, PollStep 1, PollStep 1, BeginPoll 2, PollStep 2, PollStep 2, PollStep 2,
    Unlock 1, PopWaker 1]"
  have "\<exists>s. run mutex_act_no_clone ?as mutex_init = Some s \<and> \<not> locked (inner s) \<and> asleep s 2 \<and>
      quiescent s"
    by (simp add: mutex_act_no_clone_def mutex_init_def mutex_new_def may_poll_def check_lock_def
        guard_unlock_def guard_pop_def asleep_def quiescent_def upt_rec)
  then show ?thesis by (blast intro: run_reachable)
qed

text \<open>Such a task is never resumed: from a quiescent state, as long as no new lock request
  arrives, every run leaves the mutex and its queue alone and the task asleep or dropped.\<close>

theorem mutex_quiescent_stays:
  assumes "quiescent s" "asleep s i" "run mutex_act as s = Some t" "Lock \<notin> set as"
  shows "inner t = inner s \<and> (asleep t i \<or> futures t ! i = Dropped)"
proof -
  have "quiescent u \<Longrightarrow> asleep u i \<or> futures u ! i = Dropped \<and> i < length (futures u) \<Longrightarrow>
      run mutex_act as u = Some t \<Longrightarrow> Lock \<notin> set as \<Longrightarrow>
      inner t = inner u \<and> (asleep t i \<or> futures t ! i = Dropped)" for u
  proof (induction as arbitrary: u)
    case Nil
    then show ?case by auto
  next
    case (Cons a as)
    then obtain v where v: "mutex_act a u = Some v" "run mutex_act as v = Some t"
      by (auto split: option.splits)
    from quiescent_step [OF Cons.prems(1) v(1)] Cons.prems(4) obtain k where a: "a = DropFuture k"
      by auto
    with v(1) have k: "k < length (futures u)" and
      eq: "v = u\<lparr>futures := (futures u)[k := Dropped]\<rparr>" by (auto split: if_splits)
    have "quiescent v"
      using Cons.prems(1) k
      by (auto simp: eq quiescent_def asleep_def list_all_length nth_list_update)
    moreover have "asleep v i \<or> futures v ! i = Dropped \<and> i < length (futures v)"
      using Cons.prems(2) k by (auto simp: eq asleep_def nth_list_update)
    ultimately show ?case using Cons.IH [of v] v(2) Cons.prems(4) by (simp add: eq)
  qed
  with assms show ?thesis by blast
qed

theorem mutex_quiescent_stays_witness:
  "\<exists>s t. quiescent s \<and> asleep s 0 \<and> run mutex_act [DropFuture 1] s = Some t \<and>
     inner t = inner s \<and> (asleep t 0 \<or> futures t ! 0 = Dropped)"
proof -
  let ?s = "\<lparr>inner = \<lparr>locked = False, waker_queue = [0]\<rparr>, futures = [Waiting, Ready], guards = [Released],
    woken = {1}\<rparr>"
  have q: "quiescent ?s" "asleep ?s 0" by (simp_all add: quiescent_def asleep_def upt_rec)
  moreover obtain t where t: "run mutex_act [DropFuture 1] ?s = Some t" by simp
  ultimately show ?thesis using mutex_quiescent_stays [OF q t] by auto
qed

end
