(* ===== verification/Semaphore.thy ===== *)
theory Semaphore
  imports Transition
begin

text \<open>
  The asynchronous counting semaphore (\<open>src/sync/semaphore.rs\<close>). \<open>SemaphoreInner\<close> is the
  counter and the queue of wakers. The loop of \<open>sem_fut\<close>, which both future types share, is
  split at its atomic operations, so an execution of several tasks is a list of actions.
  A future is known by its index, which is also its waker. \<open>SemaphoreFuture\<close> and
  \<open>OwnedSemaphoreFuture\<close> differ in how they refer to the semaphore only, as \<open>Permit\<close> and
  \<open>OwnedPermit\<close> do, and share one model.
\<close>

section \<open>State\<close>

record semaphore_inner =
  permits :: usize
  wakers :: "waker list"

text \<open>\<open>SemaphoreFutureState\<close>: a hungry future keeps the permits it took so far.\<close>

datatype fut_state = Polite | Hungry usize

text \<open>Where \<open>sem_fut\<close> stands; the flag is its local \<open>queued\<close>, the number its local \<open>permits\<close>.\<close>

datatype sem_pc =
    Fresh
  | Load bool           \<comment> \<open>before the load at the head of the loop\<close>
  | TakeAll bool usize  \<comment> \<open>before the exchange that takes what is needed\<close>
  | Drain bool usize    \<comment> \<open>before the exchange to zero of a hungry future\<close>
  | Push                \<comment> \<open>before the push of the waker\<close>
  | Pending
  | Done
  | Gone

record sem_future =
  desired_permits :: usize
  fstate :: fut_state
  fpc :: sem_pc

definition semaphore_new :: "usize \<Rightarrow> semaphore_inner" where
  "semaphore_new n = \<lparr>permits = n, wakers = []\<rparr>"

section \<open>The poll loop\<close>

fun hungry_count :: "fut_state \<Rightarrow> usize" where
  "hungry_count Polite = 0"
| "hungry_count (Hungry c) = c"

definition sem_needed :: "usize \<Rightarrow> fut_state \<Rightarrow> usize" where
  "sem_needed d st = saturating_sub d (hungry_count st)"

definition sem_tail :: "bool \<Rightarrow> sem_pc" where
  "sem_tail queued = (if queued then Pending else Push)"

text \<open>What follows a first exchange that did not succeed: the branch of hungry futures.\<close>

fun sem_hungry_branch :: "fut_state \<Rightarrow> bool \<Rightarrow> usize \<Rightarrow> sem_pc" where
  "sem_hungry_branch Polite queued p = sem_tail queued"
| "sem_hungry_branch (Hungry c) queued p = (if p > 0 then Drain queued p else sem_tail queued)"

fun sem_fut_step ::
  "waker \<Rightarrow> usize \<Rightarrow> semaphore_inner \<Rightarrow> fut_state \<Rightarrow> sem_pc \<Rightarrow>
    (semaphore_inner \<times> fut_state \<times> sem_pc) option" where
  "sem_fut_step w d s st (Load q) =
     (let p = permits s in
      if sem_needed d st \<le> p then Some (s, st, TakeAll q p)
      else Some (s, st, sem_hungry_branch st q p))"
| "sem_fut_step w d s st (TakeAll q p) =
     (if permits s = p then Some (s\<lparr>permits := p - sem_needed d st\<rparr>, st, Done)
      else if q then Some (s, st, sem_hungry_branch st q p)
      else Some (s, st, Load q))"
| "sem_fut_step w d s st (Drain q p) =
     (if permits s = p then Some (s\<lparr>permits := 0\<rparr>, Hungry (hungry_count st + p), sem_tail q)
      else if q then Some (s, st, sem_tail q)
      else Some (s, st, Load q))"
| "sem_fut_step w d s st Push = Some (s\<lparr>wakers := wakers s @ [w]\<rparr>, st, Load True)"
| "sem_fut_step w d s st _ = None"

text \<open>\<open>add_permits\<close>: the addition, and one round of the loop that wakes a waiter.\<close>

definition add_permits :: "usize \<Rightarrow> semaphore_inner \<Rightarrow> semaphore_inner" where
  "add_permits n s = s\<lparr>permits := permits s + n\<rparr>"

fun wake_round :: "semaphore_inner \<Rightarrow> (semaphore_inner \<times> waker) option" where
  "wake_round s = (case wakers s of [] \<Rightarrow> None | w # ws \<Rightarrow> Some (s\<lparr>wakers := ws\<rparr>, w))"

text \<open>A poll that nothing interferes with; the fuel bounds the rounds of the loop.\<close>

fun sem_poll :: "nat \<Rightarrow> waker \<Rightarrow> usize \<Rightarrow> semaphore_inner \<Rightarrow> fut_state \<Rightarrow> sem_pc \<Rightarrow>
    (semaphore_inner \<times> fut_state \<times> sem_pc) option" where
  "sem_poll 0 w d s st pc = None"
| "sem_poll (Suc n) w d s st pc =
     (if pc = Pending \<or> pc = Done then Some (s, st, pc)
      else case sem_fut_step w d s st pc of
             None \<Rightarrow> None
           | Some (s', st', pc') \<Rightarrow> sem_poll n w d s' st' pc')"

section \<open>The system of tasks\<close>

record sem_sys =
  sem :: semaphore_inner
  sfuts :: "sem_future list"
  sout :: "usize list"        \<comment> \<open>weights of the live permits\<close>
  swaking :: "nat list"       \<comment> \<open>rounds left in each running \<open>add_permits\<close>\<close>
  swoken :: "waker set"

definition sem_init :: "usize \<Rightarrow> sem_sys" where
  "sem_init n = \<lparr>sem = semaphore_new n, sfuts = [], sout = [], swaking = [], swoken = {}\<rparr>"

datatype sem_action =
    Acquire usize
  | AcquireHungry usize
  | SBegin nat
  | SStep nat
  | SDropFuture nat
  | SDropPermit usize
  | SWake nat

definition smay_poll :: "sem_sys \<Rightarrow> nat \<Rightarrow> bool" where
  "smay_poll s i \<longleftrightarrow> i < length (sfuts s) \<and>
     (fpc (sfuts s ! i) = Fresh \<or> fpc (sfuts s ! i) = Pending \<and> i \<in> swoken s)"

text \<open>\<open>Drop\<close> of a future: what it gives back.\<close>

fun future_drop :: "fut_state \<Rightarrow> usize option" where
  "future_drop Polite = None"
| "future_drop (Hungry c) = (if c > 0 then Some c else None)"

definition release :: "usize \<Rightarrow> sem_sys \<Rightarrow> sem_sys" where
  "release n s = s\<lparr>sem := add_permits n (sem s), swaking := swaking s @ [unat n]\<rparr>"

fun sem_act :: "sem_action \<Rightarrow> sem_sys \<Rightarrow> sem_sys option" where
  "sem_act (Acquire n) s =
     Some (s\<lparr>sfuts := sfuts s @ [\<lparr>desired_permits = n, fstate = Polite, fpc = Fresh\<rparr>]\<rparr>)"
| "sem_act (AcquireHungry n) s =
     Some (s\<lparr>sfuts := sfuts s @ [\<lparr>desired_permits = n, fstate = Hungry 0, fpc = Fresh\<rparr>]\<rparr>)"
| "sem_act (SBegin i) s =
     (if smay_poll s i
      then Some (s\<lparr>sfuts := (sfuts s)[i := (sfuts s ! i)\<lparr>fpc := Load False\<rparr>], swoken := swoken s - {i}\<rparr>)
      else None)"
| "sem_act (SStep i) s =
     (if i < length (sfuts s)
      then let f = sfuts s ! i in
           case sem_fut_step i (desired_permits f) (sem s) (fstate f) (fpc f) of
             None \<Rightarrow> None
           | Some (m, st, pc) \<Rightarrow>
               Some (s\<lparr>sem := m, sfuts := (sfuts s)[i := f\<lparr>fstate := st, fpc := pc\<rparr>],
                       sout := sout s @ (if pc = Done then [desired_permits f] else [])\<rparr>)
      else None)"
| "sem_act (SDropFuture i) s =
     (if i < length (sfuts s) \<and> fpc (sfuts s ! i) \<in> {Fresh, Pending, Done}
      then let s' = s\<lparr>sfuts := (sfuts s)[i := (sfuts s ! i)\<lparr>fpc := Gone\<rparr>]\<rparr> in
           (case future_drop (fstate (sfuts s ! i)) of
              None \<Rightarrow> Some s'
            | Some c \<Rightarrow> Some (release c s'))
      else None)"
| "sem_act (SDropPermit w) s =
     (if w \<in> set (sout s) then Some (release w (s\<lparr>sout := remove1 w (sout s)\<rparr>)) else None)"
| "sem_act (SWake l) s =
     (if l < length (swaking s) \<and> 0 < swaking s ! l
      then case wake_round (sem s) of
             None \<Rightarrow> Some (s\<lparr>swaking := (swaking s)[l := 0]\<rparr>)
           | Some (m, w) \<Rightarrow>
               Some (s\<lparr>sem := m, swaking := (swaking s)[l := swaking s ! l - 1], swoken := insert w (swoken s)\<rparr>)
      else None)"

text \<open>
  The one transition that gives back permits twice: a hungry future that has become ready
  (its permit carries the full weight) is dropped while it still records a count.
  \<open>sem_act_sound\<close> is the system without it.
\<close>

definition double_release :: "sem_action \<Rightarrow> sem_sys \<Rightarrow> bool" where
  "double_release a s =
     (case a of
        SDropFuture i \<Rightarrow> i < length (sfuts s) \<and> fpc (sfuts s ! i) = Done \<and>
          future_drop (fstate (sfuts s ! i)) \<noteq> None
      | _ \<Rightarrow> False)"

definition sem_act_sound :: "sem_action \<Rightarrow> sem_sys \<Rightarrow> sem_sys option" where
  "sem_act_sound a s = (if double_release a s then None else sem_act a s)"

section \<open>Accounting\<close>

text \<open>The permits a future that is neither ready nor dropped has taken, and all permits there are:
  free, held by live permits, or kept by such futures.\<close>

definition kept :: "sem_future \<Rightarrow> nat" where
  "kept f = (if fpc f = Done \<or> fpc f = Gone then 0 else unat (hungry_count (fstate f)))"

definition outstanding :: "sem_sys \<Rightarrow> nat" where
  "outstanding s = sum_list (map unat (sout s))"

definition account :: "sem_sys \<Rightarrow> nat" where
  "account s = unat (permits (sem s)) + outstanding s + sum_list (map kept (sfuts s))"

definition take_ok :: "sem_future \<Rightarrow> bool" where
  "take_ok f \<longleftrightarrow> (case fpc f of TakeAll _ p \<Rightarrow> sem_needed (desired_permits f) (fstate f) \<le> p | _ \<Rightarrow> True)"

definition sem_inv :: "usize \<Rightarrow> sem_sys \<Rightarrow> bool" where
  "sem_inv cap s \<longleftrightarrow> account s \<le> unat cap \<and> list_all take_ok (sfuts s)"

lemma unat_add_bounded:
  fixes a b :: "'a::len word"
  assumes "unat a + unat b < 2 ^ LENGTH('a)"
  shows "unat (a + b) = unat a + unat b"
  using assms by (simp add: unat_word_ariths)

lemma unat_total_bound: "n \<le> unat (t :: usize) \<Longrightarrow> n < 2 ^ 64"
  using unsigned_less [of t, where ?'a = nat] by (simp add: le_less_trans)

lemma sem_hungry_branch_not_done [simp]:
  "sem_hungry_branch st q p \<noteq> Done" "sem_hungry_branch st q p \<noteq> Gone"
  "sem_hungry_branch st q p \<noteq> TakeAll r u"
  by (cases st; simp add: sem_tail_def)+

lemma sem_tail_not_done [simp]:
  "sem_tail q \<noteq> Done" "sem_tail q \<noteq> Gone" "sem_tail q \<noteq> TakeAll r u"
  by (simp_all add: sem_tail_def)

lemma unat_after_take:
  assumes "sem_needed d st \<le> p"
  shows "unat (p - sem_needed d st) + unat d \<le> unat p + unat (hungry_count st)"
    and "hungry_count st \<le> d \<Longrightarrow> unat (p - sem_needed d st) + unat d = unat p + unat (hungry_count st)"
  using assms
  by (auto simp: sem_needed_def unat_sub unat_saturating_sub word_le_nat_alt)

lemma sem_fut_step_account:
  assumes "sem_fut_step w d s st pc = Some (s', st', pc')"
    and "case pc of TakeAll _ p \<Rightarrow> sem_needed d st \<le> p | _ \<Rightarrow> True"
    and "unat (permits s) + unat (hungry_count st) < 2 ^ 64"
  shows "pc' \<noteq> Done \<Longrightarrow>
           unat (permits s') + unat (hungry_count st') = unat (permits s) + unat (hungry_count st)"
    and "pc' = Done \<Longrightarrow> unat (permits s') + unat d \<le> unat (permits s) + unat (hungry_count st)"
    and "pc' = Done \<Longrightarrow> hungry_count st \<le> d \<Longrightarrow>
           unat (permits s') + unat d = unat (permits s) + unat (hungry_count st)"
    and "case pc' of TakeAll _ p \<Rightarrow> sem_needed d st' \<le> p | _ \<Rightarrow> True"
    and "pc' \<noteq> Gone" "pc \<noteq> Done" "pc \<noteq> Gone"
  using assms unat_after_take
  by (cases pc; auto simp: Let_def unat_add_bounded split: if_splits sem_pc.splits)+

lemma list_all_update: "list_all P xs \<Longrightarrow> P y \<Longrightarrow> list_all P (xs[i := y])"
  by (metis list_all_iff set_update_subset_insert subsetD insert_iff)

lemma kept_update:
  assumes "i < length (sfuts s)"
  shows "sum_list (map kept ((sfuts s)[i := f])) + kept (sfuts s ! i)
    = sum_list (map kept (sfuts s)) + kept f"
  using sum_list_map_update [OF assms, of kept f] .

lemma kept_le: "i < length (sfuts s) \<Longrightarrow> kept (sfuts s ! i) \<le> sum_list (map kept (sfuts s))"
  by (simp add: member_le_sum_list)

lemma account_release:
  assumes "unat (permits (sem s)) + unat w < 2 ^ 64"
  shows "account (release w s) = account s + unat w"
  using assms by (simp add: account_def outstanding_def release_def add_permits_def unat_add_bounded)

definition counts_fit :: "sem_sys \<Rightarrow> bool" where
  "counts_fit s \<longleftrightarrow> list_all (\<lambda>f. hungry_count (fstate f) \<le> desired_permits f) (sfuts s)"

lemma account_SStep:
  assumes ok: "list_all take_ok (sfuts s)" and bound: "account s < 2 ^ 64"
    and step: "sem_act (SStep i) s = Some t"
  shows "account t \<le> account s" "counts_fit s \<Longrightarrow> account t = account s" "list_all take_ok (sfuts t)"
proof -
  let ?f = "sfuts s ! i"
  from step obtain m st pc where i: "i < length (sfuts s)" and
    m: "sem_fut_step i (desired_permits ?f) (sem s) (fstate ?f) (fpc ?f) = Some (m, st, pc)" and
    t: "t = s\<lparr>sem := m, sfuts := (sfuts s)[i := ?f\<lparr>fstate := st, fpc := pc\<rparr>],
              sout := sout s @ (if pc = Done then [desired_permits ?f] else [])\<rparr>"
    by (auto simp: Let_def split: if_splits option.splits)
  let ?f' = "?f\<lparr>fstate := st, fpc := pc\<rparr>"
  have ok_i: "take_ok ?f" using ok i by (simp add: list_all_length)
  then have ok_pc: "case fpc ?f of TakeAll _ p \<Rightarrow> sem_needed (desired_permits ?f) (fstate ?f) \<le> p | _ \<Rightarrow> True"
    by (simp add: take_ok_def)
  have not_done: "fpc ?f \<noteq> Done" "fpc ?f \<noteq> Gone" using m by auto
  then have kept_f: "kept ?f = unat (hungry_count (fstate ?f))" by (simp add: kept_def)
  with kept_le [OF i] bound have small:
    "unat (permits (sem s)) + unat (hungry_count (fstate ?f)) < 2 ^ 64"
    by (simp add: account_def)
  note local = sem_fut_step_account [OF m ok_pc small]
  have sums: "sum_list (map kept (sfuts t)) + kept ?f = sum_list (map kept (sfuts s)) + kept ?f'"
    using kept_update [OF i, of ?f'] by (simp add: t)
  have kept_f': "kept ?f' = (if pc = Done then 0 else unat (hungry_count st))"
    using local(5) by (simp add: kept_def)
  have sem_t: "sem t = m" by (simp add: t)
  have out: "outstanding t = outstanding s + (if pc = Done then unat (desired_permits ?f) else 0)"
    by (simp add: t outstanding_def)
  show "account t \<le> account s"
    using local(1,2) sums kept_f kept_f' out sem_t
    by (cases "pc = Done") (simp_all add: account_def)
  show "account t = account s" if "counts_fit s"
  proof -
    from that i have "hungry_count (fstate ?f) \<le> desired_permits ?f"
      by (simp add: counts_fit_def list_all_length)
    with local(1,3) sums kept_f kept_f' out sem_t show ?thesis
      by (cases "pc = Done") (simp_all add: account_def)
  qed
  have "take_ok ?f'" using local(4) by (cases pc) (simp_all add: take_ok_def)
  from list_all_update [OF ok this, of i] show "list_all take_ok (sfuts t)" by (simp add: t)
qed

lemma account_SDropFuture:
  assumes ok: "list_all take_ok (sfuts s)" and bound: "account s < 2 ^ 64"
    and step: "sem_act_sound (SDropFuture i) s = Some t"
  shows "account t = account s" "list_all take_ok (sfuts t)"
proof -
  let ?f = "sfuts s ! i"
  let ?s' = "s\<lparr>sfuts := (sfuts s)[i := ?f\<lparr>fpc := Gone\<rparr>]\<rparr>"
  from step have i: "i < length (sfuts s)" and
    t: "t = (case future_drop (fstate ?f) of None \<Rightarrow> ?s' | Some c \<Rightarrow> release c ?s')"
    by (auto simp: Let_def sem_act_sound_def split: if_splits option.splits)
  have sums: "sum_list (map kept (sfuts ?s')) + kept ?f = sum_list (map kept (sfuts s))"
    using kept_update [OF i, of "?f\<lparr>fpc := Gone\<rparr>"] by (simp add: kept_def)
  then have acc: "account ?s' + kept ?f = account s"
    by (simp add: account_def outstanding_def)
  show "account t = account s"
  proof (cases "future_drop (fstate ?f)")
    case None
    then have "kept ?f = 0"
      by (cases "fstate ?f") (auto simp: kept_def word_greater_zero_iff split: if_splits)
    with None acc show ?thesis by (simp add: t)
  next
    case (Some c)
    then have c: "hungry_count (fstate ?f) = c"
      by (cases "fstate ?f") (auto split: if_splits)
    from step Some i have "fpc ?f \<noteq> Done" "fpc ?f \<noteq> Gone"
      by (auto simp: sem_act_sound_def double_release_def split: if_splits)
    with c have "kept ?f = unat c" by (simp add: kept_def)
    moreover have "unat (permits (sem ?s')) + unat c < 2 ^ 64"
      using calculation kept_le [OF i] bound by (simp add: account_def)
    ultimately show ?thesis
      using acc account_release [of ?s' c] Some by (simp add: t)
  qed
  show "list_all take_ok (sfuts t)"
    using ok by (auto simp: t release_def take_ok_def list_all_update split: option.splits)
qed

lemma account_SDropPermit:
  assumes ok: "list_all take_ok (sfuts s)" and bound: "account s < 2 ^ 64"
    and step: "sem_act (SDropPermit w) s = Some t"
  shows "account t = account s" "list_all take_ok (sfuts t)"
proof -
  let ?s' = "s\<lparr>sout := remove1 w (sout s)\<rparr>"
  from step have w: "w \<in> set (sout s)" and t: "t = release w ?s'" by (auto split: if_splits)
  have "outstanding s = unat w + outstanding ?s'"
    using sum_list_map_remove1 [OF w, of unat] by (simp add: outstanding_def)
  then show "account t = account s"
    using bound account_release [of ?s' w] by (simp add: t account_def)
  show "list_all take_ok (sfuts t)" using ok by (simp add: t release_def)
qed

lemma account_step:
  assumes ok: "list_all take_ok (sfuts s)" and bound: "account s < 2 ^ 64"
    and step: "sem_act_sound a s = Some t"
  shows "account t \<le> account s \<and> list_all take_ok (sfuts t) \<and>
    (counts_fit s \<longrightarrow> account t = account s)"
proof (cases a)
  case (SBegin i)
  with step have i: "i < length (sfuts s)" and pc: "fpc (sfuts s ! i) \<in> {Fresh, Pending}" and
    t: "t = s\<lparr>sfuts := (sfuts s)[i := (sfuts s ! i)\<lparr>fpc := Load False\<rparr>], swoken := swoken s - {i}\<rparr>"
    by (auto simp: sem_act_sound_def smay_poll_def split: if_splits)
  have "kept ((sfuts s ! i)\<lparr>fpc := Load False\<rparr>) = kept (sfuts s ! i)"
    using pc by (auto simp: kept_def)
  with kept_update [OF i, of "(sfuts s ! i)\<lparr>fpc := Load False\<rparr>"] ok show ?thesis
    by (simp add: t account_def outstanding_def list_all_update take_ok_def)
next
  case (SStep i)
  with step have "sem_act (SStep i) s = Some t" by (simp add: sem_act_sound_def split: if_splits)
  from account_SStep [OF ok bound this] show ?thesis by simp
next
  case (SDropFuture i)
  with account_SDropFuture [OF ok bound] step show ?thesis by simp
next
  case (SDropPermit w)
  with step have "sem_act (SDropPermit w) s = Some t" by (simp add: sem_act_sound_def split: if_splits)
  from account_SDropPermit [OF ok bound this] show ?thesis by simp
qed (use ok step in \<open>auto simp: sem_act_sound_def account_def outstanding_def take_ok_def kept_def
      split: if_splits option.splits list.splits\<close>)

lemma sem_inv_init: "sem_inv n (sem_init n)"
  by (simp add: sem_inv_def sem_init_def semaphore_new_def account_def outstanding_def)

lemma sem_inv_step:
  assumes inv: "sem_inv n s" and step: "sem_act_sound a s = Some t"
  shows "sem_inv n t"
proof -
  from inv have ok: "list_all take_ok (sfuts s)" and acc: "account s \<le> unat n"
    by (auto simp: sem_inv_def)
  from account_step [OF ok unat_total_bound [OF acc] step] acc show ?thesis
    by (auto simp: sem_inv_def)
qed

interpretation semaphore: invariant_of sem_act_sound "sem_init n" "sem_inv n" for n
  by unfold_locales (fact sem_inv_init, fact sem_inv_step)

lemma sem_never_bounded: "reachable sem_act_sound (sem_init n) s \<Longrightarrow> outstanding s \<le> unat n"
  using semaphore.reachable_inv [of n s] by (simp add: sem_inv_def account_def)

text \<open>C8. The semaphore never hands out more than it has: in every state that any interleaving of
  polite and hungry tasks reaches (without the double release), the free permits and the
  weights of the live permits add up to at most the number it was made with.\<close>

theorem sem_never_oversubscribed:
  assumes "reachable sem_act_sound (sem_init n) s"
  shows "unat (permits (sem s)) + outstanding s \<le> unat n"
  using semaphore.reachable_inv [OF assms] by (simp add: sem_inv_def account_def)

definition sem_demo :: "sem_action list" where
  "sem_demo = [Acquire 1, AcquireHungry 3, SBegin 0, SStep 0, SStep 0, SBegin 1, SStep 1, SStep 1, SStep 1]"

lemma sem_demo_run:
  "\<exists>s. run sem_act_sound sem_demo (sem_init 3) = Some s \<and> sout s = [1] \<and>
     map fstate (sfuts s) = [Polite, Hungry 2] \<and> permits (sem s) = 0"
  by (simp add: sem_demo_def sem_act_sound_def double_release_def sem_init_def semaphore_new_def
      smay_poll_def sem_needed_def saturating_sub_def sem_tail_def Let_def)

theorem sem_never_oversubscribed_witness:
  "\<exists>s. reachable sem_act_sound (sem_init 3) s \<and> sout s = [1] \<and>
     unat (permits (sem s)) + outstanding s \<le> unat (3 :: usize)"
proof -
  obtain s where r: "reachable sem_act_sound (sem_init 3) s" and o: "sout s = [1]"
    using sem_demo_run by (blast intro: run_reachable)
  from sem_never_oversubscribed [OF r] r o show ?thesis by blast
qed

section \<open>Polite tasks\<close>

text \<open>The system in which every task uses the plain \<open>acquire\<close> functions.\<close>

definition sem_act_polite :: "sem_action \<Rightarrow> sem_sys \<Rightarrow> sem_sys option" where
  "sem_act_polite a s = (case a of AcquireHungry _ \<Rightarrow> None | _ \<Rightarrow> sem_act a s)"

lemma sem_fut_step_polite:
  "sem_fut_step w d s Polite pc = Some (s', st', pc') \<Longrightarrow> (\<And>q p. pc \<noteq> Drain q p) \<Longrightarrow>
     st' = Polite \<and> (\<forall>q p. pc' \<noteq> Drain q p)"
  by (cases pc) (auto simp: Let_def sem_tail_def split: if_splits)

definition polite_pcs :: "sem_sys \<Rightarrow> bool" where
  "polite_pcs s \<longleftrightarrow>
     list_all (\<lambda>f. fstate f = Polite \<and> (\<forall>q p. fpc f \<noteq> Drain q p)) (sfuts s)"

lemma polite_pcs_step:
  assumes "polite_pcs s" "sem_act_polite a s = Some t"
  shows "polite_pcs t"
proof (cases a)
  case (Acquire n)
  with assms show ?thesis by (auto simp: sem_act_polite_def polite_pcs_def)
next
  case (SStep i)
  let ?f = "sfuts s ! i"
  from SStep assms(2) obtain m st pc where i: "i < length (sfuts s)" and
    m: "sem_fut_step i (desired_permits ?f) (sem s) (fstate ?f) (fpc ?f) = Some (m, st, pc)" and
    t: "sfuts t = (sfuts s)[i := ?f\<lparr>fstate := st, fpc := pc\<rparr>]"
    by (auto simp: sem_act_polite_def Let_def split: if_splits option.splits)
  from assms(1) i have f: "fstate ?f = Polite" "\<And>q p. fpc ?f \<noteq> Drain q p"
    by (auto simp: polite_pcs_def list_all_length)
  from sem_fut_step_polite [OF m [unfolded f(1)] f(2)] assms(1) show ?thesis
    by (simp add: polite_pcs_def t list_all_update)
qed (use assms in \<open>auto simp: sem_act_polite_def polite_pcs_def release_def list_all_length
      nth_list_update Let_def smay_poll_def split: if_splits option.splits list.splits\<close>)

lemma polite_sound:
  assumes "polite_pcs s" "sem_act_polite a s = Some t"
  shows "sem_act_sound a s = Some t"
  using assms
  by (auto simp: polite_pcs_def sem_act_polite_def sem_act_sound_def double_release_def
      list_all_length split: sem_action.splits)

definition polite_state :: "usize \<Rightarrow> sem_sys \<Rightarrow> bool" where
  "polite_state n s \<longleftrightarrow> polite_pcs s \<and> account s = unat n \<and> list_all take_ok (sfuts s)"

lemma polite_state_step:
  assumes inv: "polite_state n s" and step: "sem_act_polite a s = Some t"
  shows "polite_state n t"
proof -
  from inv have p: "polite_pcs s" and acc: "account s = unat n" and ok: "list_all take_ok (sfuts s)"
    by (auto simp: polite_state_def)
  have "counts_fit s" using p by (auto simp: polite_pcs_def counts_fit_def list_all_length)
  moreover have "account s < 2 ^ 64" using acc unat_total_bound [of "account s" n] by simp
  ultimately show ?thesis
    using account_step [OF ok _ polite_sound [OF p step]] polite_pcs_step [OF p step] acc
    by (auto simp: polite_state_def)
qed

interpretation polite: invariant_of sem_act_polite "sem_init n" "polite_state n" for n
  by unfold_locales
    (simp add: polite_state_def polite_pcs_def sem_init_def semaphore_new_def account_def outstanding_def,
     fact polite_state_step)

lemma polite_kept: "polite_pcs s \<Longrightarrow> sum_list (map kept (sfuts s)) = 0"
  by (auto simp: polite_pcs_def kept_def list_all_iff)

text \<open>Permits are conserved: when every task uses the plain acquire functions, the free permits
  and the weights of the live permits always add up to exactly the number the semaphore was
  made with, however the tasks interleave, whatever futures and permits they drop.\<close>

theorem sem_permits_conserved:
  assumes "reachable sem_act_polite (sem_init n) s"
  shows "unat (permits (sem s)) + outstanding s = unat n"
proof -
  from polite.reachable_inv [OF assms] have "polite_pcs s" and acc: "account s = unat n"
    by (auto simp: polite_state_def)
  from polite_kept [OF this(1)] acc show ?thesis by (simp only: account_def add_0_right)
qed

theorem sem_permits_conserved_witness:
  "\<exists>s. reachable sem_act_polite (sem_init 3) s \<and> sout s = [2] \<and>
     unat (permits (sem s)) + outstanding s = unat (3 :: usize)"
proof -
  have "\<exists>s. run sem_act_polite [Acquire 2, SBegin 0, SStep 0, SStep 0] (sem_init 3) = Some s \<and> sout s = [2]"
    by (simp add: sem_act_polite_def sem_init_def semaphore_new_def smay_poll_def sem_needed_def
        saturating_sub_def Let_def)
  then obtain s where r: "reachable sem_act_polite (sem_init 3) s" and o: "sout s = [2]"
    by (blast intro: run_reachable)
  from sem_permits_conserved [OF r] r o show ?thesis by blast
qed

section \<open>One poll\<close>

lemma needed_after_drain:
  assumes "\<not> sem_needed d (Hungry c) \<le> p"
  shows "\<not> sem_needed d (Hungry (c + p)) \<le> 0"
proof -
  from assms have "unat p < unat d - unat c"
    by (simp add: sem_needed_def word_le_nat_alt unat_saturating_sub)
  moreover have "unat (c + p) = unat c + unat p"
    using calculation unsigned_less [of d, where ?'a = nat] by (intro unat_add_bounded) simp
  ultimately show ?thesis
    by (simp add: sem_needed_def word_le_nat_alt unat_saturating_sub)
qed

text \<open>One undisturbed poll always returns, after at most five rounds, and does what is asked:
  a future whose remaining need is free takes it and is ready; a polite one that must wait
  only stores its waker; a hungry one that must wait stores its waker and takes every free
  permit.\<close>

theorem sem_poll_undisturbed:
  "sem_poll 6 w d s st (Load False) =
     (if sem_needed d st \<le> permits s
      then Some (s\<lparr>permits := permits s - sem_needed d st\<rparr>, st, Done)
      else case st of
             Polite \<Rightarrow> Some (s\<lparr>wakers := wakers s @ [w]\<rparr>, Polite, Pending)
           | Hungry c \<Rightarrow>
               Some (s\<lparr>permits := 0, wakers := wakers s @ [w]\<rparr>, Hungry (c + permits s), Pending))"
proof (cases "sem_needed d st \<le> permits s")
  case True
  then show ?thesis by (simp add: eval_nat_numeral Let_def)
next
  case False
  show ?thesis
  proof (cases st)
    case Polite
    with False show ?thesis by (simp add: eval_nat_numeral Let_def sem_tail_def)
  next
    case (Hungry c)
    show ?thesis
    proof (cases "permits s = 0")
      case True
      with False Hungry show ?thesis by (simp add: eval_nat_numeral Let_def sem_tail_def)
    next
      case nz: False
      with False Hungry needed_after_drain [of d c "permits s"] show ?thesis
        by (simp add: eval_nat_numeral Let_def sem_tail_def word_greater_zero_iff)
    qed
  qed
qed

end
