(* ===== verification/Rw_Lock.thy ===== *)
theory Rw_Lock
  imports Semaphore
begin

text \<open>
  The asynchronous readers-writer lock (\<open>src/sync/rw_lock.rs\<close>), a client of the semaphore:
  a reader takes one permit politely, a writer takes all of them hungrily. The locale
  \<open>permit_pool\<close> is what the lock needs of the semaphore; the semaphore without the double
  release provides it, and the semaphore as it is written does not.
\<close>

section \<open>The contract\<close>

locale permit_pool =
  fixes act :: "'a \<Rightarrow> 's \<Rightarrow> 's option"
    and init :: "usize \<Rightarrow> 's"
    and live :: "'s \<Rightarrow> usize list"
  assumes live_bounded: "reachable act (init n) s \<Longrightarrow> sum_list (map unat (live s)) \<le> unat n"
begin

text \<open>Whoever holds a permit of the full weight is alone, when no permit weighs nothing.\<close>

lemma full_weight_alone:
  assumes "reachable act (init n) s" "n \<in> set (live s)" "0 \<notin> set (live s)"
  shows "live s = [n]"
proof -
  from live_bounded [OF assms(1)] sum_list_map_remove1 [OF assms(2), of unat]
  have zero: "sum_list (map unat (remove1 n (live s))) = 0" by simp
  have "remove1 n (live s) = []"
  proof (rule ccontr)
    assume "remove1 n (live s) \<noteq> []"
    then obtain x where x: "x \<in> set (remove1 n (live s))" by (meson list.set_sel(1))
    then have "x \<in> set (live s)" by (meson notin_set_remove1)
    with assms(3) have "x \<noteq> 0" by auto
    moreover have "unat x \<le> sum_list (map unat (remove1 n (live s)))"
      using x by (simp add: member_le_sum_list)
    ultimately show False using zero by (simp add: unat_eq_0)
  qed
  from arg_cong [OF this, of length] assms(2) have "length (live s) \<le> 1"
    by (simp add: length_remove1 split: if_splits)
  with assms(2) show ?thesis by (cases "live s") auto
qed

lemma live_count:
  assumes "reachable act (init n) s" "0 \<notin> set (live s)"
  shows "length (live s) \<le> unat n"
proof -
  have "length xs \<le> sum_list (map unat xs)" if "0 \<notin> set xs" for xs :: "usize list"
    using that
  proof (induction xs)
    case (Cons x xs)
    then have "0 < unat x" by (simp add: unat_gt_0)
    with Cons show ?case by simp
  qed simp
  from this [OF assms(2)] live_bounded [OF assms(1)] show ?thesis by simp
qed

end

interpretation sem_pool: permit_pool sem_act_sound sem_init sout
  by unfold_locales (use sem_never_bounded in \<open>simp add: outstanding_def\<close>)

section \<open>The lock\<close>

text \<open>\<open>RwLock::with_max_readers\<close> and \<open>RwLock::new\<close>, whose maximum is \<open>usize::MAX\<close>.\<close>

definition rwlock_with_max_readers :: "usize \<Rightarrow> sem_sys" where
  "rwlock_with_max_readers n = sem_init n"

definition rwlock_new :: sem_sys where
  "rwlock_new = rwlock_with_max_readers usize_max"

text \<open>\<open>read\<close> and \<open>write\<close> start an acquisition; everything else is a step of the semaphore's
  futures and permits. A read guard is a live permit of weight one, a write guard a live
  permit of the maximal weight.\<close>

datatype rw_action = Read | Write | Within sem_action

fun rw_sem_action :: "usize \<Rightarrow> rw_action \<Rightarrow> sem_action option" where
  "rw_sem_action n Read = Some (Acquire 1)"
| "rw_sem_action n Write = Some (AcquireHungry n)"
| "rw_sem_action n (Within (Acquire _)) = None"
| "rw_sem_action n (Within (AcquireHungry _)) = None"
| "rw_sem_action n (Within a) = Some a"

definition rw_act :: "usize \<Rightarrow> rw_action \<Rightarrow> sem_sys \<Rightarrow> sem_sys option" where
  "rw_act n a s = Option.bind (rw_sem_action n a) (\<lambda>b. sem_act b s)"

definition rw_act_sound :: "usize \<Rightarrow> rw_action \<Rightarrow> sem_sys \<Rightarrow> sem_sys option" where
  "rw_act_sound n a s = Option.bind (rw_sem_action n a) (\<lambda>b. sem_act_sound b s)"

lemma rw_reachable_sem:
  "reachable (rw_act_sound n) (rwlock_with_max_readers n) s \<Longrightarrow> reachable sem_act_sound (sem_init n) s"
proof (induction rule: reachable.induct)
  case reach_init
  show ?case by (simp add: rwlock_with_max_readers_def reachable.reach_init)
next
  case (reach_step s a t)
  then obtain b where "sem_act_sound b s = Some t"
    by (auto simp: rw_act_sound_def bind_eq_Some_conv)
  with reach_step.IH show ?case by (rule reachable.reach_step)
qed

text \<open>Every request and every live permit weighs one or the maximum.\<close>

definition rw_weights :: "usize \<Rightarrow> sem_sys \<Rightarrow> bool" where
  "rw_weights n s \<longleftrightarrow>
     list_all (\<lambda>f. desired_permits f = 1 \<or> desired_permits f = n) (sfuts s) \<and>
     set (sout s) \<subseteq> {1, n}"

lemma rw_weights_sem_step:
  assumes "rw_weights n s" "rw_sem_action n a = Some b" "sem_act b s = Some t"
  shows "rw_weights n t"
proof (cases b)
  case (SStep i)
  with assms obtain m st pc where i: "i < length (sfuts s)" and
    t: "t = s\<lparr>sem := m, sfuts := (sfuts s)[i := (sfuts s ! i)\<lparr>fstate := st, fpc := pc\<rparr>],
              sout := sout s @ (if pc = Done then [desired_permits (sfuts s ! i)] else [])\<rparr>"
    by (auto simp: Let_def split: if_splits option.splits)
  from assms(1) i have "desired_permits (sfuts s ! i) = 1 \<or> desired_permits (sfuts s ! i) = n"
    by (simp add: rw_weights_def list_all_length)
  with assms(1) show ?thesis by (auto simp: t rw_weights_def list_all_update)
next
  case (Acquire k)
  with assms show ?thesis
    by (cases "(n, a)" rule: rw_sem_action.cases) (auto simp: rw_weights_def)
next
  case (AcquireHungry k)
  with assms show ?thesis
    by (cases "(n, a)" rule: rw_sem_action.cases) (auto simp: rw_weights_def)
next
  case (SBegin i)
  with assms show ?thesis
    by (auto simp: rw_weights_def list_all_length nth_list_update smay_poll_def split: if_splits)
next
  case (SDropFuture i)
  with assms show ?thesis
    by (auto simp: rw_weights_def list_all_length nth_list_update release_def Let_def
        split: if_splits option.splits)
next
  case (SDropPermit w)
  with assms set_remove1_subset [of w "sout s"] show ?thesis
    by (auto simp: rw_weights_def release_def split: if_splits)
next
  case (SWake l)
  with assms show ?thesis by (auto simp: rw_weights_def split: if_splits option.splits list.splits)
qed

lemma rw_weights_init: "rw_weights n (rwlock_with_max_readers n)"
  by (simp add: rw_weights_def rwlock_with_max_readers_def sem_init_def)

lemma rw_weights_step:
  "rw_weights n s \<Longrightarrow> rw_act_sound n a s = Some t \<Longrightarrow> rw_weights n t"
  by (auto simp: rw_act_sound_def sem_act_sound_def bind_eq_Some_conv split: if_splits
      intro: rw_weights_sem_step)

interpretation rw: invariant_of "rw_act_sound n" "rwlock_with_max_readers n" "rw_weights n" for n
  by unfold_locales (fact rw_weights_init, fact rw_weights_step)

lemma rw_no_zero:
  assumes "reachable (rw_act_sound n) (rwlock_with_max_readers n) s" "n \<noteq> 0"
  shows "0 \<notin> set (sout s)"
  using rw.reachable_inv [OF assms(1)] assms(2) by (auto simp: rw_weights_def)

text \<open>C3. A writer excludes everyone: in every state that any interleaving of readers and writers
  reaches, as long as no task gives back permits twice, a live write guard is the only live
  guard of the lock.\<close>

theorem rwlock_writer_exclusive:
  assumes "reachable (rw_act_sound n) (rwlock_with_max_readers n) s" "n \<noteq> 0" "n \<in> set (sout s)"
  shows "sout s = [n]"
  using sem_pool.full_weight_alone [OF rw_reachable_sem [OF assms(1)] assms(3) rw_no_zero [OF assms(1,2)]] .

definition rw_write_alone :: "rw_action list" where
  "rw_write_alone = [Write, Within (SBegin 0), Within (SStep 0), Within (SStep 0), Within (SDropFuture 0)]"

theorem rwlock_writer_exclusive_witness:
  "\<exists>s. reachable (rw_act_sound 4) (rwlock_with_max_readers 4) s \<and> (4::usize) \<noteq> 0 \<and> 4 \<in> set (sout s) \<and>
     sout s = [4]"
proof -
  have "\<exists>s. run (rw_act_sound 4) rw_write_alone (rwlock_with_max_readers 4) = Some s \<and> 4 \<in> set (sout s)"
    by (simp add: rw_write_alone_def rw_act_sound_def sem_act_sound_def double_release_def
        rwlock_with_max_readers_def sem_init_def semaphore_new_def smay_poll_def sem_needed_def
        saturating_sub_def Let_def)
  then obtain s where r: "reachable (rw_act_sound 4) (rwlock_with_max_readers 4) s"
    and w: "4 \<in> set (sout s)" by (blast intro: run_reachable)
  from rwlock_writer_exclusive [OF r _ w] r w show ?thesis by auto
qed

text \<open>At most the chosen number of readers hold the lock at once.\<close>

theorem rwlock_readers_bounded:
  assumes "reachable (rw_act_sound n) (rwlock_with_max_readers n) s" "n \<noteq> 0"
  shows "length (sout s) \<le> unat n"
  using sem_pool.live_count [OF rw_reachable_sem [OF assms(1)] rw_no_zero [OF assms]] .

theorem rwlock_readers_bounded_witness:
  "\<exists>s. reachable (rw_act_sound 4) (rwlock_with_max_readers 4) s \<and> (4::usize) \<noteq> 0 \<and>
     length (sout s) \<le> unat (4 :: usize)"
  using rwlock_readers_bounded [OF reachable.reach_init, of 4] reachable.reach_init [of "rw_act_sound 4"]
  by auto

text \<open>C2. As it is written, the lock does not exclude. A writer that had to wait has collected
  permits in its future; the future is dropped when \<open>write\<close> returns and gives them back
  although the guard holds them all, so with the default lock a reader enters beside the
  live write guard.\<close>

theorem rwlock_writer_not_exclusive:
  "\<exists>s. reachable (rw_act usize_max) rwlock_new s \<and> sout s = [usize_max, 1]"
proof -
  let ?as = "[Read, Within (SBegin 0), Within (SStep 0), Within (SStep 0), Within (SDropFuture 0),
    Write, Within (SBegin 1), Within (SStep 1), Within (SStep 1), Within (SStep 1), Within (SStep 1),
    Within (SDropPermit 1), Within (SWake 0),
    Within (SBegin 1), Within (SStep 1), Within (SStep 1), Within (SDropFuture 1),
    Read, Within (SBegin 2), Within (SStep 2), Within (SStep 2)]"
  have "\<exists>s. run (rw_act usize_max) ?as rwlock_new = Some s \<and> sout s = [usize_max, 1]"
    by (simp add: rw_act_def rwlock_new_def rwlock_with_max_readers_def sem_init_def semaphore_new_def
        smay_poll_def sem_needed_def saturating_sub_def sem_tail_def Let_def release_def add_permits_def)
  then show ?thesis by (blast intro: run_reachable)
qed

end
