(* ===== verification/Rust_Str.thy ===== *)
theory Rust_Str
  imports Prelude "HOL-Library.Sublist"
begin

text \<open>
  The operations of Rust's \<open>str\<close> and \<open>String\<close> that the address code uses, on ASCII
  strings: splitting and joining, trimming, searching, and the parsing and formatting of
  unsigned numbers.
\<close>

section \<open>Splitting and joining\<close>

fun split_on :: "char \<Rightarrow> string \<Rightarrow> string list" where
  "split_on c [] = [[]]"
| "split_on c (x # xs) =
     (if x = c then [] # split_on c xs
      else (case split_on c xs of [] \<Rightarrow> [[x]] | p # ps \<Rightarrow> (x # p) # ps))"

fun join :: "string \<Rightarrow> string list \<Rightarrow> string" where
  "join sep [] = []"
| "join sep [p] = p"
| "join sep (p # q # ps) = p @ sep @ join sep (q # ps)"

lemma split_on_not_Nil [simp]: "split_on c s \<noteq> []"
  by (induction s) (auto split: list.splits)

lemma split_on_no_sep: "c \<notin> set s \<Longrightarrow> split_on c s = [s]"
  by (induction s) auto

lemma split_on_append: "c \<notin> set p \<Longrightarrow> split_on c (p @ c # s) = p # split_on c s"
  by (induction p) auto

lemma split_on_join:
  "ps \<noteq> [] \<Longrightarrow> (\<And>p. p \<in> set ps \<Longrightarrow> c \<notin> set p) \<Longrightarrow> split_on c (join [c] ps) = ps"
proof (induction ps rule: induct_list012)
  case (3 p q ps)
  then show ?case by (simp add: split_on_append)
qed (auto simp: split_on_no_sep)

lemma set_join: "set (join sep ps) \<subseteq> (\<Union>p \<in> set ps. set p) \<union> set sep"
proof (induction ps rule: induct_list012)
  case (3 p q ps)
  then show ?case by auto
qed auto

section \<open>Trimming and searching\<close>

definition is_ws :: "char \<Rightarrow> bool" where
  "is_ws c \<longleftrightarrow> of_char c \<in> {9, 10, 11, 12, 13, 32 :: nat}"

definition trim :: "string \<Rightarrow> string" where
  "trim s = rev (dropWhile is_ws (rev (dropWhile is_ws s)))"

lemma trim_no_ws: "(\<And>c. c \<in> set s \<Longrightarrow> \<not> is_ws c) \<Longrightarrow> trim s = s"
proof -
  assume a: "\<And>c. c \<in> set s \<Longrightarrow> \<not> is_ws c"
  then have "dropWhile is_ws s = s" by (cases s) auto
  moreover from a have "dropWhile is_ws (rev s) = rev s" by (cases s rule: rev_cases) auto
  ultimately show ?thesis by (simp add: trim_def)
qed

definition starts_with :: "string \<Rightarrow> string \<Rightarrow> bool" where
  "starts_with p s \<longleftrightarrow> take (length p) s = p"

definition ends_with :: "string \<Rightarrow> string \<Rightarrow> bool" where
  "ends_with p s \<longleftrightarrow> starts_with (rev p) (rev s)"

fun contains :: "string \<Rightarrow> string \<Rightarrow> bool" where
  "contains p [] = (p = [])"
| "contains p (x # xs) = (starts_with p (x # xs) \<or> contains p xs)"

fun split_once :: "string \<Rightarrow> string \<Rightarrow> (string \<times> string) option" where
  "split_once p [] = (if p = [] then Some ([], []) else None)"
| "split_once p (x # xs) =
     (if starts_with p (x # xs) then Some ([], drop (length p) (x # xs))
      else map_option (\<lambda>(a, b). (x # a, b)) (split_once p xs))"

lemma starts_with_append [simp]: "starts_with p (p @ s)"
  by (simp add: starts_with_def)

lemma contains_char: "contains [c] s \<longleftrightarrow> c \<in> set s"
  by (induction s) (auto simp: starts_with_def)

section \<open>Numbers\<close>

definition digit_val :: "nat \<Rightarrow> char \<Rightarrow> nat option" where
  "digit_val base c =
     (let n = of_char c :: nat;
          v = (if 48 \<le> n \<and> n \<le> 57 then Some (n - 48)
               else if 97 \<le> n \<and> n \<le> 122 then Some (n - 87)
               else if 65 \<le> n \<and> n \<le> 90 then Some (n - 55)
               else None)
      in (case v of None \<Rightarrow> None | Some d \<Rightarrow> if d < base then Some d else None))"

fun parse_digits :: "nat \<Rightarrow> nat \<Rightarrow> string \<Rightarrow> nat option" where
  "parse_digits base acc [] = Some acc"
| "parse_digits base acc (c # cs) =
     (case digit_val base c of None \<Rightarrow> None | Some d \<Rightarrow> parse_digits base (acc * base + d) cs)"

text \<open>\<open>from_str_radix\<close> of an unsigned type with the given number of values: an optional plus
  sign, at least one digit, and no overflow.\<close>

definition parse_uint :: "nat \<Rightarrow> nat \<Rightarrow> string \<Rightarrow> nat option" where
  "parse_uint base bound s =
     (let ds = (case s of [] \<Rightarrow> [] | c # cs \<Rightarrow> if c = CHR ''+'' then cs else s)
      in if ds = [] then None
         else (case parse_digits base 0 ds of
                 None \<Rightarrow> None
               | Some n \<Rightarrow> if n < bound then Some n else None))"

definition digit_char :: "nat \<Rightarrow> char" where
  "digit_char d = char_of (if d < 10 then d + 48 else d + 87)"

fun to_digits :: "nat \<Rightarrow> nat \<Rightarrow> string" where
  "to_digits base n =
     (if base < 2 \<or> n < base then [digit_char n] else to_digits base (n div base) @ [digit_char (n mod base)])"

declare to_digits.simps [simp del]

text \<open>\<open>{}\<close> of an unsigned number, and \<open>{:04x}\<close> of a 16-bit one.\<close>

definition show_dec :: "nat \<Rightarrow> string" where
  "show_dec n = to_digits 10 n"

definition show_hex4 :: "u16 \<Rightarrow> string" where
  "show_hex4 w = (let n = unat w in
     [digit_char (n div 4096), digit_char (n div 256 mod 16), digit_char (n div 16 mod 16),
      digit_char (n mod 16)])"

lemma digit_val_digit_char:
  assumes "d < base" "base \<le> 16"
  shows "digit_val base (digit_char d) = Some d"
proof -
  have "(of_char (digit_char d) :: nat) = (if d < 10 then d + 48 else d + 87)"
    using assms by (simp add: digit_char_def)
  then show ?thesis using assms by (auto simp: digit_val_def Let_def)
qed

lemma of_char_digit_char: "d < 16 \<Longrightarrow> (of_char (digit_char d) :: nat) = (if d < 10 then d + 48 else d + 87)"
  by (simp add: digit_char_def)

lemma digit_char_eq_iff:
  "d < 16 \<Longrightarrow> digit_char d = c \<longleftrightarrow> (if d < 10 then d + 48 else d + 87) = (of_char c :: nat)"
  by (metis char_of_char of_char_digit_char)

lemma digit_char_not_ws: "d < 16 \<Longrightarrow> \<not> is_ws (digit_char d)"
  by (auto simp: is_ws_def of_char_digit_char)

lemma digit_char_not [simp]:
  assumes "d < 16"
  shows "digit_char d \<noteq> CHR '':''" "digit_char d \<noteq> CHR ''.''" "digit_char d \<noteq> CHR ''+''"
    "digit_char d \<noteq> CHR ''[''"
  using assms by (auto simp: digit_char_eq_iff)

lemmas digit_char_not_sym [simp] = digit_char_not [symmetric]

lemma digit_char_zero_iff: "d < 16 \<Longrightarrow> digit_char d = CHR ''0'' \<longleftrightarrow> d = 0"
  by (auto simp: digit_char_eq_iff)

lemma parse_digits_append:
  "parse_digits base acc (xs @ ys) =
     (case parse_digits base acc xs of None \<Rightarrow> None | Some n \<Rightarrow> parse_digits base n ys)"
  by (induction xs arbitrary: acc) (auto split: option.splits)

lemma to_digits_props:
  assumes "2 \<le> base" "base \<le> 16"
  shows "to_digits base n \<noteq> [] \<and> set (to_digits base n) \<subseteq> digit_char ` {..<base}
    \<and> parse_digits base 0 (to_digits base n) = Some n"
  using assms
proof (induction base n rule: to_digits.induct)
  case (1 base n)
  show ?case
  proof (cases "n < base")
    case True
    with 1 show ?thesis by (simp add: to_digits.simps [of base n] digit_val_digit_char)
  next
    case False
    with 1 have IH: "to_digits base (n div base) \<noteq> []"
      "set (to_digits base (n div base)) \<subseteq> digit_char ` {..<base}"
      "parse_digits base 0 (to_digits base (n div base)) = Some (n div base)" by auto
    have "n mod base < base" using 1 by simp
    with IH False 1 show ?thesis
      by (simp add: to_digits.simps [of base n] parse_digits_append digit_val_digit_char)
  qed
qed

lemma parse_uint_digits:
  assumes "s \<noteq> []" "set s \<subseteq> digit_char ` {..<16}"
  shows "parse_uint base bound s =
    (case parse_digits base 0 s of None \<Rightarrow> None | Some n \<Rightarrow> if n < bound then Some n else None)"
proof (cases s)
  case (Cons c cs)
  with assms(2) obtain d where "d < 16" "c = digit_char d" by auto
  then have "c \<noteq> CHR ''+''" by simp
  with Cons show ?thesis by (simp add: parse_uint_def)
qed (use assms in simp)

lemma show_dec_chars: "set (show_dec n) \<subseteq> digit_char ` {..<16}"
proof -
  have "set (show_dec n) \<subseteq> digit_char ` {..<10}"
    using to_digits_props [of 10 n] by (simp add: show_dec_def)
  also have "\<dots> \<subseteq> digit_char ` {..<16}" by auto
  finally show ?thesis .
qed

lemma parse_show_dec: "n < bound \<Longrightarrow> parse_uint 10 bound (show_dec n) = Some n"
  using to_digits_props [of 10 n] parse_uint_digits [OF _ show_dec_chars, of n 10 bound]
  by (simp add: show_dec_def)

lemma digits_no_char:
  assumes "set s \<subseteq> digit_char ` {..<16}"
  shows "CHR '':'' \<notin> set s" "CHR ''.'' \<notin> set s" "trim s = s"
  using assms digit_char_not_ws by (fastforce intro!: trim_no_ws)+

end
