(* ===== verification/Address.thy ===== *)
theory Address
  imports Rust_Str Os_Error
begin

text \<open>
  Network addresses (\<open>src/net/address.rs\<close>): IPv4 and IPv6 addresses with their textual forms,
  the compression and expansion of IPv6 strings, the resolution order of \<open>TryFrom<&str>\<close>, and
  socket addresses with their \<open>sockaddr_storage\<close> layout. Strings are ASCII. The resolver
  \<open>getaddrinfo\<close> is an argument.
\<close>

section \<open>Errors and data\<close>

datatype ipv4_parse_error = InvalidV4Format string | InvalidV4Value string

datatype ipv6_compress_error =
    InvalidUncompressedV6Format string
  | InvalidUncompressedV6Value string

datatype ipv6_uncompress_error =
    InvalidCompressedV6Format string
  | InvalidCompressedV6Value string

datatype v4_mapped_v6_error =
    InvalidMappedV6Format string
  | V4ParseError ipv4_parse_error

datatype hostname_error =
    InvalidCString string
  | ResolutionFailure string string i32

datatype ip_parse_error =
    NoAddressFound string
  | IpV4ParseError ipv4_parse_error
  | IpV6UncompressError ipv6_uncompress_error
  | V4MappedV6Error v4_mapped_v6_error
  | HostnameResolutionError hostname_error

datatype ip_version = IPv4 | IPv6

text \<open>\<open>IpAddress\<close>; the lists are the arrays of 4 and 16 big-endian bytes.\<close>

datatype ip_address = V4 "u8 list" | V6 "u8 list"

fun ip_wf :: "ip_address \<Rightarrow> bool" where
  "ip_wf (V4 b) = (length b = 4)"
| "ip_wf (V6 b) = (length b = 16)"

fun version :: "ip_address \<Rightarrow> ip_version" where
  "version (V4 _) = IPv4"
| "version (V6 _) = IPv6"

definition any_v4 :: ip_address where "any_v4 = V4 [0, 0, 0, 0]"
definition any_v6 :: ip_address where "any_v6 = V6 (replicate 16 0)"
definition localhost_v4 :: ip_address where "localhost_v4 = V4 [127, 0, 0, 1]"
definition localhost_v6 :: ip_address where "localhost_v6 = V6 (replicate 15 0 @ [1])"
definition broadcast_v4 :: ip_address where "broadcast_v4 = V4 [255, 255, 255, 255]"
definition multicast_v4 :: ip_address where "multicast_v4 = V4 [224, 0, 0, 1]"

definition interface_local_v6 :: ip_address where
  "interface_local_v6 = V6 (((replicate 16 0)[0 := 0xff])[1 := 0x01, 15 := 0x01])"

definition link_local_v6 :: ip_address where
  "link_local_v6 = V6 (((replicate 16 0)[0 := 0xff])[1 := 0x02, 15 := 0x01])"

fun is_v4_mapped_v6 :: "ip_address \<Rightarrow> bool" where
  "is_v4_mapped_v6 (V4 _) = False"
| "is_v4_mapped_v6 (V6 a) = (list_all (\<lambda>b. b = 0) (take 10 a) \<and> a ! 10 = 0xff \<and> a ! 11 = 0xff)"

text \<open>The array that \<open>to_be_bytes\<close> and \<open>parse_mapped_v6\<close> build around four bytes.\<close>

definition mapped_bytes :: "u8 list \<Rightarrow> u8 list" where
  "mapped_bytes b = replicate 10 0 @ [0xff, 0xff] @ b"

fun ip_to_be_bytes :: "ip_address \<Rightarrow> u8 list" where
  "ip_to_be_bytes (V4 a) = mapped_bytes a"
| "ip_to_be_bytes (V6 a) = a"

section \<open>Parsing\<close>

definition v4_bytes_from_str :: "string \<Rightarrow> ipv4_parse_error + u8 list" where
  "v4_bytes_from_str addr =
     (let parts = split_on (CHR ''.'') addr in
      if length parts \<noteq> 4 then Inl (InvalidV4Format addr)
      else map_result (\<lambda>p. map_ok of_nat (ok_or (InvalidV4Value addr) (parse_uint 10 256 p))) parts)"

definition v4_from_str :: "string \<Rightarrow> ipv4_parse_error + ip_address" where
  "v4_from_str addr = map_ok V4 (v4_bytes_from_str addr)"

definition is_compressed_v6 :: "string \<Rightarrow> bool" where
  "is_compressed_v6 addr \<longleftrightarrow> contains ''::'' addr \<and> count_list addr (CHR '':'') \<le> 7"

definition is_mapped_v6 :: "string \<Rightarrow> bool" where
  "is_mapped_v6 addr \<longleftrightarrow> starts_with ''::ffff:'' addr \<and> contains ''.'' addr"

definition is_uncompressed_v6 :: "string \<Rightarrow> bool" where
  "is_uncompressed_v6 addr \<longleftrightarrow> count_list addr (CHR '':'') = 7 \<and> \<not> contains ''::'' addr"

definition is_v6 :: "string \<Rightarrow> bool" where
  "is_v6 addr \<longleftrightarrow> is_compressed_v6 addr \<or> is_uncompressed_v6 addr \<or> is_mapped_v6 addr"

definition is_v4 :: "string \<Rightarrow> bool" where
  "is_v4 addr \<longleftrightarrow> count_list addr (CHR ''.'') = 3 \<and> \<not> contains '':'' addr"

definition parse_mapped_v6 :: "string \<Rightarrow> v4_mapped_v6_error + ip_address" where
  "parse_mapped_v6 addr =
     bind_result (ok_or (InvalidMappedV6Format addr) (split_once ''::ffff:'' addr)) (\<lambda>(_, v4).
     bind_result (map_err V4ParseError (v4_bytes_from_str v4)) (\<lambda>b.
     Inr (V6 (mapped_bytes b))))"

text \<open>The loop of \<open>uncompress_v6\<close>: pads every part to four digits and finds the one empty part.\<close>

fun uncompress_scan ::
  "string \<Rightarrow> nat \<Rightarrow> nat option \<Rightarrow> string list \<Rightarrow> ipv6_uncompress_error + string list \<times> nat option" where
  "uncompress_scan addr i dc [] = Inr ([], dc)"
| "uncompress_scan addr i dc (part # ps) =
     (if 4 < length part then Inl (InvalidCompressedV6Value addr)
      else if part = [] then
        (if dc = None
         then map_ok (\<lambda>(qs, d). ([] # qs, d)) (uncompress_scan addr (Suc i) (Some i) ps)
         else Inl (InvalidCompressedV6Value addr))
      else map_ok (\<lambda>(qs, d). ((replicate (4 - length part) (CHR ''0'') @ part) # qs, d))
             (uncompress_scan addr (Suc i) dc ps))"

definition insert_at :: "nat \<Rightarrow> 'a \<Rightarrow> 'a list \<Rightarrow> 'a list" where
  "insert_at k x xs = take k xs @ x # drop k xs"

lemma length_insert_at [simp]: "length (insert_at k x xs) = Suc (length xs)"
  by (simp add: insert_at_def)

function pad_groups :: "nat \<Rightarrow> string list \<Rightarrow> string list" where
  "pad_groups k parts =
     (if length parts < 8 then pad_groups k (insert_at k ''0000'' parts) else parts)"
  by pat_completeness auto
termination
  by (relation "measure (\<lambda>(k, parts). 8 - length parts)") auto

declare pad_groups.simps [simp del]

definition uncompress_v6 :: "string \<Rightarrow> ipv6_uncompress_error + string" where
  "uncompress_v6 addr =
     (let parts = map trim (split_on (CHR '':'') addr) in
      if 9 < length parts \<or> length parts < 3 then Inl (InvalidCompressedV6Format addr)
      else
        let parts = (if hd parts = [] then tl parts else parts);
            parts = (if parts \<noteq> [] \<and> last parts = [] then butlast parts else parts)
        in bind_result (uncompress_scan addr 0 None parts) (\<lambda>(parts, dc).
           case dc of
             None \<Rightarrow>
               if length parts \<noteq> 8 then Inl (InvalidCompressedV6Format addr)
               else Inr (join '':'' parts)
           | Some k \<Rightarrow> Inr (join '':'' (pad_groups k (parts[k := ''0000''])))))"

definition uncompressed_v6_as_bytes :: "string \<Rightarrow> ipv6_uncompress_error + u8 list" where
  "uncompressed_v6_as_bytes addr =
     (let parts = split_on (CHR '':'') addr in
      if length parts \<noteq> 8 then Inl (InvalidCompressedV6Format addr)
      else map_ok concat (map_result (\<lambda>p.
             map_ok (\<lambda>n. be_bytes 2 (of_nat n :: u16))
               (ok_or (InvalidCompressedV6Value addr) (parse_uint 16 65536 p))) parts))"

text \<open>\<open>IpAddress::v6\<close>.\<close>

function v6_from_str :: "string \<Rightarrow> ip_parse_error + ip_address" where
  "v6_from_str addr =
     (if starts_with ''['' addr \<and> ends_with '']'' addr
      then v6_from_str (take (length addr - 2) (drop 1 addr))
      else if is_mapped_v6 addr then map_err V4MappedV6Error (parse_mapped_v6 addr)
      else
        bind_result
          (if is_compressed_v6 addr then map_err IpV6UncompressError (uncompress_v6 addr) else Inr addr)
          (\<lambda>u. map_ok V6 (map_err IpV6UncompressError (uncompressed_v6_as_bytes u))))"
  by pat_completeness auto
termination
proof (relation "measure length")
  fix addr :: string
  assume "starts_with ''['' addr \<and> ends_with '']'' addr"
  then have "addr \<noteq> []" by (auto simp: starts_with_def)
  then have "0 < length addr" by simp
  then show "(take (length addr - 2) (drop 1 addr), addr) \<in> measure length" by auto
qed simp

declare v6_from_str.simps [simp del]

section \<open>Printing\<close>

definition bytes_as_uncompressed_v6 :: "u8 list \<Rightarrow> string" where
  "bytes_as_uncompressed_v6 b =
     join '':'' (map (\<lambda>i. show_hex4 (of_be_bytes [b ! (i * 2), b ! (i * 2 + 1)])) [0..<8])"

text \<open>The loop that strips leading zeros but keeps one digit.\<close>

fun strip_zeros :: "string \<Rightarrow> string" where
  "strip_zeros (c # d # cs) = (if c = CHR ''0'' then strip_zeros (d # cs) else c # d # cs)"
| "strip_zeros s = s"

text \<open>The scan for the longest run of zero groups; the arguments are the locals
  \<open>double_colon_index\<close>, \<open>zero_count\<close>, \<open>most_zeroes\<close> and \<open>i\<close>.\<close>

fun zero_scan :: "string \<Rightarrow> int \<Rightarrow> int \<Rightarrow> int \<Rightarrow> int \<Rightarrow> string list \<Rightarrow> ipv6_compress_error + int \<times> int" where
  "zero_scan addr dci zc most i [] = Inr (dci, most)"
| "zero_scan addr dci zc most i (part # ps) =
     (if part = [] then Inl (InvalidUncompressedV6Value addr)
      else if length part = 1 \<and> starts_with ''0'' part then
        (if zc + 1 > most then zero_scan addr (i + 1 - (zc + 1)) (zc + 1) (zc + 1) (i + 1) ps
         else zero_scan addr dci (zc + 1) most (i + 1) ps)
      else zero_scan addr dci 0 most (i + 1) ps)"

fun remove_times :: "nat \<Rightarrow> nat \<Rightarrow> 'a list \<Rightarrow> 'a list" where
  "remove_times 0 k xs = xs"
| "remove_times (Suc n) k xs = remove_times n k (take k xs @ drop (Suc k) xs)"

definition compress_v6 :: "string \<Rightarrow> ipv6_compress_error + string" where
  "compress_v6 addr =
     (let parts = map trim (split_on (CHR '':'') addr) in
      if length parts \<noteq> 8 then Inl (InvalidUncompressedV6Format addr)
      else if list_ex (\<lambda>p. p = [] \<or> 4 < length p) parts then Inl (InvalidUncompressedV6Value addr)
      else
        let parts = map strip_zeros parts in
        bind_result (zero_scan addr (- 1) 0 0 0 parts) (\<lambda>(dci, most).
        let parts = (if dci > - 1 \<and> most > 1
                     then (remove_times (nat (most - 1)) (nat dci) parts)[nat dci := []]
                     else parts)
        in if length parts = 1 \<and> parts ! 0 = [] then Inr ''::''
           else Inr (join '':''
             (if dci = 0 then [] # parts
              else if dci = int (length parts) - 1 then parts @ [[]]
              else parts))))"

text \<open>\<open>Display\<close> of an address.\<close>

definition show_v4 :: "u8 list \<Rightarrow> string" where
  "show_v4 b = join ''.'' (map (\<lambda>i. show_dec (unat (b ! i))) [0..<4])"

fun show_ip :: "ip_address \<Rightarrow> string" where
  "show_ip (V4 a) = show_v4 a"
| "show_ip (V6 a) =
     (if is_v4_mapped_v6 (V6 a) then ''::ffff:'' @ show_v4 (drop 12 a)
      else let u = bytes_as_uncompressed_v6 a in
           (case compress_v6 u of Inr c \<Rightarrow> c | Inl _ \<Rightarrow> u))"

section \<open>Resolution\<close>

text \<open>What the loop over the \<open>addrinfo\<close> list reads of an entry.\<close>

record addrinfo =
  ai_family :: i32
  ai_s_addr :: u32          \<comment> \<open>\<open>sin_addr.s_addr\<close>, in network byte order\<close>
  ai_s6_addr :: "u8 list"   \<comment> \<open>\<open>sin6_addr.s6_addr\<close>\<close>

fun collect_addrinfo :: "addrinfo list \<Rightarrow> ip_address list" where
  "collect_addrinfo [] = []"
| "collect_addrinfo (a # as) =
     (if ai_family a = ucast AF_INET then [V4 (be_bytes 4 (swap_bytes 4 (ai_s_addr a)))]
      else if ai_family a = ucast AF_INET6 then [V6 (ai_s6_addr a)]
      else []) @ collect_addrinfo as"

text \<open>What a caller may prefer, and the hints it becomes; an unset field of the hints is zero.\<close>

datatype socket_type = StreamSocket | DatagramSocket

record resolve_preferences =
  pref_version :: "ip_version option"
  pref_socket_type :: "socket_type option"

definition preferences_default :: resolve_preferences where
  "preferences_default = \<lparr>pref_version = None, pref_socket_type = None\<rparr>"

record addrinfo_hints =
  hint_family :: i32
  hint_socktype :: i32

definition hints_of :: "resolve_preferences \<Rightarrow> addrinfo_hints" where
  "hints_of p =
     \<lparr>hint_family = (case pref_version p of Some IPv4 \<Rightarrow> ucast AF_INET | Some IPv6 \<Rightarrow> ucast AF_INET6 | None \<Rightarrow> 0),
      hint_socktype = (case pref_socket_type p of Some StreamSocket \<Rightarrow> 1 | Some DatagramSocket \<Rightarrow> 2 | None \<Rightarrow> 0)\<rparr>"

text \<open>\<open>resolve_hostname\<close>; \<open>gai\<close> is \<open>getaddrinfo\<close> under hints: an error code with its message, or the list.\<close>

type_synonym getaddrinfo = "addrinfo_hints \<Rightarrow> string \<Rightarrow> (i32 \<times> string) + addrinfo list"

definition resolve_hostname ::
  "getaddrinfo \<Rightarrow> string \<Rightarrow> resolve_preferences \<Rightarrow> hostname_error + ip_address list" where
  "resolve_hostname gai hostname prefs =
     (if CHR 0x00 \<in> set hostname then Inl (InvalidCString hostname)
      else case gai (hints_of prefs) hostname of
             Inl (code, msg) \<Rightarrow> Inl (ResolutionFailure hostname msg code)
           | Inr as \<Rightarrow> Inr (collect_addrinfo as))"

definition ip_try_from :: "getaddrinfo \<Rightarrow> string \<Rightarrow> ip_parse_error + ip_address" where
  "ip_try_from gai ip =
     (let s = trim ip in
      if is_v4 s then map_err IpV4ParseError (v4_from_str s)
      else if is_v6 s then v6_from_str s
      else bind_result (map_err HostnameResolutionError (resolve_hostname gai s preferences_default)) (\<lambda>ips.
        case ips of [] \<Rightarrow> Inl (NoAddressFound s) | a # _ \<Rightarrow> Inr a))"

section \<open>Socket addresses\<close>

record socket_address =
  ip :: ip_address
  port :: u16

text \<open>A \<open>sockaddr_storage\<close> is its 128 bytes; \<open>sockaddr_in\<close> and \<open>sockaddr_in6\<close> are read from and
  written to its front with their C layout.\<close>

type_synonym sockaddr_storage = "u8 list"

definition read_u16 :: "nat \<Rightarrow> u8 list \<Rightarrow> u16" where
  "read_u16 off bs = of_le_bytes (take 2 (drop off bs))"

definition read_u32 :: "nat \<Rightarrow> u8 list \<Rightarrow> u32" where
  "read_u32 off bs = of_le_bytes (take 4 (drop off bs))"

definition ss_family :: "sockaddr_storage \<Rightarrow> u16" where
  "ss_family s = read_u16 0 s"

fun sockaddr_storage_of :: "socket_address \<Rightarrow> sockaddr_storage" where
  "sockaddr_storage_of a =
     (case ip a of
        V4 b \<Rightarrow>
          le_bytes 2 AF_INET @ le_bytes 2 (swap_bytes 2 (port a)) @
          le_bytes 4 (swap_bytes 4 (of_be_bytes b :: u32)) @ replicate 8 0 @ replicate 112 0
      | V6 b \<Rightarrow>
          le_bytes 2 AF_INET6 @ le_bytes 2 (swap_bytes 2 (port a)) @
          le_bytes 4 (0 :: u32) @ b @ le_bytes 4 (0 :: u32) @ replicate 100 0)"

definition socket_address_try_from :: "sockaddr_storage \<Rightarrow> u16 + socket_address" where
  "socket_address_try_from s =
     (let family = ss_family s in
      if family = AF_INET then
        Inr \<lparr>ip = V4 (be_bytes 4 (swap_bytes 4 (read_u32 4 s))), port = swap_bytes 2 (read_u16 2 s)\<rparr>
      else if family = AF_INET6 then
        Inr \<lparr>ip = V6 (take 16 (drop 8 s)), port = swap_bytes 2 (read_u16 2 s)\<rparr>
      else Inl family)"

datatype address_retrieval_error = RetrievalOsError os_error | InvalidSocketAddress u16

text \<open>\<open>TryFrom<&RawFd>\<close>; \<open>getsockname\<close> gives the error of the system call or the storage it fills.\<close>

definition socket_address_try_from_fd ::
  "(raw_fd \<Rightarrow> i32 + sockaddr_storage) \<Rightarrow> raw_fd \<Rightarrow> address_retrieval_error + socket_address" where
  "socket_address_try_from_fd getsockname fd =
     bind_result (map_err (\<lambda>e. RetrievalOsError (os_error_of_i32 e)) (getsockname fd)) (\<lambda>addr.
     map_err InvalidSocketAddress (socket_address_try_from addr))"

definition peer_address_try_from_fd ::
  "(raw_fd \<Rightarrow> i32 + sockaddr_storage) \<Rightarrow> raw_fd \<Rightarrow> address_retrieval_error + socket_address" where
  "peer_address_try_from_fd getsockname fd = socket_address_try_from_fd getsockname fd"

definition local_address_try_from_fd ::
  "(raw_fd \<Rightarrow> i32 + sockaddr_storage) \<Rightarrow> raw_fd \<Rightarrow> address_retrieval_error + socket_address" where
  "local_address_try_from_fd getsockname fd = socket_address_try_from_fd getsockname fd"

definition show_socket_address :: "socket_address \<Rightarrow> string" where
  "show_socket_address a = show_ip (ip a) @ '':'' @ show_dec (unat (port a))"

end
