(* ===== verification/Address_Lemmas.thy ===== *)
theory Address_Lemmas
  imports Address
begin

text \<open>
  What the address properties rest on: facts on joined strings, the hexadecimal groups that
  the printer writes and the parser reads, the invariant of the scan for zero groups
  (\<open>zero_scan_inv\<close>), and closed forms of \<open>compress_v6\<close> and \<open>uncompress_v6\<close>.
\<close>

section \<open>Facts on strings\<close>

lemma contains_append: "contains p (a @ p @ b)"
proof (induction a)
  case Nil
  have "starts_with p (p @ b)" by simp
  then show ?case by (cases "p @ b") (auto simp: starts_with_def)
qed auto

lemma contains_double_skip:
  "c \<notin> set p \<Longrightarrow> contains [c, c] (p @ c # s) \<longleftrightarrow> contains [c, c] (c # s)"
  by (induction p) (auto simp: starts_with_def)

lemma contains_double_Cons:
  "contains [c, c] (c # s) \<longleftrightarrow> starts_with [c] s \<or> contains [c, c] s"
  by (cases s) (auto simp: starts_with_def)

lemma contains_double_absent: "c \<notin> set p \<Longrightarrow> \<not> contains [c, c] p"
  by (induction p) (auto simp: starts_with_def)

lemma join_Cons: "ps \<noteq> [] \<Longrightarrow> join sep (p # ps) = p @ sep @ join sep ps"
  by (cases ps) auto

lemma no_double_join:
  "(\<And>p. p \<in> set ps \<Longrightarrow> p \<noteq> [] \<and> c \<notin> set p) \<Longrightarrow> \<not> contains [c, c] (join [c] ps)"
proof (induction ps rule: induct_list012)
  case (3 p q ps)
  have ne: "q \<noteq> []" "c \<notin> set q" using 3 by auto
  then obtain d ds where q: "q = d # ds" "d \<noteq> c" by (cases q) auto
  have "\<not> starts_with [c] (join [c] (q # ps))" using q by (cases ps) (auto simp: starts_with_def)
  then have "\<not> contains [c, c] (c # join [c] (q # ps))"
    using 3 by (subst contains_double_Cons) simp
  with 3 show ?case by (simp add: contains_double_skip)
qed (auto simp: contains_double_absent)

lemma count_list_join:
  "(\<And>p. p \<in> set ps \<Longrightarrow> c \<notin> set p) \<Longrightarrow> count_list (join [c] ps) c = length ps - 1"
proof (induction ps rule: induct_list012)
  case (3 p q ps)
  then show ?case by (simp add: count_notin)
qed (auto simp: count_notin)

section \<open>Hexadecimal groups\<close>

definition hex_group :: "u16 \<Rightarrow> string" where
  "hex_group w = strip_zeros (show_hex4 w)"

abbreviation digits :: "string \<Rightarrow> bool" where
  "digits s \<equiv> set s \<subseteq> digit_char ` {..<16}"

lemma show_hex4_props [simp]: "length (show_hex4 w) = 4" "digits (show_hex4 w)" "show_hex4 w \<noteq> []"
proof -
  have "unat w < 65536" using unsigned_less [of w, where ?'a = nat] by simp
  then show "digits (show_hex4 w)" by (auto simp: show_hex4_def Let_def)
qed (simp_all add: show_hex4_def Let_def)

lemma hex_digits_value:
  "((n div 4096 * 16 + n div 256 mod 16) * 16 + n div 16 mod 16) * 16 + n mod 16 = (n :: nat)"
proof -
  have *: "n div 256 = n div 16 div 16" "n div 4096 = n div 256 div 16"
    by (simp_all flip: div_mult2_eq)
  define p q r where "p = n div 16" and "q = n div 256" and "r = n div 4096"
  have "n = p * 16 + n mod 16" "p = q * 16 + p mod 16" "q = r * 16 + q mod 16"
    unfolding p_def q_def r_def * by (simp_all only: div_mult_mod_eq)
  moreover have "a = b * 16 + u \<Longrightarrow> b = c * 16 + v \<Longrightarrow> c = d * 16 + t \<Longrightarrow>
      ((d * 16 + t) * 16 + v) * 16 + u = a" for a b c d u v t :: nat by simp
  ultimately show ?thesis unfolding p_def [symmetric] q_def [symmetric] r_def [symmetric] by blast
qed

lemma parse_show_hex4: "parse_uint 16 65536 (show_hex4 w) = Some (unat w)"
proof -
  have n: "unat w < 65536" using unsigned_less [of w, where ?'a = nat] by simp
  then have "unat w div 4096 < 16" by simp
  then have "parse_digits 16 0 (show_hex4 w) = Some (unat w)"
    using hex_digits_value [of "unat w"] by (simp add: show_hex4_def Let_def digit_val_digit_char)
  with n show ?thesis
    by (simp add: parse_uint_digits)
qed

lemma show_hex4_zero_iff: "show_hex4 w = ''0000'' \<longleftrightarrow> w = 0"
proof
  assume "show_hex4 w = ''0000''"
  then have "parse_uint 16 65536 ''0000'' = Some (unat w)" using parse_show_hex4 [of w] by simp
  moreover have "parse_uint 16 65536 ''0000'' = Some 0" by (simp add: parse_uint_def digit_val_def)
  ultimately show "w = 0" by (simp add: unat_eq_zero)
qed (simp add: show_hex4_def Let_def digit_char_zero_iff)

lemma strip_zeros_props:
  "s \<noteq> [] \<Longrightarrow> strip_zeros s \<noteq> [] \<and> set (strip_zeros s) \<subseteq> set s
     \<and> replicate (length s - length (strip_zeros s)) (CHR ''0'') @ strip_zeros s = s
     \<and> length (strip_zeros s) \<le> length s
     \<and> (starts_with ''0'' (strip_zeros s) \<longrightarrow> length (strip_zeros s) = 1)"
proof (induction s rule: strip_zeros.induct)
  case (1 c d cs)
  show ?case
  proof (cases "c = CHR ''0''")
    case True
    with 1 show ?thesis by (auto simp: Suc_diff_le)
  next
    case False
    then show ?thesis by (auto simp: starts_with_def)
  qed
qed (auto simp: starts_with_def)

lemma hex_group_props:
  "hex_group w \<noteq> []" "digits (hex_group w)" "length (hex_group w) \<le> 4"
  "replicate (4 - length (hex_group w)) (CHR ''0'') @ hex_group w = show_hex4 w"
  using strip_zeros_props [of "show_hex4 w"] show_hex4_props [of w] unfolding hex_group_def
  by (simp_all, meson subset_trans)

lemma hex_group_zero_iff:
  "length (hex_group w) = 1 \<and> starts_with ''0'' (hex_group w) \<longleftrightarrow> w = 0"
proof
  assume "length (hex_group w) = 1 \<and> starts_with ''0'' (hex_group w)"
  then have "hex_group w = ''0''" by (cases "hex_group w") (auto simp: starts_with_def)
  then have "show_hex4 w = ''0000''" using hex_group_props(4) [of w] by (simp add: eval_nat_numeral)
  then show "w = 0" by (simp add: show_hex4_zero_iff)
next
  assume "w = 0"
  then have "hex_group w = ''0''" using show_hex4_zero_iff [of w] by (simp add: hex_group_def)
  then show "length (hex_group w) = 1 \<and> starts_with ''0'' (hex_group w)" by (simp add: starts_with_def)
qed

section \<open>The scan for zero groups\<close>

definition zero_run :: "u16 list \<Rightarrow> nat \<Rightarrow> nat \<Rightarrow> bool" where
  "zero_run gs a b \<longleftrightarrow> a \<le> b \<and> (\<forall>k. a \<le> k \<and> k < b \<longrightarrow> gs ! k = 0)"

definition scan_inv :: "u16 list \<Rightarrow> nat \<Rightarrow> int \<Rightarrow> nat \<Rightarrow> nat \<Rightarrow> nat \<Rightarrow> bool" where
  "scan_inv gs n dci d z m \<longleftrightarrow>
     z \<le> n \<and> zero_run gs (n - z) n \<and> (z < n \<longrightarrow> gs ! (n - Suc z) \<noteq> 0) \<and>
     dci = (if m = 0 then - 1 else int d) \<and> d + m \<le> n \<and> zero_run gs d (d + m) \<and>
     (\<forall>a b. b \<le> n \<and> zero_run gs a b \<longrightarrow> b - a \<le> m) \<and>
     (m = 1 \<longrightarrow> (\<forall>k < d. gs ! k \<noteq> 0))"

lemma scan_inv_nonzero:
  assumes "scan_inv gs n dci d z m" "gs ! n \<noteq> 0"
  shows "scan_inv gs (Suc n) dci d 0 m"
proof -
  have "b - a \<le> m" if ab: "b \<le> Suc n" "zero_run gs a b" for a b
  proof (cases "b = Suc n")
    case True
    with ab assms(2) have "\<not> a \<le> n" by (auto simp: zero_run_def)
    with True show ?thesis by simp
  next
    case False
    with ab assms(1) show ?thesis by (auto simp: scan_inv_def)
  qed
  with assms show ?thesis by (auto simp: scan_inv_def zero_run_def)
qed

lemma scan_inv_zero:
  assumes inv: "scan_inv gs n dci d z m" and 0: "gs ! n = 0"
  shows "scan_inv gs (Suc n) (if m < Suc z then int (n - z) else dci)
           (if m < Suc z then n - z else d) (Suc z) (max m (Suc z))"
proof -
  have z: "z \<le> n" "zero_run gs (n - z) n" "z < n \<Longrightarrow> gs ! (n - Suc z) \<noteq> 0"
    and dm: "d + m \<le> n" "zero_run gs d (d + m)" and dci: "dci = (if m = 0 then - 1 else int d)"
    and all: "\<And>a b. b \<le> n \<Longrightarrow> zero_run gs a b \<Longrightarrow> b - a \<le> m"
    and one: "m = 1 \<Longrightarrow> (\<forall>k < d. gs ! k \<noteq> 0)"
    using inv by (auto simp: scan_inv_def)
  have run: "zero_run gs (n - z) (Suc n)" using z(1,2) 0 by (auto simp: zero_run_def less_Suc_eq)
  have bound: "b - a \<le> max m (Suc z)" if ab: "b \<le> Suc n" "zero_run gs a b" for a b
  proof (cases "b = Suc n")
    case True
    have "a \<ge> n - z"
    proof (rule ccontr)
      assume "\<not> a \<ge> n - z"
      then have "z < n" "a \<le> n - Suc z" "n - Suc z < b" using True by auto
      with z(3) ab(2) show False by (auto simp: zero_run_def)
    qed
    with True show ?thesis by auto
  next
    case False
    with ab all [of b a] show ?thesis by auto
  qed
  have first: "gs ! k \<noteq> 0" if "m = 0" "k < n" for k
  proof
    assume "gs ! k = 0"
    then have "zero_run gs k (Suc k)" by (auto simp: zero_run_def le_less_Suc_eq)
    with all [of "Suc k" k] that show False by simp
  qed
  have zm: "z \<le> m" using all [of n "n - z"] z by auto
  show ?thesis
  proof (cases "m < Suc z")
    case True
    with zm have "m = z" by simp
    then show ?thesis
      using z run bound first by (auto simp: scan_inv_def max_def)
  next
    case False
    then show ?thesis
      using z run bound dm dci one by (auto simp: scan_inv_def max_def)
  qed
qed

lemma zero_scan_inv:
  assumes "scan_inv gs n dci d z m" "n + length rest = length gs" "drop n gs = rest"
  shows "\<exists>dci' d' z' m'. zero_scan addr dci (int z) (int m) (int n) (map hex_group rest)
           = Inr (dci', int m') \<and> scan_inv gs (length gs) dci' d' z' m'"
  using assms
proof (induction rest arbitrary: n dci d z m)
  case Nil
  then show ?case by fastforce
next
  case (Cons g rest)
  have g: "gs ! n = g" "drop (Suc n) gs = rest"
    using Cons.prems by (metis nth_via_drop, metis drop_Suc list.sel(3) tl_drop)
  have len: "Suc n + length rest = length gs" using Cons.prems by simp
  note hex = hex_group_zero_iff [of g] hex_group_props(1) [of g]
  show ?case
  proof (cases "g = 0")
    case False
    with Cons.prems(1) g have "scan_inv gs (Suc n) dci d 0 m" by (intro scan_inv_nonzero) auto
    from Cons.IH [OF this len g(2)] False hex show ?thesis
      by (auto simp: add.commute)
  next
    case True
    from scan_inv_zero [OF Cons.prems(1)] g True
    have inv: "scan_inv gs (Suc n) (if m < Suc z then int (n - z) else dci)
        (if m < Suc z then n - z else d) (Suc z) (max m (Suc z))" by simp
    have "z \<le> n" using Cons.prems(1) by (simp add: scan_inv_def)
    then show ?thesis
      using Cons.IH [OF inv len g(2)] True hex
      by (cases "m < Suc z") (simp_all add: max_def add.commute of_nat_diff algebra_simps)
  qed
qed

lemma zero_scan_result:
  "\<exists>dci d z m. zero_scan addr (- 1) 0 0 0 (map hex_group gs) = Inr (dci, int m)
     \<and> scan_inv gs (length gs) dci d z m"
proof -
  have "scan_inv gs 0 (- 1) 0 0 0" by (auto simp: scan_inv_def zero_run_def)
  from zero_scan_inv [OF this, of gs addr] show ?thesis by auto
qed

section \<open>Compression and expansion\<close>

lemma remove_times:
  "k + n \<le> length xs \<Longrightarrow> remove_times n k xs = take k xs @ drop (k + n) xs"
proof (induction n arbitrary: xs)
  case (Suc n)
  then show ?case by (simp add: min_def add.commute)
qed simp

lemma pad_groups_eq:
  "length xs + length ys \<le> 8 \<Longrightarrow>
   pad_groups (length xs) (xs @ ys) = xs @ replicate (8 - length (xs @ ys)) ''0000'' @ ys"
proof (induction "8 - length (xs @ ys)" arbitrary: ys)
  case 0
  then show ?case by (simp add: pad_groups.simps)
next
  case (Suc n)
  have "pad_groups (length xs) (xs @ ys) = pad_groups (length xs) (xs @ ''0000'' # ys)"
    using Suc.hyps by (subst pad_groups.simps) (auto simp: insert_at_def)
  also have "\<dots> = xs @ replicate (8 - length (xs @ ''0000'' # ys)) ''0000'' @ ''0000'' # ys"
    using Suc by (intro Suc.hyps(1)) auto
  also have "\<dots> = xs @ replicate (8 - length (xs @ ys)) ''0000'' @ ys"
    using Suc.hyps(2) by (simp add: replicate_app_Cons_same flip: replicate_Suc)
  finally show ?case .
qed

lemma uncompress_scan_groups:
  "uncompress_scan addr i dc (map hex_group gs @ rest) =
     map_ok (\<lambda>(q, d). (map show_hex4 gs @ q, d)) (uncompress_scan addr (i + length gs) dc rest)"
proof (induction gs arbitrary: i)
  case Nil
  then show ?case by (cases "uncompress_scan addr i dc rest") auto
next
  case (Cons g gs)
  show ?case
    using Cons [of "Suc i"] hex_group_props [of g]
    by (cases "uncompress_scan addr (Suc i + length gs) dc rest") (auto simp: not_less [symmetric])
qed

text \<open>The parts that \<open>compress_v6\<close> joins when it elides the groups from \<open>d\<close> to \<open>d + m\<close>.\<close>

definition elided :: "string list \<Rightarrow> nat \<Rightarrow> nat \<Rightarrow> string list" where
  "elided ps d m =
     (if d = 0 then [[]] else take d ps) @ [[]] @ (if d + m = length ps then [[]] else drop (d + m) ps)"

lemma groups_no_char:
  "CHR '':'' \<notin> set (show_hex4 g)" "trim (show_hex4 g) = show_hex4 g"
  "CHR '':'' \<notin> set (hex_group g)" "trim (hex_group g) = hex_group g"
  "CHR ''.'' \<notin> set (hex_group g)"
  using digits_no_char [of "show_hex4 g"] digits_no_char [of "hex_group g"] hex_group_props(2) by simp_all

lemma compress_scan:
  assumes "length gs = 8"
  shows "compress_v6 (join '':'' (map show_hex4 gs)) =
    bind_result (zero_scan (join '':'' (map show_hex4 gs)) (- 1) 0 0 0 (map hex_group gs)) (\<lambda>(dci, most).
        let parts = (if dci > - 1 \<and> most > 1
                     then (remove_times (nat (most - 1)) (nat dci) (map hex_group gs))[nat dci := []]
                     else map hex_group gs)
        in if length parts = 1 \<and> parts ! 0 = [] then Inr ''::''
           else Inr (join '':''
             (if dci = 0 then [] # parts
              else if dci = int (length parts) - 1 then parts @ [[]]
              else parts)))"
proof -
  have gs: "gs \<noteq> []" using assms by auto
  have 1: "split_on (CHR '':'') (join '':'' (map show_hex4 gs)) = map show_hex4 gs"
    using gs groups_no_char by (intro split_on_join) auto
  have 2: "map trim (map show_hex4 gs) = map show_hex4 gs"
    using groups_no_char by simp
  have 3: "map strip_zeros (map show_hex4 gs) = map hex_group gs"
    by (simp add: hex_group_def)
  have 4: "list_ex (\<lambda>p. p = [] \<or> 4 < length p) (map show_hex4 gs) = False"
    by (auto simp: list_ex_iff)
  have 5: "(length (map show_hex4 gs) \<noteq> 8) = False" using assms by simp
  show ?thesis unfolding compress_v6_def Let_def 1 2 3 4 5 if_False ..
qed

lemma compress_elided:
  assumes gs: "length gs = 8" and d: "d + m \<le> 8" and m: "1 < m"
    and scan: "zero_scan (join '':'' (map show_hex4 gs)) (- 1) 0 0 0 (map hex_group gs) = Inr (int d, int m)"
  shows "compress_v6 (join '':'' (map show_hex4 gs)) = Inr (join '':'' (elided (map hex_group gs) d m))"
proof -
  let ?P = "map hex_group gs"
  obtain l where l: "m = Suc l" using m by (cases m) auto
  have "nat (int m - 1) = l" using l by simp
  moreover have "remove_times l d ?P = take d ?P @ drop (d + l) ?P"
    using d l gs by (intro remove_times) auto
  moreover have "drop (d + l) ?P = ?P ! (d + l) # drop (d + m) ?P"
    using Cons_nth_drop_Suc [of "d + l" ?P, symmetric] d l gs by simp
  ultimately have parts: "(remove_times (nat (int m - 1)) d ?P)[d := []]
      = take d ?P @ [] # drop (d + m) ?P"
    using d gs by (simp add: list_update_append)
  have c: "int d > - 1 \<and> int m > 1" using m by simp
  have j: "join '':'' ([] # p # ps) = '':'' @ join '':'' (p # ps)" for p ps by simp
  define xs ys where xy: "xs = take d ?P" "ys = drop (d + m) ?P"
  have ends: "d = 0 \<Longrightarrow> xs = []" "d + m = 8 \<Longrightarrow> ys = []" using gs by (auto simp: xy)
  have el: "elided ?P d m = (if d = 0 then [[]] else xs) @ [[]] @ (if d + m = 8 then [[]] else ys)"
    using gs by (simp add: elided_def xy)
  have idx: "int d = int (length (take d ?P @ [] # drop (d + m) ?P)) - 1 \<longleftrightarrow> d + m = 8"
    using d gs by auto
  have one: "length (take d ?P @ [] # drop (d + m) ?P) = 1 \<longleftrightarrow> d = 0 \<and> m = 8" using d gs by auto
  show ?thesis
    unfolding compress_scan [OF gs] scan bind_result_simps prod.case Let_def if_P [OF c] nat_int parts
      idx one
    unfolding el xy [symmetric]
    using ends by (cases "d = 0"; cases "d + m = 8") (simp_all add: j)
qed

lemma compress_plain:
  assumes gs: "length gs = 8" and m: "m \<le> 1"
    and scan: "zero_scan (join '':'' (map show_hex4 gs)) (- 1) 0 0 0 (map hex_group gs) = Inr (dci, int m)"
  shows "compress_v6 (join '':'' (map show_hex4 gs)) = Inr (join '':''
    (if dci = 0 then [] # map hex_group gs
     else if dci = 7 then map hex_group gs @ [[]] else map hex_group gs))"
  using m gs by (auto simp: compress_scan [OF gs] scan)

lemma uncompress_elided:
  assumes gs: "length gs = 8" and d: "d + m \<le> 8" and m: "1 < m" and zero: "zero_run gs d (d + m)"
  shows "uncompress_v6 (join '':'' (elided (map hex_group gs) d m)) = Inr (join '':'' (map show_hex4 gs))"
proof -
  let ?P = "map hex_group gs" and ?E = "elided (map hex_group gs) d m"
  let ?xs = "take d gs" and ?ys = "drop (d + m) gs"
  have "set ?E \<subseteq> insert [] (set ?P)"
    by (auto simp: elided_def dest: in_set_takeD in_set_dropD)
  then have "p = [] \<or> (\<exists>g. p = hex_group g)" if "p \<in> set ?E" for p using that by auto
  moreover have "trim [] = []" by (simp add: trim_def)
  ultimately have E: "\<And>p. p \<in> set ?E \<Longrightarrow> CHR '':'' \<notin> set p \<and> trim p = p"
    using groups_no_char by (metis empty_iff list.set(1))
  have split: "split_on (CHR '':'') (join '':'' ?E) = ?E"
    using E by (intro split_on_join) (auto simp: elided_def)
  have trim: "map trim ?E = ?E" using E by (simp add: map_idI)
  have len: "\<not> (9 < length ?E \<or> length ?E < 3)"
    using gs d m by (auto simp: elided_def)
  have hd: "(if hd ?E = [] then tl ?E else ?E) = map hex_group ?xs @ [[]] @ (if d + m = 8 then [[]] else map hex_group ?ys)"
  proof (cases "d = 0")
    case True
    then show ?thesis using gs by (simp add: elided_def drop_map)
  next
    case False
    then have "hd (take d ?P) \<noteq> [] \<and> take d ?P \<noteq> []"
      using gs hex_group_props(1) by (cases gs; cases d) auto
    with False show ?thesis using gs by (simp add: elided_def drop_map take_map)
  qed
  have last: "?ys \<noteq> [] \<Longrightarrow> last (map hex_group ?ys) \<noteq> []"
    using hex_group_props(1) by (simp add: last_map)
  have lst: "(let q = map hex_group ?xs @ [[]] @ (if d + m = 8 then [[]] else map hex_group ?ys)
      in if q \<noteq> [] \<and> last q = [] then butlast q else q) = map hex_group ?xs @ [] # map hex_group ?ys"
    using last gs d by (auto simp: butlast_append Let_def)
  have scan: "uncompress_scan a 0 None (map hex_group ?xs @ [] # map hex_group ?ys)
      = Inr (map show_hex4 ?xs @ [] # map show_hex4 ?ys, Some d)" for a
    using uncompress_scan_groups [of a "Suc d" "Some d" ?ys "[]"] gs d
    by (simp add: uncompress_scan_groups min_def)
  have "replicate m ''0000'' = map show_hex4 (take m (drop d gs))"
  proof (rule nth_equalityI)
    fix k assume "k < length (replicate m ''0000'')"
    then have k: "k < m" by simp
    then have "gs ! (d + k) = 0" using zero by (simp add: zero_run_def)
    then have "show_hex4 (gs ! (d + k)) = ''0000''" by (simp add: show_hex4_zero_iff)
    then show "replicate m ''0000'' ! k = map show_hex4 (take m (drop d gs)) ! k"
      using k d gs by simp
  qed (use gs d in auto)
  then have pad: "map show_hex4 ?xs @ replicate m ''0000'' @ map show_hex4 ?ys = map show_hex4 gs"
    by (metis append_take_drop_id drop_drop add.commute map_append)
  obtain l where l: "m = Suc l" using m by (cases m) auto
  have "pad_groups d (map show_hex4 ?xs @ ''0000'' # map show_hex4 ?ys) =
      map show_hex4 ?xs @ replicate l ''0000'' @ ''0000'' # map show_hex4 ?ys"
    using pad_groups_eq [of "map show_hex4 ?xs" "''0000'' # map show_hex4 ?ys"] gs d l by (simp add: min_def)
  also have "\<dots> = map show_hex4 gs"
    using pad l by (simp add: replicate_app_Cons_same)
  finally have "pad_groups d ((map show_hex4 ?xs @ [] # map show_hex4 ?ys)[d := ''0000'']) = map show_hex4 gs"
    using gs d by (simp add: list_update_append min_def)
  then show ?thesis
    unfolding uncompress_v6_def split trim Let_def if_not_P [OF len] hd lst [unfolded Let_def] scan
      bind_result_simps prod.case option.case by simp
qed

section \<open>Bytes and groups\<close>

definition groups :: "u8 list \<Rightarrow> u16 list" where
  "groups b = map (\<lambda>i. of_be_bytes [b ! (i * 2), b ! (i * 2 + 1)]) [0..<8]"

lemma length_groups [simp]: "length (groups b) = 8"
  by (simp add: groups_def)

lemma list_16:
  assumes "length b = 16"
  obtains b0 b1 b2 b3 b4 b5 b6 b7 b8 b9 b10 b11 b12 b13 b14 b15 where
    "b = [b0, b1, b2, b3, b4, b5, b6, b7, b8, b9, b10, b11, b12, b13, b14, b15]"
  using assms by (auto simp: eval_nat_numeral length_Suc_conv)

lemma groups_bytes:
  assumes "length b = 16"
  shows "concat (map (be_bytes 2) (groups b)) = b"
proof -
  obtain b0 b1 b2 b3 b4 b5 b6 b7 b8 b9 b10 b11 b12 b13 b14 b15 where
    "b = [b0, b1, b2, b3, b4, b5, b6, b7, b8, b9, b10, b11, b12, b13, b14, b15]"
    using assms by (rule list_16)
  then show ?thesis by (simp add: groups_def upt_rec)
qed

lemma uncompressed_groups:
  "bytes_as_uncompressed_v6 b = join '':'' (map show_hex4 (groups b))"
  by (simp add: bytes_as_uncompressed_v6_def groups_def comp_def)

lemma groups_as_bytes:
  fixes gs :: "u16 list"
  assumes len: "length gs = 8"
    and f: "\<And>g. CHR '':'' \<notin> set (f g)" "\<And>g. parse_uint 16 65536 (f g) = Some (unat g)"
  shows "uncompressed_v6_as_bytes (join '':'' (map f gs)) = Inr (concat (map (be_bytes 2) gs))"
proof -
  have split: "split_on (CHR '':'') (join '':'' (map f gs)) = map f gs"
    using len f by (intro split_on_join) auto
  have "map_result (\<lambda>p. map_ok (\<lambda>n. be_bytes 2 (of_nat n :: u16)) (ok_or e (parse_uint 16 65536 p)))
      (map f gs) = Inr (map (be_bytes 2) gs)" for e :: ipv6_uncompress_error
    by (induction gs) (simp_all add: f ucast_id)
  then show ?thesis using len by (simp add: uncompressed_v6_as_bytes_def split Let_def)
qed

lemma parse_hex_group: "parse_uint 16 65536 (hex_group w) = Some (unat w)"
proof -
  have "parse_digits 16 0 (replicate n (CHR ''0'') @ s) = parse_digits 16 0 s" for n s
    by (induction n) (auto simp: digit_val_def)
  then have "parse_digits 16 0 (show_hex4 w) = parse_digits 16 0 (hex_group w)"
    using hex_group_props(4) [of w] by metis
  then show ?thesis
    using parse_show_hex4 [of w] hex_group_props(1,2) [of w] by (simp add: parse_uint_digits)
qed

section \<open>Recognising printed addresses\<close>

lemma elided_recognised:
  assumes "length gs = 8" "d + m \<le> 8" "1 < m"
  defines "s \<equiv> join '':'' (elided (map hex_group gs) d m)"
  shows "is_compressed_v6 s" "CHR ''.'' \<notin> set s" "\<not> starts_with ''['' s"
proof -
  let ?P = "map hex_group gs"
  define L R :: "string list" where
    LR: "L = (if d = 0 then [[]] else take d ?P)" "R = (if d + m = 8 then [[]] else drop (d + m) ?P)"
  have e: "elided ?P d m = L @ [] # R" using assms by (simp add: elided_def LR)
  have ne: "L \<noteq> []" "R \<noteq> []" using assms by (auto simp: LR)
  have sub: "set (elided ?P d m) \<subseteq> insert [] (set ?P)"
    by (auto simp: elided_def dest: in_set_takeD in_set_dropD)
  then have nc: "\<And>p. p \<in> set (elided ?P d m) \<Longrightarrow> CHR '':'' \<notin> set p"
    using groups_no_char(3) by auto
  have app: "xs \<noteq> [] \<Longrightarrow> ys \<noteq> [] \<Longrightarrow> join '':'' (xs @ ys) = join '':'' xs @ '':'' @ join '':'' ys"
    for xs ys :: "string list"
    by (induction xs rule: induct_list012) (auto simp: join_Cons)
  have "s = join '':'' L @ ''::'' @ join '':'' R"
    using ne by (simp add: s_def e app join_Cons)
  then have "contains ''::'' s" by (simp only: contains_append)
  moreover have "count_list s (CHR '':'') = length (elided ?P d m) - 1"
    unfolding s_def using nc by (rule count_list_join)
  ultimately show "is_compressed_v6 s" using assms by (auto simp: is_compressed_v6_def elided_def)
  have "set s \<subseteq> (\<Union>p \<in> set (elided ?P d m). set p) \<union> {CHR '':''}"
    unfolding s_def using set_join [of "'':''"] by force
  also have "\<dots> \<subseteq> insert (CHR '':'') (digit_char ` {..<16})"
    using sub hex_group_props(2) by fastforce
  finally have "set s \<subseteq> insert (CHR '':'') (digit_char ` {..<16})" .
  then show "CHR ''.'' \<notin> set s" and "\<not> starts_with ''['' s"
    by (auto simp: starts_with_def, cases s, auto)
qed

lemma not_mapped_no_dot: "CHR ''.'' \<notin> set s \<Longrightarrow> \<not> is_mapped_v6 s"
  by (simp add: is_mapped_v6_def contains_char)

lemma plain_recognised:
  assumes "length gs = 8"
  defines "s \<equiv> join '':'' (map hex_group gs)"
  shows "\<not> is_compressed_v6 s" "is_uncompressed_v6 s" "CHR ''.'' \<notin> set s" "\<not> starts_with ''['' s"
    "CHR '':'' \<in> set s"
proof -
  have no: "\<not> contains ''::'' s"
    unfolding s_def using hex_group_props(1) groups_no_char(3) by (intro no_double_join) auto
  then show "\<not> is_compressed_v6 s" by (simp add: is_compressed_v6_def)
  have count: "count_list s (CHR '':'') = 7"
    unfolding s_def using groups_no_char(3) assms by (subst count_list_join) auto
  with no show "is_uncompressed_v6 s" by (simp add: is_uncompressed_v6_def)
  show "CHR '':'' \<in> set s" using count by (metis count_notin zero_neq_numeral)
  have "set s \<subseteq> (\<Union>p \<in> set (map hex_group gs). set p) \<union> {CHR '':''}"
    unfolding s_def using set_join [of "'':''"] by force
  also have "\<dots> \<subseteq> insert (CHR '':'') (digit_char ` {..<16})"
    using hex_group_props(2) by fastforce
  finally have "set s \<subseteq> insert (CHR '':'') (digit_char ` {..<16})" .
  then show "CHR ''.'' \<notin> set s" and "\<not> starts_with ''['' s"
    by (auto simp: starts_with_def, cases s, auto)
qed

lemma show_ip_compressed:
  "\<not> is_v4_mapped_v6 (V6 b) \<Longrightarrow> compress_v6 (join '':'' (map show_hex4 (groups b))) = Inr c \<Longrightarrow>
     show_ip (V6 b) = c"
  by (simp only: show_ip.simps if_False uncompressed_groups Let_def sum.case)

text \<open>The printed form of an address, by what the scan finds.\<close>

lemma show_v6_cases:
  assumes "length b = 16" "\<not> is_v4_mapped_v6 (V6 b)"
  obtains (elided) d m where "d + m \<le> 8" "1 < m" "zero_run (groups b) d (d + m)"
      "show_ip (V6 b) = join '':'' (elided (map hex_group (groups b)) d m)"
  | (plain) dci and d m :: nat where "m \<le> 1" "dci = (if m = 0 then - 1 else int d)" "m = 1 \<Longrightarrow> groups b ! d = 0 \<and> d < 8"
      "\<forall>k. Suc k < 8 \<longrightarrow> groups b ! k \<noteq> 0 \<or> groups b ! Suc k \<noteq> 0"
      "\<forall>k < 8. m = 0 \<longrightarrow> groups b ! k \<noteq> 0"
      "m = 1 \<Longrightarrow> (\<forall>k < d. groups b ! k \<noteq> 0)"
      "show_ip (V6 b) = join '':'' (if dci = 0 then [] # map hex_group (groups b)
         else if dci = 7 then map hex_group (groups b) @ [[]] else map hex_group (groups b))"
proof -
  let ?gs = "groups b" and ?u = "join '':'' (map show_hex4 (groups b))"
  obtain dci d z m where
    scan: "zero_scan ?u (- 1) 0 0 0 (map hex_group ?gs) = Inr (dci, int m)" and
    inv: "scan_inv ?gs 8 dci d z m"
    using zero_scan_result [of ?u ?gs] by auto
  then have
    dci: "dci = (if m = 0 then - 1 else int d)" and dm: "d + m \<le> 8" and run: "zero_run ?gs d (d + m)" and
    max: "\<And>a b. b \<le> 8 \<Longrightarrow> zero_run ?gs a b \<Longrightarrow> b - a \<le> m" and
    first: "m = 1 \<Longrightarrow> (\<forall>k < d. ?gs ! k \<noteq> 0)"
    by (auto simp: scan_inv_def)
  show thesis
  proof (cases "1 < m")
    case True
    then have "compress_v6 ?u = Inr (join '':'' (elided (map hex_group ?gs) d m))"
      using scan dci dm by (intro compress_elided) auto
    from elided [OF dm True run show_ip_compressed [OF assms(2) this]] show thesis .
  next
    case False
    have "?gs ! k \<noteq> 0 \<or> ?gs ! Suc k \<noteq> 0" if "Suc k < 8" for k
    proof (rule ccontr)
      assume "\<not> ?thesis"
      moreover have "k \<le> i \<Longrightarrow> i < Suc (Suc k) \<Longrightarrow> i = k \<or> i = Suc k" for i by linarith
      ultimately have "zero_run ?gs k (Suc (Suc k))" unfolding zero_run_def by auto
      with max [of "Suc (Suc k)" k] that False show False by simp
    qed
    moreover have "?gs ! k \<noteq> 0" if "k < 8" "m = 0" for k
    proof
      assume "?gs ! k = 0"
      then have "zero_run ?gs k (Suc k)" by (auto simp: zero_run_def le_less_Suc_eq)
      with max [of "Suc k" k] that show False by simp
    qed
    moreover have str: "compress_v6 ?u = Inr (join '':'' (if dci = 0 then [] # map hex_group ?gs
        else if dci = 7 then map hex_group ?gs @ [[]] else map hex_group ?gs))"
      using scan False by (intro compress_plain [of _ m]) auto
    moreover have "m = 1 \<Longrightarrow> ?gs ! d = 0 \<and> d < 8" using run dm by (auto simp: zero_run_def)
    ultimately show thesis
      using False dci first show_ip_compressed [OF assms(2) str]
      by (intro plain [of m dci d]) (assumption | simp)+
  qed
qed

end
