(* ===== verification/Address_Props.thy ===== *)
theory Address_Props
  imports Address_Lemmas
begin

text \<open>
  Properties of network addresses: printed forms parse back (exactly when the printer writes no
  stray colon), and socket addresses survive their \<open>sockaddr_storage\<close>.
\<close>

lemma no_double_join_end:
  "ps \<noteq> [] \<Longrightarrow> (\<And>p. p \<in> set ps \<Longrightarrow> p \<noteq> [] \<and> c \<notin> set p) \<Longrightarrow> \<not> contains [c, c] (join [c] (ps @ [[]]))"
proof (induction ps rule: induct_list012)
  case (2 p)
  then show ?case by (simp add: contains_double_skip contains_double_Cons starts_with_def)
next
  case (3 p q ps)
  have "q \<noteq> []" "c \<notin> set q" using 3 by auto
  then obtain d ds where q: "q = d # ds" "d \<noteq> c" by (cases q) auto
  have "\<not> starts_with [c] (join [c] (q # ps @ [[]]))" using q by (cases ps) (auto simp: starts_with_def)
  then have "\<not> contains [c, c] (c # join [c] (q # ps @ [[]]))"
    using 3 by (subst contains_double_Cons) simp
  with 3 show ?case by (simp add: contains_double_skip)
qed auto

text \<open>Printed addresses hold no white space.\<close>

lemma addr_char_not_ws:
  "set s \<subseteq> {CHR '':'', CHR ''.''} \<union> digit_char ` {..<16} \<Longrightarrow> trim s = s"
proof (rule trim_no_ws)
  fix c assume "set s \<subseteq> {CHR '':'', CHR ''.''} \<union> digit_char ` {..<16}" "c \<in> set s"
  then consider "c = CHR '':''" | "c = CHR ''.''" | d where "d < 16" "c = digit_char d" by auto
  then show "\<not> is_ws c" by cases (simp_all add: digit_char_not_ws, simp_all add: is_ws_def)
qed

lemma join_parts_chars:
  assumes "\<And>p. p \<in> set ps \<Longrightarrow> set p \<subseteq> D" "set sep \<subseteq> D"
  shows "set (join sep ps) \<subseteq> D"
  using set_join [of sep ps] assms by blast

lemma show_v4_chars: "set (show_v4 b) \<subseteq> {CHR '':'', CHR ''.''} \<union> digit_char ` {..<16}"
  unfolding show_v4_def using show_dec_chars by (intro join_parts_chars) auto

lemma show_v4_no_colon: "CHR '':'' \<notin> set (show_v4 b)"
proof -
  have "set (show_v4 b) \<subseteq> {CHR ''.''} \<union> digit_char ` {..<16}"
    unfolding show_v4_def using show_dec_chars by (intro join_parts_chars) auto
  then show ?thesis by auto
qed

lemma show_v4_dots: "count_list (show_v4 b) (CHR ''.'') = 3"
  unfolding show_v4_def using digits_no_char(2) [OF show_dec_chars] by (subst count_list_join) auto

lemma v4_bytes_show:
  assumes "length b = 4"
  shows "v4_bytes_from_str (show_v4 b) = Inr b"
proof -
  obtain b0 b1 b2 b3 where b: "b = [b0, b1, b2, b3]"
    using assms by (auto simp: eval_nat_numeral length_Suc_conv)
  have "split_on (CHR ''.'') (show_v4 b) = map (\<lambda>i. show_dec (unat (b ! i))) [0..<4]"
    unfolding show_v4_def using digits_no_char(2) [OF show_dec_chars] by (intro split_on_join) auto
  moreover have "parse_uint 10 256 (show_dec (unat (x :: u8))) = Some (unat x)" for x
    using unsigned_less [of x, where ?'a = nat] by (intro parse_show_dec) simp
  ultimately show ?thesis
    by (simp add: v4_bytes_from_str_def b upt_rec)
qed

section \<open>Printing and parsing back\<close>

text \<open>Whatever the resolver does, the printed form of an IPv4 address parses back to it.\<close>

theorem v4_display_roundtrip:
  "length b = 4 \<Longrightarrow> ip_try_from gai (show_ip (V4 b)) = Inr (V4 b)"
  using addr_char_not_ws [OF show_v4_chars, of b] show_v4_no_colon [of b] show_v4_dots [of b]
  by (simp add: ip_try_from_def is_v4_def contains_char v4_from_str_def v4_bytes_show)

theorem v4_display_roundtrip_witness:
  "ip_try_from (\<lambda>_ _. Inr []) (show_ip (V4 [192, 168, 1, 1])) = Inr (V4 [192, 168, 1, 1])"
  by (rule v4_display_roundtrip) simp

text \<open>An IPv4-mapped IPv6 address is printed in its mapped form and parses back to the same
  sixteen bytes.\<close>

theorem v6_mapped_roundtrip:
  assumes "length b = 4"
  shows "show_ip (V6 (mapped_bytes b)) = ''::ffff:'' @ show_ip (V4 b) \<and>
    ip_try_from gai (show_ip (V6 (mapped_bytes b))) = Inr (V6 (mapped_bytes b))"
proof -
  have s: "show_ip (V6 (mapped_bytes b)) = ''::ffff:'' @ show_v4 b"
    by (simp add: mapped_bytes_def nth_append eval_nat_numeral)
  let ?s = "''::ffff:'' @ show_v4 b"
  have "CHR ''f'' \<in> digit_char ` {..<16}" using digit_char_eq_iff [of 15 "CHR ''f''"] by (intro image_eqI [of _ _ 15]) auto
  then have "trim ?s = ?s" using show_v4_chars [of b] by (intro addr_char_not_ws) auto
  moreover have "\<not> is_v4 ?s" by (simp add: is_v4_def starts_with_def)
  moreover have "CHR ''.'' \<in> set ?s" using show_v4_dots [of b] by (metis count_notin UnI2 set_append zero_neq_numeral)
  then have m: "is_mapped_v6 ?s" unfolding is_mapped_v6_def contains_char using starts_with_append by blast
  moreover have "v6_from_str ?s = Inr (V6 (mapped_bytes b))"
  proof -
    have "split_once ''::ffff:'' ?s = Some ([], show_v4 b)"
      by (simp add: starts_with_def)
    then have "parse_mapped_v6 ?s = Inr (V6 (mapped_bytes b))"
      unfolding parse_mapped_v6_def by (simp add: v4_bytes_show assms)
    moreover have "\<not> starts_with ''['' ?s" by (simp add: starts_with_def)
    ultimately show ?thesis using m by (subst v6_from_str.simps) (simp only: if_False if_True map_err_simps simp_thms)
  qed
  ultimately have "ip_try_from gai (show_ip (V6 (mapped_bytes b))) = Inr (V6 (mapped_bytes b))"
    unfolding s ip_try_from_def Let_def is_v6_def by (simp only: if_False if_True simp_thms)
  with s show ?thesis unfolding show_ip.simps(1) by blast
qed

theorem v6_mapped_roundtrip_witness:
  "show_ip (V6 (mapped_bytes [10, 0, 0, 1])) = ''::ffff:'' @ show_ip (V4 [10, 0, 0, 1]) \<and>
   ip_try_from (\<lambda>_ _. Inr []) (show_ip (V6 (mapped_bytes [10, 0, 0, 1]))) = Inr (V6 (mapped_bytes [10, 0, 0, 1]))"
  by (rule v6_mapped_roundtrip) simp

lemma starts_with_join:
  assumes "ps \<noteq> []" "\<And>p. p \<in> set ps \<Longrightarrow> p \<noteq> [] \<and> c \<notin> set p"
  shows "\<not> starts_with [c] (join sep ps)"
proof -
  obtain p qs where ps: "ps = p # qs" using assms(1) by (cases ps) auto
  then have "p \<noteq> [] \<and> c \<notin> set p" using assms(2) by simp
  then obtain d ds where "p = d # ds" "d \<noteq> c" by (cases p) auto
  with ps show ?thesis by (cases qs) (auto simp: starts_with_def)
qed

text \<open>A zero group stands alone when no other zero group is next to it. The printer writes a stray
  colon exactly when no two zero groups are adjacent and the zero group it marks, the first one, is
  at an end.\<close>

definition lone_edge_zero :: "u8 list \<Rightarrow> bool" where
  "lone_edge_zero b =
     (let z = map (\<lambda>g. g = 0) (groups b) in
      \<not> list_ex (\<lambda>i. z ! i \<and> z ! Suc i) [0..<7] \<and>
      (z ! 0 \<or> z ! 7 \<and> \<not> list_ex (\<lambda>i. z ! i) [0..<7]))"

lemma lone_edge_zero_iff:
  "lone_edge_zero b \<longleftrightarrow>
     (\<forall>k. Suc k < 8 \<longrightarrow> groups b ! k \<noteq> 0 \<or> groups b ! Suc k \<noteq> 0) \<and>
     (groups b ! 0 = 0 \<or> groups b ! 7 = 0 \<and> (\<forall>k < 7. groups b ! k \<noteq> 0))"
  by (auto simp: lone_edge_zero_def list_ex_iff Let_def)

lemma lone_edge_index:
  assumes "(m :: nat) \<le> 1" "dci = (if m = 0 then - 1 else int d)" "m = 1 \<Longrightarrow> groups b ! d = 0 \<and> d < 8"
    and alone: "\<forall>k. Suc k < 8 \<longrightarrow> groups b ! k \<noteq> 0 \<or> groups b ! Suc k \<noteq> 0"
    and none: "\<forall>k < 8. m = 0 \<longrightarrow> groups b ! k \<noteq> 0"
    and first: "m = 1 \<Longrightarrow> (\<forall>k < d. groups b ! k \<noteq> 0)"
  shows "lone_edge_zero b \<longleftrightarrow> dci = 0 \<or> dci = 7"
proof (cases "m = 0")
  case True
  have "groups b ! 0 \<noteq> 0" "groups b ! 7 \<noteq> 0" using none True by simp_all
  then show ?thesis using assms(2) True by (simp add: lone_edge_zero_iff)
next
  case False
  with assms have d: "groups b ! d = 0" "d < 8" "dci = int d" "\<forall>k < d. groups b ! k \<noteq> 0" by auto
  have "groups b ! 0 = 0 \<longleftrightarrow> d = 0" using d(1,4) by (metis not_gr_zero)
  moreover have "groups b ! 7 = 0 \<and> (\<forall>k < 7. groups b ! k \<noteq> 0) \<longleftrightarrow> d = 7"
  proof
    assume "groups b ! 7 = 0 \<and> (\<forall>k < 7. groups b ! k \<noteq> 0)"
    then have "\<not> d < 7" using d(1) by metis
    with d(2) show "d = 7" by simp
  next
    assume "d = 7"
    with d show "groups b ! 7 = 0 \<and> (\<forall>k < 7. groups b ! k \<noteq> 0)" by blast
  qed
  ultimately show ?thesis using d(3) alone by (auto simp: lone_edge_zero_iff)
qed

lemma v6_from_hex_bytes:
  assumes "length b = 16"
  shows "uncompressed_v6_as_bytes (join '':'' (map show_hex4 (groups b))) = Inr b"
    and "uncompressed_v6_as_bytes (join '':'' (map hex_group (groups b))) = Inr b"
  using groups_as_bytes [OF length_groups, of show_hex4 b] groups_as_bytes [OF length_groups, of hex_group b]
    groups_no_char parse_show_hex4 parse_hex_group groups_bytes [OF assms] by simp_all

lemma elided_chars:
  "set (join '':'' (elided (map hex_group gs) d m)) \<subseteq> {CHR '':'', CHR ''.''} \<union> digit_char ` {..<16}"
proof (rule join_parts_chars)
  fix p assume "p \<in> set (elided (map hex_group gs) d m)"
  then have "p \<in> insert [] (set (map hex_group gs))"
    by (auto simp: elided_def dest: in_set_takeD in_set_dropD split: if_splits)
  then show "set p \<subseteq> {CHR '':'', CHR ''.''} \<union> digit_char ` {..<16}"
    using hex_group_props(2) by fastforce
qed simp

lemma plain_chars:
  "set (join '':'' (map hex_group gs)) \<subseteq> {CHR '':'', CHR ''.''} \<union> digit_char ` {..<16}"
  using hex_group_props(2) by (intro join_parts_chars) fastforce+

text \<open>C13. An IPv6 address that is not IPv4-mapped parses back from its printed form, the longest
  run of zero groups elided or not, unless the printer writes a stray colon for a lone zero group at
  an end.\<close>

theorem v6_display_roundtrip:
  assumes b: "length b = 16" "\<not> is_v4_mapped_v6 (V6 b)" and "\<not> lone_edge_zero b"
  shows "ip_try_from gai (show_ip (V6 b)) = Inr (V6 b)"
  using b
proof (cases rule: show_v6_cases)
  case (elided d m)
  let ?s = "join '':'' (elided (map hex_group (groups b)) d m)"
  note rec = elided_recognised [OF length_groups elided(1,2)]
  have "\<not> is_v4 ?s" using rec(2) by (simp add: is_v4_def count_notin)
  moreover have "v6_from_str ?s = Inr (V6 b)"
    using rec not_mapped_no_dot [OF rec(2)] uncompress_elided [OF length_groups elided(1-3)]
    by (subst v6_from_str.simps) (simp add: v6_from_hex_bytes b)
  ultimately show ?thesis
    using rec(1) unfolding elided(4) ip_try_from_def addr_char_not_ws [OF elided_chars] Let_def is_v6_def
    by simp
next
  case (plain dci d m)
  let ?s = "join '':'' (map hex_group (groups b))"
  have "dci \<noteq> 0 \<and> dci \<noteq> 7"
    using assms(3) lone_edge_index [OF plain(1-6)] by blast
  then have s: "show_ip (V6 b) = ?s" using plain(7) by simp
  note rec = plain_recognised [OF length_groups, of b]
  have "\<not> is_v4 ?s" using rec(3) by (simp add: is_v4_def count_notin)
  moreover have "v6_from_str ?s = Inr (V6 b)"
    using rec not_mapped_no_dot [OF rec(3)]
    by (subst v6_from_str.simps) (simp add: v6_from_hex_bytes b)
  ultimately show ?thesis
    using rec(2) unfolding s ip_try_from_def addr_char_not_ws [OF plain_chars] Let_def is_v6_def
    by simp
qed

theorem v6_display_roundtrip_witness:
  "ip_try_from (\<lambda>_ _. Inr []) (show_ip (V6 [32, 1, 13, 184, 0, 0, 0, 0, 0, 0, 0, 0, 0, 0, 0, 1]))
     = Inr (V6 [32, 1, 13, 184, 0, 0, 0, 0, 0, 0, 0, 0, 0, 0, 0, 1])"
  by (rule v6_display_roundtrip) (simp_all add: lone_edge_zero_def groups_def of_be_bytes_def upt_rec)

text \<open>When the printer does write a stray colon, the printed form is taken for neither an IPv4
  nor an IPv6 address: parsing it back asks the resolver for a host of that name.\<close>

theorem v6_lone_edge_zero_lost:
  assumes b: "length b = 16" "\<not> is_v4_mapped_v6 (V6 b)" and lone: "lone_edge_zero b"
  shows "\<not> is_v4 (show_ip (V6 b)) \<and> \<not> is_v6 (show_ip (V6 b))"
  using b
proof (cases rule: show_v6_cases)
  case (elided d m)
  have "zero_run (groups b) d (d + m) \<Longrightarrow> groups b ! d = 0 \<and> groups b ! Suc d = 0"
    using elided by (auto simp: zero_run_def)
  with elided lone show ?thesis by (auto simp: lone_edge_zero_iff dest: spec [of _ d])
next
  case (plain dci d m)
  let ?P = "map hex_group (groups b)"
  have "dci = 0 \<or> dci = 7"
    using lone lone_edge_index [OF plain(1-6)] by blast
  then obtain ps where ps: "ps = [] # ?P \<or> ps = ?P @ [[]]" and s: "show_ip (V6 b) = join '':'' ps"
    using plain(7) that [of "[] # ?P"] that [of "?P @ [[]]"]
    by (auto split: if_splits simp del: show_ip.simps)
  have ne: "?P \<noteq> []" by (metis length_groups length_map list.size(3) zero_neq_numeral)
  have nc: "\<And>p. p \<in> set ?P \<Longrightarrow> p \<noteq> [] \<and> CHR '':'' \<notin> set p"
    using hex_group_props(1) groups_no_char(3) by auto
  have no_start: "\<not> starts_with '':'' (join '':'' ?P)"
    using ne nc by (rule starts_with_join)
  have no: "\<not> contains ''::'' (join '':'' ps)"
    using ps
  proof
    assume "ps = [] # ?P"
    then have "join '':'' ps = CHR '':'' # join '':'' ?P" using ne by (simp add: join_Cons)
    moreover have "\<not> contains ''::'' (join '':'' ?P)" using nc by (rule no_double_join)
    ultimately show ?thesis using no_start by (simp only: contains_double_Cons) simp
  next
    assume "ps = ?P @ [[]]"
    then show ?thesis using ne nc by (simp only: no_double_join_end not_False_eq_True)
  qed
  have count: "count_list (join '':'' ps) (CHR '':'') = 8"
    using ps nc by (subst count_list_join) auto
  have "CHR ''.'' \<notin> set (join '':'' ps)"
    using ps groups_no_char(5) set_join [of "'':''" ps] by force
  then show ?thesis
    using no count s by (simp add: is_v4_def is_v6_def is_compressed_v6_def is_uncompressed_v6_def
      is_mapped_v6_def contains_char count_notin)
qed

theorem v6_lone_edge_zero_lost_witness:
  "\<not> is_v4 (show_ip (V6 [0, 0, 0, 1, 0, 2, 0, 3, 0, 4, 0, 5, 0, 6, 0, 7])) \<and>
   \<not> is_v6 (show_ip (V6 [0, 0, 0, 1, 0, 2, 0, 3, 0, 4, 0, 5, 0, 6, 0, 7]))"
  by (rule v6_lone_edge_zero_lost) (simp_all add: lone_edge_zero_def groups_def of_be_bytes_def upt_rec)

section \<open>Socket addresses\<close>

lemma sockaddr_fields:
  assumes "ip_wf (ip a)"
  shows "length (sockaddr_storage_of a) = 128"
    "ss_family (sockaddr_storage_of a) = (case version (ip a) of IPv4 \<Rightarrow> AF_INET | IPv6 \<Rightarrow> AF_INET6)"
    "read_u16 2 (sockaddr_storage_of a) = swap_bytes 2 (port a)"
  using assms by (cases "ip a"; simp add: ss_family_def read_u16_def)+

lemma read_stored_sockaddr:
  assumes "ip_wf (ip a)"
  shows "length (sockaddr_storage_of a) = 128 \<and> socket_address_try_from (sockaddr_storage_of a) = Inr a"
proof (cases "ip a")
  case (V4 b)
  then have b: "length b = 4" using assms by simp
  have "read_u32 4 (sockaddr_storage_of a) = swap_bytes 4 (of_be_bytes b)"
    using V4 by (simp add: read_u32_def)
  then show ?thesis
    using V4 b sockaddr_fields [OF assms] by (simp add: socket_address_try_from_def Let_def del: sockaddr_storage_of.simps)
next
  case (V6 b)
  then have "take 16 (drop 8 (sockaddr_storage_of a)) = b" using assms by simp
  then show ?thesis
    using V6 sockaddr_fields [OF assms] by (simp add: socket_address_try_from_def Let_def del: sockaddr_storage_of.simps)
qed

text \<open>A socket address stored in a \<open>sockaddr_storage\<close> fills it to its size and is read back
  unchanged.\<close>

theorem sockaddr_roundtrip:
  assumes "ip_wf (ip a)"
  shows "length (sockaddr_storage_of a) = 128 \<and> socket_address_try_from (sockaddr_storage_of a) = Inr a"
  using assms by (rule read_stored_sockaddr)

theorem sockaddr_roundtrip_witness:
  "length (sockaddr_storage_of \<lparr>ip = V4 [127, 0, 0, 1], port = 8080\<rparr>) = 128 \<and>
   socket_address_try_from (sockaddr_storage_of \<lparr>ip = V4 [127, 0, 0, 1], port = 8080\<rparr>)
     = Inr \<lparr>ip = V4 [127, 0, 0, 1], port = 8080\<rparr>"
  by (rule sockaddr_roundtrip) simp

text \<open>The peer address taken from a descriptor is the address the socket itself is bound to,
  whatever the other end is.\<close>

theorem peer_address_is_own:
  "\<lbrakk>getsockname fd = Inr (sockaddr_storage_of own); ip_wf (ip own)\<rbrakk> \<Longrightarrow>
     peer_address_try_from_fd getsockname fd = Inr own \<and>
     local_address_try_from_fd getsockname fd = Inr own"
proof -
  assume a: "getsockname fd = Inr (sockaddr_storage_of own)" "ip_wf (ip own)"
  have "socket_address_try_from (sockaddr_storage_of own) = Inr own"
    using read_stored_sockaddr a(2) by blast
  then show ?thesis
    using a(1) by (simp add: peer_address_try_from_fd_def local_address_try_from_fd_def
        socket_address_try_from_fd_def del: sockaddr_storage_of.simps)
qed

theorem peer_address_is_own_witness:
  "peer_address_try_from_fd (\<lambda>_. Inr (sockaddr_storage_of \<lparr>ip = V4 [127, 0, 0, 1], port = 80\<rparr>)) 3
     = Inr \<lparr>ip = V4 [127, 0, 0, 1], port = 80\<rparr>"
  using peer_address_is_own [of "\<lambda>_. Inr (sockaddr_storage_of \<lparr>ip = V4 [127, 0, 0, 1], port = 80\<rparr>)" 3
      "\<lparr>ip = V4 [127, 0, 0, 1], port = 80\<rparr>"] by simp


end
