(* ===== verification/Control_Message.thy ===== *)
theory Control_Message
  imports Address
begin

text \<open>
  Ancillary messages (\<open>src/io/message.rs\<close>): the typed control messages of the socket, IPv4, IPv6
  and TLS levels, their C structures as bytes, and their encoding to and decoding from a control
  buffer. Memory behind a pointer is the list of bytes from there on: reading past its end, or
  reading a byte that is no value of an enum, is \<open>Undefined\<close>. Integer overflow panics, as in a
  debug build. \<open>CMSG_LEN\<close>, \<open>CMSG_SPACE\<close> and \<open>CMSG_DATA\<close> are the documented macros of the
  platform, for payloads under 4 GB.
\<close>

section \<open>TLS records and alerts\<close>

datatype tls_alert_level = Warning | Fatal | UnknownLevel

fun u8_of_alert_level :: "tls_alert_level \<Rightarrow> u8" where
  "u8_of_alert_level Warning = 1"
| "u8_of_alert_level Fatal = 2"
| "u8_of_alert_level UnknownLevel = 255"

definition alert_level_of_u8 :: "u8 \<Rightarrow> tls_alert_level" where
  "alert_level_of_u8 b = (if b = 1 then Warning else if b = 2 then Fatal else UnknownLevel)"

datatype tls_alert_description =
    CloseNotify
  | UnexpectedMessage
  | BadRecordMac
  | DecryptionFailed
  | RecordOverflow
  | DecompressionFailure
  | HandshakeFailure
  | NoCertificate
  | BadCertificate
  | UnsupportedCertificate
  | CertificateRevoked
  | CertificateExpired
  | CertificateUnknown
  | IllegalParameter
  | UnknownCA
  | AccessDenied
  | DecodeError
  | DecryptError
  | ExportRestriction
  | ProtocolVersion
  | InsufficientSecurity
  | InternalError
  | InappropriateFallback
  | UserCanceled
  | NoRenegotiation
  | MissingExtension
  | UnsupportedExtension
  | CertificateUnobtainable
  | UnrecognizedName
  | BadCertificateStatusResponse
  | BadCertificateHashValue
  | UnknownPSKIdentity
  | CertificateRequired
  | NoApplicationProtocol
  | UnknownDescription

fun u8_of_alert_description :: "tls_alert_description \<Rightarrow> u8" where
  "u8_of_alert_description CloseNotify = 0"
| "u8_of_alert_description UnexpectedMessage = 10"
| "u8_of_alert_description BadRecordMac = 20"
| "u8_of_alert_description DecryptionFailed = 21"
| "u8_of_alert_description RecordOverflow = 22"
| "u8_of_alert_description DecompressionFailure = 30"
| "u8_of_alert_description HandshakeFailure = 40"
| "u8_of_alert_description NoCertificate = 41"
| "u8_of_alert_description BadCertificate = 42"
| "u8_of_alert_description UnsupportedCertificate = 43"
| "u8_of_alert_description CertificateRevoked = 44"
| "u8_of_alert_description CertificateExpired = 45"
| "u8_of_alert_description CertificateUnknown = 46"
| "u8_of_alert_description IllegalParameter = 47"
| "u8_of_alert_description UnknownCA = 48"
| "u8_of_alert_description AccessDenied = 49"
| "u8_of_alert_description DecodeError = 50"
| "u8_of_alert_description DecryptError = 51"
| "u8_of_alert_description ExportRestriction = 60"
| "u8_of_alert_description ProtocolVersion = 70"
| "u8_of_alert_description InsufficientSecurity = 71"
| "u8_of_alert_description InternalError = 80"
| "u8_of_alert_description InappropriateFallback = 86"
| "u8_of_alert_description UserCanceled = 90"
| "u8_of_alert_description NoRenegotiation = 100"
| "u8_of_alert_description MissingExtension = 109"
| "u8_of_alert_description UnsupportedExtension = 110"
| "u8_of_alert_description CertificateUnobtainable = 111"
| "u8_of_alert_description UnrecognizedName = 112"
| "u8_of_alert_description BadCertificateStatusResponse = 113"
| "u8_of_alert_description BadCertificateHashValue = 114"
| "u8_of_alert_description UnknownPSKIdentity = 115"
| "u8_of_alert_description CertificateRequired = 116"
| "u8_of_alert_description NoApplicationProtocol = 120"
| "u8_of_alert_description UnknownDescription = 255"

definition alert_description_of_u8 :: "u8 \<Rightarrow> tls_alert_description" where
  "alert_description_of_u8 b =
     (if b = 0 then CloseNotify else
      if b = 10 then UnexpectedMessage else
      if b = 20 then BadRecordMac else
      if b = 21 then DecryptionFailed else
      if b = 22 then RecordOverflow else
      if b = 30 then DecompressionFailure else
      if b = 40 then HandshakeFailure else
      if b = 41 then NoCertificate else
      if b = 42 then BadCertificate else
      if b = 43 then UnsupportedCertificate else
      if b = 44 then CertificateRevoked else
      if b = 45 then CertificateExpired else
      if b = 46 then CertificateUnknown else
      if b = 47 then IllegalParameter else
      if b = 48 then UnknownCA else
      if b = 49 then AccessDenied else
      if b = 50 then DecodeError else
      if b = 51 then DecryptError else
      if b = 60 then ExportRestriction else
      if b = 70 then ProtocolVersion else
      if b = 71 then InsufficientSecurity else
      if b = 80 then InternalError else
      if b = 86 then InappropriateFallback else
      if b = 90 then UserCanceled else
      if b = 100 then NoRenegotiation else
      if b = 109 then MissingExtension else
      if b = 110 then UnsupportedExtension else
      if b = 111 then CertificateUnobtainable else
      if b = 112 then UnrecognizedName else
      if b = 113 then BadCertificateStatusResponse else
      if b = 114 then BadCertificateHashValue else
      if b = 115 then UnknownPSKIdentity else
      if b = 116 then CertificateRequired else
      if b = 120 then NoApplicationProtocol else
      UnknownDescription)"

record tls_alert =
  alert_level :: tls_alert_level
  alert_description :: "tls_alert_description option"

definition is_fatal :: "tls_alert \<Rightarrow> bool" where
  "is_fatal a \<longleftrightarrow> alert_level a = Fatal"

definition is_warning :: "tls_alert \<Rightarrow> bool" where
  "is_warning a \<longleftrightarrow> alert_level a = Warning"

definition is_close_notify :: "tls_alert \<Rightarrow> bool" where
  "is_close_notify a \<longleftrightarrow> alert_description a = Some CloseNotify"

datatype tls_record_type = ChangeCipherSpec | Alert | Handshake | ApplicationData | Heartbeat

fun u8_of_record_type :: "tls_record_type \<Rightarrow> u8" where
  "u8_of_record_type ChangeCipherSpec = 20"
| "u8_of_record_type Alert = 21"
| "u8_of_record_type Handshake = 22"
| "u8_of_record_type ApplicationData = 23"
| "u8_of_record_type Heartbeat = 24"

text \<open>Reading a byte as the enum: only its discriminants are values.\<close>

definition record_type_of_u8 :: "u8 \<Rightarrow> 'e failure + tls_record_type" where
  "record_type_of_u8 b =
     (if b = 20 then Inr ChangeCipherSpec else if b = 21 then Inr Alert
      else if b = 22 then Inr Handshake else if b = 23 then Inr ApplicationData
      else if b = 24 then Inr Heartbeat else Inl Undefined)"

section \<open>IPv6 traffic class\<close>

datatype ip_v6_ecn = NotEct | Ect0 | Ect1 | Ce

datatype ip_v6_dscp =
    DefaultClass
  | ClassSelector1
  | ClassSelector2
  | ClassSelector3
  | ClassSelector4
  | ClassSelector5
  | ClassSelector6
  | ClassSelector7
  | ExpeditedForwarding
  | AssuredForwarding11
  | AssuredForwarding12
  | AssuredForwarding13
  | AssuredForwarding21
  | AssuredForwarding22
  | AssuredForwarding23
  | AssuredForwarding31
  | AssuredForwarding32
  | AssuredForwarding33
  | AssuredForwarding41
  | AssuredForwarding42
  | AssuredForwarding43
  | Other u8

definition dscp_of_raw :: "u8 \<Rightarrow> ip_v6_dscp" where
  "dscp_of_raw d =
     (if d = 0 then DefaultClass else
      if d = 8 then ClassSelector1 else
      if d = 16 then ClassSelector2 else
      if d = 24 then ClassSelector3 else
      if d = 32 then ClassSelector4 else
      if d = 40 then ClassSelector5 else
      if d = 48 then ClassSelector6 else
      if d = 56 then ClassSelector7 else
      if d = 46 then ExpeditedForwarding else
      if d = 10 then AssuredForwarding11 else
      if d = 12 then AssuredForwarding12 else
      if d = 14 then AssuredForwarding13 else
      if d = 18 then AssuredForwarding21 else
      if d = 20 then AssuredForwarding22 else
      if d = 22 then AssuredForwarding23 else
      if d = 26 then AssuredForwarding31 else
      if d = 28 then AssuredForwarding32 else
      if d = 30 then AssuredForwarding33 else
      if d = 34 then AssuredForwarding41 else
      if d = 36 then AssuredForwarding42 else
      if d = 38 then AssuredForwarding43 else
      Other d)"

fun raw_of_dscp :: "ip_v6_dscp \<Rightarrow> u8" where
  "raw_of_dscp DefaultClass = 0"
| "raw_of_dscp ClassSelector1 = 8"
| "raw_of_dscp ClassSelector2 = 16"
| "raw_of_dscp ClassSelector3 = 24"
| "raw_of_dscp ClassSelector4 = 32"
| "raw_of_dscp ClassSelector5 = 40"
| "raw_of_dscp ClassSelector6 = 48"
| "raw_of_dscp ClassSelector7 = 56"
| "raw_of_dscp ExpeditedForwarding = 46"
| "raw_of_dscp AssuredForwarding11 = 10"
| "raw_of_dscp AssuredForwarding12 = 12"
| "raw_of_dscp AssuredForwarding13 = 14"
| "raw_of_dscp AssuredForwarding21 = 18"
| "raw_of_dscp AssuredForwarding22 = 20"
| "raw_of_dscp AssuredForwarding23 = 22"
| "raw_of_dscp AssuredForwarding31 = 26"
| "raw_of_dscp AssuredForwarding32 = 28"
| "raw_of_dscp AssuredForwarding33 = 30"
| "raw_of_dscp AssuredForwarding41 = 34"
| "raw_of_dscp AssuredForwarding42 = 36"
| "raw_of_dscp AssuredForwarding43 = 38"
| "raw_of_dscp (Other v) = v"

record traffic_class =
  ecn :: ip_v6_ecn
  dscp :: ip_v6_dscp

definition traffic_class_of_u8 :: "u8 \<Rightarrow> traffic_class" where
  "traffic_class_of_u8 b =
     \<lparr>ecn = (let e = b AND 3 in if e = 0 then NotEct else if e = 1 then Ect1 else if e = 2 then Ect0 else Ce),
      dscp = dscp_of_raw (drop_bit 2 (b AND 252))\<rparr>"

fun u8_of_ecn :: "ip_v6_ecn \<Rightarrow> u8" where
  "u8_of_ecn NotEct = 0"
| "u8_of_ecn Ect0 = 2"
| "u8_of_ecn Ect1 = 1"
| "u8_of_ecn Ce = 3"

definition u8_of_traffic_class :: "traffic_class \<Rightarrow> u8" where
  "u8_of_traffic_class c = push_bit 2 (raw_of_dscp (dscp c)) OR u8_of_ecn (ecn c)"

section \<open>Structures\<close>

record credentials =
  process_id :: u32
  user_id :: u32
  group_id :: u32

text \<open>\<open>libc::ucred\<close>: three 32-bit fields; the casts keep the bits.\<close>

definition bytes_of_ucred :: "credentials \<Rightarrow> u8 list" where
  "bytes_of_ucred c = le_bytes 4 (process_id c) @ le_bytes 4 (user_id c) @ le_bytes 4 (group_id c)"

definition ucred_of_bytes :: "u8 list \<Rightarrow> credentials" where
  "ucred_of_bytes bs = \<lparr>process_id = read_u32 0 bs, user_id = read_u32 4 bs, group_id = read_u32 8 bs\<rparr>"

record packet_info =
  interface_index :: u32
  destination :: ip_address
  specific_destination :: "ip_address option"

datatype lib_c_pkt_info =
    PktV4 u32 u32 u32        \<comment> \<open>\<open>ipi_ifindex\<close>, \<open>ipi_spec_dst.s_addr\<close>, \<open>ipi_addr.s_addr\<close>\<close>
  | PktV6 "u8 list" u32      \<comment> \<open>\<open>ipi6_addr\<close>, \<open>ipi6_ifindex\<close>\<close>

datatype packet_info_conversion_error = PacketInfoConversionError packet_info

definition in_pktinfo_of_packet_info ::
  "packet_info \<Rightarrow> packet_info_conversion_error + lib_c_pkt_info" where
  "in_pktinfo_of_packet_info p =
     (case destination p of
        V4 be \<Rightarrow>
          (case specific_destination p of
             Some (V4 spec) \<Rightarrow> Inr (PktV4 (interface_index p) (of_be_bytes spec) (of_be_bytes be))
           | _ \<Rightarrow> Inl (PacketInfoConversionError p))
      | V6 be \<Rightarrow> Inr (PktV6 be (interface_index p)))"

fun packet_info_of_in_pktinfo :: "lib_c_pkt_info \<Rightarrow> packet_info" where
  "packet_info_of_in_pktinfo (PktV4 i spec addr) =
     \<lparr>interface_index = i, destination = V4 (be_bytes 4 addr),
      specific_destination = Some (V4 (be_bytes 4 spec))\<rparr>"
| "packet_info_of_in_pktinfo (PktV6 addr i) =
     \<lparr>interface_index = i, destination = V6 addr, specific_destination = None\<rparr>"

fun bytes_of_pktinfo :: "lib_c_pkt_info \<Rightarrow> u8 list" where
  "bytes_of_pktinfo (PktV4 i spec addr) = le_bytes 4 i @ le_bytes 4 spec @ le_bytes 4 addr"
| "bytes_of_pktinfo (PktV6 addr i) = addr @ le_bytes 4 i"

definition in_pktinfo_of_bytes :: "u8 list \<Rightarrow> lib_c_pkt_info" where
  "in_pktinfo_of_bytes bs = PktV4 (read_u32 0 bs) (read_u32 4 bs) (read_u32 8 bs)"

definition in6_pktinfo_of_bytes :: "u8 list \<Rightarrow> lib_c_pkt_info" where
  "in6_pktinfo_of_bytes bs = PktV6 (take 16 bs) (read_u32 16 bs)"

record sock_extended_error =
  see_errno :: u32
  see_origin :: u8
  see_type :: u8
  see_code :: u8
  see_pad :: u8
  see_info :: u32
  see_data :: u32

definition sock_extended_error_of_bytes :: "u8 list \<Rightarrow> sock_extended_error" where
  "sock_extended_error_of_bytes bs =
     \<lparr>see_errno = read_u32 0 bs, see_origin = bs ! 4, see_type = bs ! 5, see_code = bs ! 6,
      see_pad = bs ! 7, see_info = read_u32 8 bs, see_data = read_u32 12 bs\<rparr>"

text \<open>A \<open>SystemTime\<close> is its seconds since the epoch (signed) and nanoseconds.\<close>

record system_time =
  st_secs :: i64
  st_nanos :: u32

text \<open>\<open>UNIX_EPOCH + Duration::new(secs, nanos)\<close> panics when the seconds overflow.\<close>

definition system_time_of :: "u64 \<Rightarrow> u32 \<Rightarrow> 'e failure + system_time" where
  "system_time_of secs nanos =
     (let s = unat secs + unat nanos div 1000000000 in
      if s < 2 ^ 63 then Inr \<lparr>st_secs = of_nat s, st_nanos = nanos mod 1000000000\<rparr> else Inl Panic)"

definition read_u64 :: "nat \<Rightarrow> u8 list \<Rightarrow> u64" where
  "read_u64 off bs = of_le_bytes (take 8 (drop off bs))"

text \<open>\<open>tv.tv_usec as u32 * 1000\<close>.\<close>

definition system_time_of_timeval :: "u8 list \<Rightarrow> 'e failure + system_time" where
  "system_time_of_timeval bs =
     (let usec = (ucast (read_u64 8 bs) :: u32) in
      if unat usec * 1000 < 2 ^ 32 then system_time_of (read_u64 0 bs) (usec * 1000) else Inl Panic)"

definition system_time_of_timespec :: "u8 list \<Rightarrow> 'e failure + system_time" where
  "system_time_of_timespec bs = system_time_of (read_u64 0 bs) (ucast (read_u64 8 bs))"

text \<open>\<open>duration_since(UNIX_EPOCH).unwrap()\<close> panics on an earlier time.\<close>

definition bytes_of_timeval :: "system_time \<Rightarrow> 'e failure + u8 list" where
  "bytes_of_timeval t =
     (if sint (st_secs t) < 0 then Inl Panic
      else Inr (le_bytes 8 (st_secs t) @ le_bytes 8 (ucast (st_nanos t div 1000) :: i64)))"

section \<open>Raw messages\<close>

record raw_in =
  in_level :: i32
  in_type :: i32
  in_data_len :: nat
  in_data :: "u8 list"       \<comment> \<open>the memory from \<open>data_ptr\<close> on\<close>

record raw_out =
  out_level :: i32
  out_type :: i32
  out_payload :: "u8 list"

definition fill_msg_out :: "raw_out \<Rightarrow> i32 \<Rightarrow> u8 list \<Rightarrow> raw_out" where
  "fill_msg_out msg t bs = msg\<lparr>out_type := t, out_payload := bs\<rparr>"

datatype from_message_in_error = FromMessageInError nat nat

text \<open>\<open>from_msg_in_single\<close> of a type of \<open>n\<close> bytes; \<open>from_msg_in_multi\<close> of \<open>k\<close> of them.\<close>

definition from_msg_in_single :: "nat \<Rightarrow> raw_in \<Rightarrow> from_message_in_error failure + u8 list" where
  "from_msg_in_single n msg =
     (if in_data_len msg \<noteq> n then Inl (Fail (FromMessageInError n (in_data_len msg)))
      else if length (in_data msg) < n then Inl Undefined
      else Inr (take n (in_data msg)))"

fun chunks :: "nat \<Rightarrow> nat \<Rightarrow> 'a list \<Rightarrow> 'a list list" where
  "chunks n 0 xs = []"
| "chunks n (Suc k) xs = take n xs # chunks n k (drop n xs)"

definition from_msg_in_multi :: "nat \<Rightarrow> nat \<Rightarrow> raw_in \<Rightarrow> from_message_in_error failure + u8 list list" where
  "from_msg_in_multi n k msg =
     (if in_data_len msg \<noteq> n * k then Inl (Fail (FromMessageInError (n * k) (in_data_len msg)))
      else if length (in_data msg) < n * k then Inl Undefined
      else Inr (chunks n k (in_data msg)))"

end
