(* ===== verification/Control_Levels.thy ===== *)
theory Control_Levels
  imports Control_Message
begin

text \<open>
  The four levels of control messages (\<open>src/io/message.rs\<close>), each with the errors of its
  parsing and preparing, and the dispatch over them; then the encoding of whole messages with
  their headers into a control buffer, and the parsing of a buffer.
\<close>

section \<open>Errors\<close>

datatype parse_type_error = InvalidControlMessageTypeForLevel i32 i32

datatype parse_socket_error =
    FailedToRetrieveFileDescriptors from_message_in_error
  | FailedToRetrieveCredentials from_message_in_error
  | FailedToRetrieveTimestamp from_message_in_error
  | InvalidNumberOfTimestamps nat nat
  | SocketTypeError parse_type_error

datatype parse_ipv4_error =
    FailedToRetrieveTimeToLive from_message_in_error
  | FailedToRetrieveV4PacketInfo from_message_in_error
  | FailedToRetrieveV4ExtendedError from_message_in_error
  | V4ExtendedSocketError sock_extended_error
  | V4TypeError parse_type_error

datatype parse_ipv6_error =
    FailedToRetrieveV6PacketInfo from_message_in_error
  | FailedToRetrieveHopLimit from_message_in_error
  | FailedToRetrieveTrafficClass from_message_in_error
  | FailedToRetrieveV6ExtendedError from_message_in_error
  | V6ExtendedSocketError sock_extended_error
  | V6TypeError parse_type_error

datatype parse_tls_error =
    FailedToRetrieveRecordType from_message_in_error
  | TlsTypeError parse_type_error

datatype parse_error =
    ParseSocketError parse_socket_error
  | ParseIpV4Error parse_ipv4_error
  | ParseIpV6Error parse_ipv6_error
  | ParseTlsError parse_tls_error
  | InvalidControlMessageLevel i32
  | NullPointer
  | InvalidControlMessageLength nat nat

datatype prepare_type_error = UnsendableControlMessageType i32

datatype prepare_ipv4_error =
    V4PacketInfoConversion packet_info_conversion_error
  | ExpectedIpV4PacketInfo

datatype prepare_ipv6_error =
    V6PacketInfoConversion packet_info_conversion_error
  | ExpectedIpV6PacketInfo

datatype prepare_error =
    PrepareSocketError prepare_type_error
  | PrepareIpV4Error prepare_ipv4_error
  | PrepareIpV6Error prepare_ipv6_error
  | PrepareTlsError prepare_type_error

section \<open>Socket level\<close>

datatype socket_level_type =
    Rights "raw_fd list"
  | Credentials credentials
  | Timestamp system_time
  | DetailedTimestamp system_time system_time   \<comment> \<open>software, hardware\<close>

definition parse_socket :: "raw_in \<Rightarrow> parse_socket_error failure + socket_level_type" where
  "parse_socket cmsg =
     (if in_type cmsg = SCM_RIGHTS then
        bind_result (lift_err FailedToRetrieveFileDescriptors (from_msg_in_multi 4 (in_data_len cmsg div 4) cmsg))
          (\<lambda>fds. Inr (Rights (map (read_u32 0) fds)))
      else if in_type cmsg = SCM_CREDENTIALS then
        bind_result (lift_err FailedToRetrieveCredentials (from_msg_in_single 12 cmsg))
          (\<lambda>c. Inr (Credentials (ucred_of_bytes c)))
      else if in_type cmsg = SCM_TIMESTAMP then
        bind_result (lift_err FailedToRetrieveTimestamp (from_msg_in_single 16 cmsg))
          (\<lambda>tv. map_ok Timestamp (system_time_of_timeval tv))
      else if in_type cmsg = SCM_TIMESTAMPNS then
        bind_result (lift_err FailedToRetrieveTimestamp (from_msg_in_single 16 cmsg))
          (\<lambda>ts. map_ok Timestamp (system_time_of_timespec ts))
      else if in_type cmsg = SCM_TIMESTAMPING then
        bind_result (lift_err FailedToRetrieveTimestamp (from_msg_in_multi 16 (in_data_len cmsg div 16) cmsg))
          (\<lambda>ts. if length ts \<noteq> 3 then Inl (Fail (InvalidNumberOfTimestamps 3 (length ts)))
                else bind_result (system_time_of_timespec (ts ! 0)) (\<lambda>software.
                     bind_result (system_time_of_timespec (ts ! 2)) (\<lambda>hardware.
                     Inr (DetailedTimestamp software hardware))))
      else Inl (Fail (SocketTypeError (InvalidControlMessageTypeForLevel (in_type cmsg) SOL_SOCKET))))"

fun prepare_socket :: "socket_level_type \<Rightarrow> prepare_type_error failure + raw_out" where
  "prepare_socket (Rights fds) =
     Inr (fill_msg_out \<lparr>out_level = SOL_SOCKET, out_type = 0, out_payload = []\<rparr>
            SCM_RIGHTS (concat (map (le_bytes 4) fds)))"
| "prepare_socket (Credentials c) =
     Inr (fill_msg_out \<lparr>out_level = SOL_SOCKET, out_type = 0, out_payload = []\<rparr>
            SCM_CREDENTIALS (bytes_of_ucred c))"
| "prepare_socket (Timestamp t) =
     bind_result (bytes_of_timeval t) (\<lambda>tv.
     Inr (fill_msg_out \<lparr>out_level = SOL_SOCKET, out_type = 0, out_payload = []\<rparr> SCM_TIMESTAMP tv))"
| "prepare_socket (DetailedTimestamp _ _) = Inl (Fail (UnsendableControlMessageType SCM_TIMESTAMPING))"

section \<open>IPv4 level\<close>

datatype ip_v4_level_type = V4PacketInfo packet_info | TimeToLive i32

definition parse_ipv4 :: "raw_in \<Rightarrow> parse_ipv4_error failure + ip_v4_level_type" where
  "parse_ipv4 cmsg =
     (if in_type cmsg = IP_PKTINFO then
        bind_result (lift_err FailedToRetrieveV4PacketInfo (from_msg_in_single 12 cmsg))
          (\<lambda>p. Inr (V4PacketInfo (packet_info_of_in_pktinfo (in_pktinfo_of_bytes p))))
      else if in_type cmsg = IP_TTL then
        bind_result (lift_err FailedToRetrieveTimeToLive (from_msg_in_single 4 cmsg))
          (\<lambda>b. Inr (TimeToLive (read_u32 0 b)))
      else if in_type cmsg = IP_RECVERR then
        bind_result (lift_err FailedToRetrieveV4ExtendedError (from_msg_in_single 16 cmsg))
          (\<lambda>b. Inl (Fail (V4ExtendedSocketError (sock_extended_error_of_bytes b))))
      else Inl (Fail (V4TypeError (InvalidControlMessageTypeForLevel (in_type cmsg) IPPROTO_IP))))"

fun prepare_ipv4 :: "ip_v4_level_type \<Rightarrow> prepare_ipv4_error failure + raw_out" where
  "prepare_ipv4 (V4PacketInfo p) =
     bind_result (map_err (\<lambda>e. Fail (V4PacketInfoConversion e)) (in_pktinfo_of_packet_info p)) (\<lambda>c.
     case c of
       PktV4 _ _ _ \<Rightarrow> Inr (fill_msg_out \<lparr>out_level = IPPROTO_IP, out_type = 0, out_payload = []\<rparr>
                            IP_PKTINFO (bytes_of_pktinfo c))
     | PktV6 _ _ \<Rightarrow> Inl (Fail ExpectedIpV4PacketInfo))"
| "prepare_ipv4 (TimeToLive ttl) =
     Inr (fill_msg_out \<lparr>out_level = IPPROTO_IP, out_type = 0, out_payload = []\<rparr> IP_TTL (le_bytes 4 ttl))"

section \<open>IPv6 level\<close>

datatype ip_v6_level_type = V6PacketInfo packet_info | HopLimit i32 | Class traffic_class

definition parse_ipv6 :: "raw_in \<Rightarrow> parse_ipv6_error failure + ip_v6_level_type" where
  "parse_ipv6 cmsg =
     (if in_type cmsg = IPV6_PKTINFO then
        bind_result (lift_err FailedToRetrieveV6PacketInfo (from_msg_in_single 20 cmsg))
          (\<lambda>p. Inr (V6PacketInfo (packet_info_of_in_pktinfo (in6_pktinfo_of_bytes p))))
      else if in_type cmsg = IPV6_HOPLIMIT then
        bind_result (lift_err FailedToRetrieveHopLimit (from_msg_in_single 4 cmsg))
          (\<lambda>b. Inr (HopLimit (read_u32 0 b)))
      else if in_type cmsg = IPV6_TCLASS then
        bind_result (lift_err FailedToRetrieveTrafficClass (from_msg_in_single 4 cmsg))
          (\<lambda>b. Inr (Class (traffic_class_of_u8 (ucast (read_u32 0 b)))))
      else if in_type cmsg = IPV6_RECVERR then
        bind_result (lift_err FailedToRetrieveV6ExtendedError (from_msg_in_single 16 cmsg))
          (\<lambda>b. Inl (Fail (V6ExtendedSocketError (sock_extended_error_of_bytes b))))
      else Inl (Fail (V6TypeError (InvalidControlMessageTypeForLevel (in_type cmsg) IPPROTO_IPV6))))"

fun prepare_ipv6 :: "ip_v6_level_type \<Rightarrow> prepare_ipv6_error failure + raw_out" where
  "prepare_ipv6 (V6PacketInfo p) =
     bind_result (map_err (\<lambda>e. Fail (V6PacketInfoConversion e)) (in_pktinfo_of_packet_info p)) (\<lambda>c.
     case c of
       PktV4 _ _ _ \<Rightarrow> Inl (Fail ExpectedIpV6PacketInfo)
     | PktV6 _ _ \<Rightarrow> Inr (fill_msg_out \<lparr>out_level = IPPROTO_IPV6, out_type = 0, out_payload = []\<rparr>
                            IPV6_PKTINFO (bytes_of_pktinfo c)))"
| "prepare_ipv6 (HopLimit h) =
     Inr (fill_msg_out \<lparr>out_level = IPPROTO_IPV6, out_type = 0, out_payload = []\<rparr> IPV6_HOPLIMIT (le_bytes 4 h))"
| "prepare_ipv6 (Class c) =
     Inr (fill_msg_out \<lparr>out_level = IPPROTO_IPV6, out_type = 0, out_payload = []\<rparr>
            IPV6_TCLASS (le_bytes 4 (ucast (u8_of_traffic_class c) :: i32)))"

section \<open>TLS level\<close>

datatype tls_level_type = SetRecordType tls_record_type | GetRecordType tls_record_type

definition parse_tls :: "raw_in \<Rightarrow> parse_tls_error failure + tls_level_type" where
  "parse_tls cmsg =
     (if in_type cmsg = TLS_GET_RECORD_TYPE then
        bind_result (lift_err FailedToRetrieveRecordType (from_msg_in_single 1 cmsg))
          (\<lambda>b. map_ok GetRecordType (record_type_of_u8 (b ! 0)))
      else Inl (Fail (TlsTypeError (InvalidControlMessageTypeForLevel (in_type cmsg) SOL_TLS))))"

fun prepare_tls :: "tls_level_type \<Rightarrow> prepare_type_error failure + raw_out" where
  "prepare_tls (SetRecordType r) =
     Inr (fill_msg_out \<lparr>out_level = SOL_TLS, out_type = 0, out_payload = []\<rparr>
            TLS_SET_RECORD_TYPE [u8_of_record_type r])"
| "prepare_tls (GetRecordType _) = Inl (Fail (UnsendableControlMessageType TLS_GET_RECORD_TYPE))"

section \<open>Dispatch\<close>

text \<open>An \<open>IoControlMessage\<close> is its level.\<close>

datatype control_message =
    Socket socket_level_type
  | IpV4 ip_v4_level_type
  | IpV6 ip_v6_level_type
  | Tls tls_level_type

fun prepare_control_message :: "control_message \<Rightarrow> prepare_error failure + raw_out" where
  "prepare_control_message (Socket l) = lift_err PrepareSocketError (prepare_socket l)"
| "prepare_control_message (IpV4 l) = lift_err PrepareIpV4Error (prepare_ipv4 l)"
| "prepare_control_message (IpV6 l) = lift_err PrepareIpV6Error (prepare_ipv6 l)"
| "prepare_control_message (Tls l) = lift_err PrepareTlsError (prepare_tls l)"

definition parse_control_message :: "raw_in \<Rightarrow> parse_error failure + control_message" where
  "parse_control_message cmsg =
     (if in_level cmsg = SOL_SOCKET then map_ok Socket (lift_err ParseSocketError (parse_socket cmsg))
      else if in_level cmsg = IPPROTO_IP then map_ok IpV4 (lift_err ParseIpV4Error (parse_ipv4 cmsg))
      else if in_level cmsg = IPPROTO_IPV6 then map_ok IpV6 (lift_err ParseIpV6Error (parse_ipv6 cmsg))
      else if in_level cmsg = SOL_TLS then map_ok Tls (lift_err ParseTlsError (parse_tls cmsg))
      else Inl (Fail (InvalidControlMessageLevel (in_level cmsg))))"

section \<open>Control buffers\<close>

text \<open>The header is \<open>cmsg_len\<close>, \<open>cmsg_level\<close>, \<open>cmsg_type\<close>: 16 bytes, data aligned to 8. The lengths given to
  \<open>CMSG_LEN\<close> and \<open>CMSG_SPACE\<close> are cast to \<open>c_uint\<close>, in which the results are computed and wrap.\<close>

definition cmsg_align :: "nat \<Rightarrow> nat" where "cmsg_align n = (n + 7) div 8 * 8"

definition cmsg_len :: "u32 \<Rightarrow> u32" where "cmsg_len n = 16 + n"

definition cmsg_space :: "u32 \<Rightarrow> u32" where "cmsg_space n = of_nat (16 + cmsg_align (unat n))"

text \<open>\<open>try_parse_single\<close>; \<open>None\<close> is the null pointer.\<close>

definition try_parse_single :: "u8 list option \<Rightarrow> parse_error failure + control_message" where
  "try_parse_single ptr =
     (case ptr of
        None \<Rightarrow> Inl (Fail NullPointer)
      | Some mem \<Rightarrow>
          if length mem < 16 then Inl Undefined
          else
            let hdr_size = unat (read_u64 0 mem) in
            if hdr_size < unat (cmsg_len 0)
            then Inl (Fail (InvalidControlMessageLength (unat (cmsg_len 0)) hdr_size))
            else parse_control_message
                   \<lparr>in_level = read_u32 8 mem, in_type = read_u32 12 mem,
                    in_data_len = hdr_size - unat (cmsg_len 0), in_data = drop 16 mem\<rparr>)"

lemma try_parse_single_length: "try_parse_single (Some mem) = Inr m \<Longrightarrow> 16 \<le> length mem"
  by (simp add: try_parse_single_def split: if_splits)

text \<open>The loop of \<open>try_parse_from_slice\<close>; the slice from \<open>offset\<close> on is what is left. A space that wraps to zero
  leaves the offset where it is, and the loop does not end: \<open>None\<close>.\<close>

partial_function (option) try_parse_from_slice ::
  "u8 list \<Rightarrow> (parse_error failure + control_message list) option" where
  "try_parse_from_slice cmsgs =
     (if cmsgs = [] then Some (Inr [])
      else
        (case try_parse_single (Some cmsgs) of
           Inl e \<Rightarrow> Some (Inl e)
         | Inr msg \<Rightarrow>
             let data_len = unat (read_u64 0 cmsgs) - unat (cmsg_len 0) in
             Option.bind (try_parse_from_slice (drop (unat (cmsg_space (of_nat data_len))) cmsgs))
               (\<lambda>r. Some (map_ok (\<lambda>msgs. msg # msgs) r))))"

text \<open>The header and the data of a message, and where they are written in a buffer. A write past the buffer is
  undefined; \<open>fresh\<close> is what the allocation held, which stays in the padding.\<close>

definition cmsg_bytes :: "raw_out \<Rightarrow> u8 list" where
  "cmsg_bytes msg =
     le_bytes 8 (ucast (cmsg_len (of_nat (length (out_payload msg)))) :: u64) @
     le_bytes 4 (out_level msg) @ le_bytes 4 (out_type msg) @ out_payload msg"

definition write_at :: "nat \<Rightarrow> u8 list \<Rightarrow> u8 list \<Rightarrow> 'e failure + u8 list" where
  "write_at off bytes buf =
     (if length buf < off + length bytes then Inl Undefined
      else Inr (take off buf @ bytes @ drop (off + length bytes) buf))"

definition out_space :: "raw_out \<Rightarrow> nat" where
  "out_space raw = unat (cmsg_space (of_nat (length (out_payload raw))))"

definition try_prepare :: "(nat \<Rightarrow> u8) \<Rightarrow> control_message \<Rightarrow> prepare_error failure + u8 list" where
  "try_prepare fresh m =
     bind_result (prepare_control_message m) (\<lambda>raw. write_at 0 (cmsg_bytes raw) (map fresh [0..<out_space raw]))"

fun write_cmsgs :: "nat \<Rightarrow> (raw_out \<times> nat) list \<Rightarrow> u8 list \<Rightarrow> 'e failure + u8 list" where
  "write_cmsgs off [] buf = Inr buf"
| "write_cmsgs off ((msg, space) # ms) buf =
     bind_result (write_at off (cmsg_bytes msg) buf) (\<lambda>buf. write_cmsgs (off + space) ms buf)"

text \<open>A buffer of more than \<open>isize::MAX\<close> bytes cannot be allocated: \<open>with_capacity\<close> panics.\<close>

definition try_prepare_multi ::
  "(nat \<Rightarrow> u8) \<Rightarrow> control_message list \<Rightarrow> prepare_error failure + u8 list" where
  "try_prepare_multi fresh msgs =
     bind_result (map_result (\<lambda>m. map_ok (\<lambda>raw. (raw, out_space raw)) (prepare_control_message m)) msgs)
       (\<lambda>prepared. let total_size = sum_list (map snd prepared) in
         if 2 ^ 63 \<le> total_size then Inl Panic
         else write_cmsgs 0 prepared (map fresh [0..<total_size]))"

text \<open>\<open>try_parse_from_msghdr\<close>: the control bytes of the \<open>msghdr\<close> are walked with \<open>CMSG_FIRSTHDR\<close> and
  \<open>CMSG_NXTHDR\<close>, which are arguments: they give the offset of the first header, and of the next one
  after a header, or nothing. Every header takes at least one byte, so the length of the control bytes
  is enough fuel for a walk that goes forward; \<open>None\<close> is a walk that does not end within it.\<close>

fun parse_chain ::
  "nat \<Rightarrow> (u8 list \<Rightarrow> nat \<Rightarrow> nat option) \<Rightarrow> u8 list \<Rightarrow> nat option
    \<Rightarrow> (parse_error failure + control_message list) option" where
  "parse_chain 0 nxt ctl off = None"
| "parse_chain (Suc fuel) nxt ctl off =
     (case off of
        None \<Rightarrow> Some (Inr [])
      | Some off0 \<Rightarrow>
          (case try_parse_single (Some (drop off0 ctl)) of
             Inl e \<Rightarrow> Some (Inl e)
           | Inr msg \<Rightarrow> map_option (map_ok (\<lambda>msgs. msg # msgs)) (parse_chain fuel nxt ctl (nxt ctl off0))))"

definition try_parse_from_msghdr ::
  "(u8 list \<Rightarrow> nat option) \<Rightarrow> (u8 list \<Rightarrow> nat \<Rightarrow> nat option) \<Rightarrow> u8 list
    \<Rightarrow> (parse_error failure + control_message list) option" where
  "try_parse_from_msghdr fst_hdr nxt_hdr ctl =
     (case fst_hdr ctl of
        None \<Rightarrow> Some (Inl (Fail NullPointer))
      | Some off0 \<Rightarrow> parse_chain (Suc (length ctl)) nxt_hdr ctl (Some off0))"

end
