(* ===== verification/Control_Props.thy ===== *)
theory Control_Props
  imports Control_Levels
begin

text \<open>
  Properties of control messages. The locale \<open>control_codec\<close> states what a level promises to the
  code that writes and reads control buffers: a message that loops is prepared, and parsing what was
  prepared gives it back. Each level is an interpretation, and so is their dispatch, on whose facts
  the buffer round trip rests.
\<close>

section \<open>The interface of a level\<close>

locale control_codec =
  fixes prepare :: "'a \<Rightarrow> 'e failure + raw_out"
    and parse :: "raw_in \<Rightarrow> 'f failure + 'a"
    and loops :: "'a \<Rightarrow> bool"
    and echo :: "'a \<Rightarrow> 'a"
  assumes prepared: "loops x \<Longrightarrow> \<exists>raw. prepare x = Inr raw \<and> length (out_payload raw) + 24 \<le> 2 ^ 32"
    and parsed: "\<lbrakk>loops x; prepare x = Inr raw\<rbrakk> \<Longrightarrow>
      parse \<lparr>in_level = out_level raw, in_type = out_type raw, in_data_len = length (out_payload raw),
             in_data = out_payload raw @ rest\<rparr> = Inr (echo x)"
begin

lemma looped:
  assumes "loops x"
  obtains raw where "prepare x = Inr raw" "length (out_payload raw) + 24 \<le> 2 ^ 32"
    "\<And>rest. parse \<lparr>in_level = out_level raw, in_type = out_type raw, in_data_len = length (out_payload raw),
             in_data = out_payload raw @ rest\<rparr> = Inr (echo x)"
  using assms prepared parsed by blast

lemma all_prepared:
  "list_all loops xs \<Longrightarrow> map_result (\<lambda>x. map_ok g (prepare x)) xs = Inr (map (\<lambda>x. g (projr (prepare x))) xs)"
proof (rule map_result_Inr)
  fix x assume "list_all loops xs" "x \<in> set xs"
  then have "loops x" by (simp add: list_all_iff)
  then obtain raw where "prepare x = Inr raw" by (rule looped)
  then show "map_ok g (prepare x) = Inr (g (projr (prepare x)))" by simp
qed

end

locale control_level = control_codec +
  fixes level :: i32
  assumes level: "prepare x = Inr raw \<Longrightarrow> out_level raw = level"

section \<open>Reading back integers\<close>

lemma read_front [simp]:
  "read_u32 0 (le_bytes 4 (w :: u32) @ rest) = w" "read_u32 0 (le_bytes 4 w) = w"
  by (simp_all add: read_u32_def)

lemma read_u32_skip: "n \<le> length xs \<Longrightarrow> read_u32 n (xs @ ys) = read_u32 0 (drop n xs @ ys)"
  by (simp add: read_u32_def)

lemma read_u64_front [simp]:
  "read_u64 0 (le_bytes 8 (w :: u64) @ rest) = w" "read_u64 0 (le_bytes 8 w) = w"
  by (simp_all add: read_u64_def)

lemma read_u32_app [simp]:
  "read_u32 4 (le_bytes 4 (v :: u32) @ rest) = read_u32 0 rest"
  "read_u32 8 (le_bytes 8 (u :: u64) @ rest) = read_u32 0 rest"
  "read_u32 12 (le_bytes 8 (u :: u64) @ le_bytes 4 v @ rest) = read_u32 0 rest"
  "read_u32 8 (le_bytes 4 v @ le_bytes 4 (w :: u32) @ rest) = read_u32 0 rest"
  "read_u64 8 (le_bytes 8 u @ rest) = read_u64 0 rest"
  by (simp_all add: read_u32_def read_u64_def)

lemma chunks_le_bytes:
  "chunks 4 (length fds) (concat (map (le_bytes 4) fds) @ rest) = map (le_bytes 4) (fds :: u32 list)"
  by (induction fds) auto

lemma length_concat_le_bytes: "length (concat (map (le_bytes 4) (fds :: u32 list))) = 4 * length fds"
  by (induction fds) auto

section \<open>Socket level\<close>

fun socket_loops :: "socket_level_type \<Rightarrow> bool" where
  "socket_loops (Rights fds) \<longleftrightarrow> 4 * length fds + 24 \<le> 2 ^ 32"
| "socket_loops (Credentials c) \<longleftrightarrow> True"
| "socket_loops (Timestamp t) \<longleftrightarrow> 0 \<le> sint (st_secs t) \<and> unat (st_nanos t) < 1000000000"
| "socket_loops (DetailedTimestamp s h) \<longleftrightarrow> False"

text \<open>A timestamp comes back with whole microseconds.\<close>

fun socket_back :: "socket_level_type \<Rightarrow> socket_level_type" where
  "socket_back (Timestamp t) = Timestamp (t\<lparr>st_nanos := st_nanos t div 1000 * 1000\<rparr>)"
| "socket_back m = m"

lemma unat_nonneg_i64:
  assumes "0 \<le> sint (w :: i64)"
  shows "unat w < 2 ^ 63"
proof -
  have "\<not> bit w 63" using bit_last_iff [of w] assms by simp
  then have "take_bit 63 w = w"
    by (intro bit_word_eqI) (auto simp: bit_take_bit_iff less_Suc_eq numeral_nat(7) eval_nat_numeral)
  then have "unat w = take_bit 63 (unat w)" by (metis unsigned_take_bit_eq)
  then show ?thesis by (metis take_bit_nat_less_exp)
qed

lemma timeval_back:
  assumes "0 \<le> sint (st_secs t)" "unat (st_nanos t) < 1000000000"
  shows "system_time_of_timeval (le_bytes 8 (st_secs t) @ le_bytes 8 (ucast (st_nanos t div 1000) :: i64) @ rest)
    = Inr (t\<lparr>st_nanos := st_nanos t div 1000 * 1000\<rparr>)"
proof -
  have d: "unat (st_nanos t div 1000) = unat (st_nanos t) div 1000" by (simp add: unat_div)
  have u: "(ucast (ucast (st_nanos t div 1000) :: i64) :: u32) = st_nanos t div 1000"
    by (rule bit_word_eqI) (simp add: bit_ucast_iff)
  have "unat (st_nanos t) div 1000 * 1000 < 1000000000" using assms(2) by linarith
  then have m: "unat (st_nanos t div 1000 * 1000) = unat (st_nanos t) div 1000 * 1000"
    by (simp add: unat_mult_lem [THEN iffD1] d)
  have s: "unat (st_secs t) < 2 ^ 63" using assms(1) by (rule unat_nonneg_i64)
  have z: "unat (st_nanos t) div 1000 * 1000 div 1000000000 = 0" using assms(2) by simp
  have w: "(st_nanos t div 1000 * 1000) mod 1000000000 = st_nanos t div 1000 * 1000"
    using z by (simp add: word_unat_eq_iff unat_mod m mod_less_divisor div_eq_0_iff)
  show ?thesis
    using s z w assms(2) by (simp add: system_time_of_timeval_def Let_def u d m system_time_of_def)
qed

lemma concat_read_fds: "map (read_u32 0) (map (le_bytes 4) (fds :: u32 list)) = fds"
  by (induction fds) auto

lemma fill_msg_out_simps [simp]:
  "out_level (fill_msg_out m t bs) = out_level m" "out_type (fill_msg_out m t bs) = t"
  "out_payload (fill_msg_out m t bs) = bs"
  by (simp_all add: fill_msg_out_def)

lemma lengths [simp]:
  "length (bytes_of_ucred c) = 12"
  "bytes_of_timeval t = Inr b \<Longrightarrow> length b = 16"
  by (auto simp: bytes_of_ucred_def bytes_of_timeval_def split: if_splits)

lemma single_exact [simp]:
  "length bs = n \<Longrightarrow> from_msg_in_single n \<lparr>in_level = l, in_type = t, in_data_len = n, in_data = bs @ rest\<rparr> = Inr bs"
  by (simp add: from_msg_in_single_def)

lemma ucred_back: "ucred_of_bytes (bytes_of_ucred c) = c"
  by (simp add: ucred_of_bytes_def bytes_of_ucred_def read_u32_def)

lemma socket_parsed:
  assumes "socket_loops x" "prepare_socket x = Inr raw"
  shows "parse_socket \<lparr>in_level = out_level raw, in_type = out_type raw,
      in_data_len = length (out_payload raw), in_data = out_payload raw @ rest\<rparr> = Inr (socket_back x)"
proof (cases x)
  case (Rights fds)
  then have raw: "out_type raw = SCM_RIGHTS" "out_payload raw = concat (map (le_bytes 4) fds)"
    using assms(2) by auto
  have "from_msg_in_multi 4 (length fds) \<lparr>in_level = out_level raw, in_type = SCM_RIGHTS,
      in_data_len = 4 * length fds, in_data = concat (map (le_bytes 4) fds) @ rest\<rparr> = Inr (map (le_bytes 4) fds)"
    by (simp add: from_msg_in_multi_def length_concat_le_bytes chunks_le_bytes)
  then show ?thesis
    using Rights raw by (simp add: parse_socket_def length_concat_le_bytes concat_read_fds comp_def)
next
  case (Credentials c)
  then show ?thesis using assms by (auto simp: parse_socket_def ucred_back)
next
  case (Timestamp t)
  define b :: "u8 list" where "b = le_bytes 8 (st_secs t) @ le_bytes 8 (ucast (st_nanos t div 1000) :: i64)"
  have len: "length b = 16" by (simp add: b_def)
  have raw: "out_type raw = SCM_TIMESTAMP" "out_payload raw = b"
    using assms Timestamp by (auto simp: bytes_of_timeval_def b_def)
  have "(system_time_of_timeval b :: parse_socket_error failure + system_time)
      = Inr (t\<lparr>st_nanos := st_nanos t div 1000 * 1000\<rparr>)"
    using timeval_back [of t "[]"] assms(1) Timestamp by (simp add: b_def)
  then show ?thesis
    using Timestamp raw len by (simp add: parse_socket_def)
next
  case (DetailedTimestamp s h)
  then show ?thesis using assms by simp
qed

lemma socket_prepared:
  "socket_loops x \<Longrightarrow> \<exists>raw. prepare_socket x = Inr raw \<and> length (out_payload raw) + 24 \<le> 2 ^ 32"
  by (cases x) (auto simp: length_concat_le_bytes bytes_of_timeval_def)

lemma socket_level: "prepare_socket x = Inr raw \<Longrightarrow> out_level raw = SOL_SOCKET"
  by (cases x) (auto simp: bind_result_Inr_iff)

interpretation socket: control_level prepare_socket parse_socket socket_loops socket_back SOL_SOCKET
  by unfold_locales (use socket_prepared socket_parsed socket_level in blast)+

section \<open>IPv4 and IPv6 levels\<close>

fun ipv4_loops :: "ip_v4_level_type \<Rightarrow> bool" where
  "ipv4_loops (V4PacketInfo p) \<longleftrightarrow>
     (case (destination p, specific_destination p) of
        (V4 a, Some (V4 s)) \<Rightarrow> length a = 4 \<and> length s = 4
      | _ \<Rightarrow> False)"
| "ipv4_loops (TimeToLive ttl) \<longleftrightarrow> True"

fun ipv6_loops :: "ip_v6_level_type \<Rightarrow> bool" where
  "ipv6_loops (V6PacketInfo p) \<longleftrightarrow> (case destination p of V6 a \<Rightarrow> length a = 16 | V4 _ \<Rightarrow> False)"
| "ipv6_loops (HopLimit h) \<longleftrightarrow> True"
| "ipv6_loops (Class c) \<longleftrightarrow> True"

text \<open>The IPv6 structure has no specific destination; a class comes back as its byte reads.\<close>

fun ipv6_back :: "ip_v6_level_type \<Rightarrow> ip_v6_level_type" where
  "ipv6_back (V6PacketInfo p) = V6PacketInfo (p\<lparr>specific_destination := None\<rparr>)"
| "ipv6_back (Class c) = Class (traffic_class_of_u8 (u8_of_traffic_class c))"
| "ipv6_back m = m"

lemma pktinfo_back:
  assumes "length a = 4" "length s = 4"
  shows "packet_info_of_in_pktinfo (in_pktinfo_of_bytes
      (bytes_of_pktinfo (PktV4 i (of_be_bytes s) (of_be_bytes a)))) =
    \<lparr>interface_index = i, destination = V4 a, specific_destination = Some (V4 s)\<rparr>"
  using assms by (simp add: in_pktinfo_of_bytes_def read_u32_def)

lemma ipv4_parsed:
  assumes "ipv4_loops x" "prepare_ipv4 x = Inr raw"
  shows "parse_ipv4 \<lparr>in_level = out_level raw, in_type = out_type raw,
      in_data_len = length (out_payload raw), in_data = out_payload raw @ rest\<rparr> = Inr x"
proof (cases x)
  case (V4PacketInfo p)
  then obtain a s where a: "destination p = V4 a" "specific_destination p = Some (V4 s)" "length a = 4" "length s = 4"
    using assms(1) by (auto split: ip_address.splits option.splits)
  define b where "b = bytes_of_pktinfo (PktV4 (interface_index p) (of_be_bytes s) (of_be_bytes a))"
  have len: "length b = 12" by (simp add: b_def)
  have raw: "out_type raw = IP_PKTINFO" "out_payload raw = b"
    using assms(2) V4PacketInfo a by (auto simp: in_pktinfo_of_packet_info_def b_def)
  have "packet_info_of_in_pktinfo (in_pktinfo_of_bytes b) = p"
    unfolding b_def using pktinfo_back [OF a(3,4)] a by simp
  then show ?thesis using V4PacketInfo raw len by (simp add: parse_ipv4_def)
next
  case (TimeToLive ttl)
  then show ?thesis using assms by (auto simp: parse_ipv4_def)
qed

lemma ipv4_prepared:
  "ipv4_loops x \<Longrightarrow> \<exists>raw. prepare_ipv4 x = Inr raw \<and> length (out_payload raw) + 24 \<le> 2 ^ 32"
  by (cases x) (auto simp: in_pktinfo_of_packet_info_def split: ip_address.splits option.splits)

lemma ipv4_level: "prepare_ipv4 x = Inr raw \<Longrightarrow> out_level raw = IPPROTO_IP"
  by (cases x) (auto simp: bind_result_Inr_iff split: lib_c_pkt_info.splits, metis lib_c_pkt_info.exhaust)

interpretation ipv4: control_level prepare_ipv4 parse_ipv4 ipv4_loops "\<lambda>x. x" IPPROTO_IP
  by unfold_locales (use ipv4_prepared ipv4_parsed ipv4_level in blast)+

lemma ipv6_parsed:
  assumes "ipv6_loops x" "prepare_ipv6 x = Inr raw"
  shows "parse_ipv6 \<lparr>in_level = out_level raw, in_type = out_type raw,
      in_data_len = length (out_payload raw), in_data = out_payload raw @ rest\<rparr> = Inr (ipv6_back x)"
proof (cases x)
  case (V6PacketInfo p)
  then obtain a where a: "destination p = V6 a" "length a = 16"
    using assms(1) by (auto split: ip_address.splits)
  then show ?thesis
    using assms(2) V6PacketInfo
    by (auto simp: in_pktinfo_of_packet_info_def parse_ipv6_def in6_pktinfo_of_bytes_def read_u32_def
        from_msg_in_single_def)
next
  case (HopLimit h)
  then show ?thesis using assms by (auto simp: parse_ipv6_def)
next
  case (Class c)
  have "(ucast (ucast b :: i32) :: u8) = b" for b :: u8 by (rule bit_word_eqI) (simp add: bit_ucast_iff)
  with Class show ?thesis using assms by (auto simp: parse_ipv6_def)
qed

lemma ipv6_prepared:
  "ipv6_loops x \<Longrightarrow> \<exists>raw. prepare_ipv6 x = Inr raw \<and> length (out_payload raw) + 24 \<le> 2 ^ 32"
  by (cases x) (auto simp: in_pktinfo_of_packet_info_def split: ip_address.splits)

lemma ipv6_level: "prepare_ipv6 x = Inr raw \<Longrightarrow> out_level raw = IPPROTO_IPV6"
  by (cases x) (auto simp: bind_result_Inr_iff split: lib_c_pkt_info.splits, metis lib_c_pkt_info.exhaust)

interpretation ipv6: control_level prepare_ipv6 parse_ipv6 ipv6_loops ipv6_back IPPROTO_IPV6
  by unfold_locales (use ipv6_prepared ipv6_parsed ipv6_level in blast)+

section \<open>Messages of any level\<close>

fun message_loops :: "control_message \<Rightarrow> bool" where
  "message_loops (Socket l) = socket_loops l"
| "message_loops (IpV4 l) = ipv4_loops l"
| "message_loops (IpV6 l) = ipv6_loops l"
| "message_loops (Tls _) = False"

fun message_back :: "control_message \<Rightarrow> control_message" where
  "message_back (Socket l) = Socket (socket_back l)"
| "message_back (IpV6 l) = IpV6 (ipv6_back l)"
| "message_back m = m"

lemma message_prepared:
  assumes "message_loops x"
  shows "\<exists>raw. prepare_control_message x = Inr raw \<and> length (out_payload raw) + 24 \<le> 2 ^ 32"
proof (cases x)
  case (Socket l)
  with assms obtain raw where "prepare_socket l = Inr raw" "length (out_payload raw) + 24 \<le> 2 ^ 32"
    by (auto elim: socket.looped)
  with Socket show ?thesis by simp
next
  case (IpV4 l)
  with assms obtain raw where "prepare_ipv4 l = Inr raw" "length (out_payload raw) + 24 \<le> 2 ^ 32"
    by (auto elim: ipv4.looped)
  with IpV4 show ?thesis by simp
next
  case (IpV6 l)
  with assms obtain raw where "prepare_ipv6 l = Inr raw" "length (out_payload raw) + 24 \<le> 2 ^ 32"
    by (auto elim: ipv6.looped)
  with IpV6 show ?thesis by simp
qed (use assms in simp)

lemma map_err_Inr [simp]: "map_err f r = Inr x \<longleftrightarrow> r = Inr x"
  by (cases r) auto

lemma message_parsed:
  assumes "message_loops x" "prepare_control_message x = Inr raw"
  shows "parse_control_message \<lparr>in_level = out_level raw, in_type = out_type raw,
      in_data_len = length (out_payload raw), in_data = out_payload raw @ rest\<rparr> = Inr (message_back x)"
proof (cases x)
  case (Socket l)
  with assms have "prepare_socket l = Inr raw" "socket_loops l" by auto
  with Socket socket.level socket.parsed show ?thesis by (simp add: parse_control_message_def)
next
  case (IpV4 l)
  with assms have "prepare_ipv4 l = Inr raw" "ipv4_loops l" by auto
  with IpV4 ipv4.level ipv4.parsed show ?thesis by (simp add: parse_control_message_def)
next
  case (IpV6 l)
  with assms have "prepare_ipv6 l = Inr raw" "ipv6_loops l" by auto
  with IpV6 ipv6.level ipv6.parsed show ?thesis by (simp add: parse_control_message_def)
qed (use assms in simp)

interpretation message: control_codec prepare_control_message parse_control_message message_loops message_back
  by unfold_locales (use message_prepared message_parsed in blast)+

section \<open>Control buffers\<close>

lemma cmsg_align_bounds: "n \<le> cmsg_align n" "cmsg_align n < n + 8"
  by (simp_all add: cmsg_align_def)

lemma cmsg_align_fits: "n + 24 \<le> 2 ^ 32 \<Longrightarrow> 16 + cmsg_align n < 2 ^ 32"
  unfolding cmsg_align_def by presburger

text \<open>A payload that leaves room for a header in a \<open>c_uint\<close> has its true length and space.\<close>

lemma cmsg_len_fits: "n + 24 \<le> 2 ^ 32 \<Longrightarrow> unat (cmsg_len (of_nat n)) = 16 + n"
  by (simp add: cmsg_len_def unat_word_ariths(1) unat_of_nat)

lemma cmsg_space_fits: "n + 24 \<le> 2 ^ 32 \<Longrightarrow> unat (cmsg_space (of_nat n)) = 16 + cmsg_align n"
  using cmsg_align_fits [of n] unfolding cmsg_space_def unat_of_nat by simp

lemma length_cmsg_bytes [simp]: "length (cmsg_bytes raw) = 16 + length (out_payload raw)"
  by (simp add: cmsg_bytes_def)

text \<open>The buffer that the writes leave: each message with the padding behind it.\<close>

definition cmsg_slot :: "(nat \<Rightarrow> u8) \<Rightarrow> nat \<Rightarrow> raw_out \<Rightarrow> u8 list" where
  "cmsg_slot fresh off raw = cmsg_bytes raw @ map fresh [off + 16 + length (out_payload raw)..<off + out_space raw]"

fun cmsg_slots :: "(nat \<Rightarrow> u8) \<Rightarrow> nat \<Rightarrow> raw_out list \<Rightarrow> u8 list" where
  "cmsg_slots fresh off [] = []"
| "cmsg_slots fresh off (raw # raws) = cmsg_slot fresh off raw @ cmsg_slots fresh (off + out_space raw) raws"

definition out_fits :: "raw_out \<Rightarrow> bool" where
  "out_fits raw \<longleftrightarrow> length (out_payload raw) + 24 \<le> 2 ^ 32"

lemma out_space_fits: "out_fits raw \<Longrightarrow> out_space raw = 16 + cmsg_align (length (out_payload raw))"
  using cmsg_space_fits [of "length (out_payload raw)"] by (simp add: out_space_def out_fits_def)

lemma length_cmsg_slot: "out_fits raw \<Longrightarrow> length (cmsg_slot fresh off raw) = out_space raw"
  using cmsg_align_bounds(1) [of "length (out_payload raw)"] by (simp add: cmsg_slot_def out_space_fits)

lemma write_cmsgs_slots:
  "list_all out_fits raws \<Longrightarrow> length pre = off \<Longrightarrow> size_all = sum_list (map out_space raws) \<Longrightarrow>
   (write_cmsgs off (map (\<lambda>raw. (raw, out_space raw)) raws) (pre @ map fresh [off..<off + size_all])
      :: 'e failure + u8 list) = Inr (pre @ cmsg_slots fresh off raws)"
proof (induction raws arbitrary: pre off size_all)
  case (Cons raw raws)
  let ?n = "16 + length (out_payload raw)" and ?t = "sum_list (map out_space raws)"
  have n: "?n \<le> out_space raw"
    using Cons.prems(1) cmsg_align_bounds(1) [of "length (out_payload raw)"] by (simp add: out_space_fits)
  have cut: "[off..<off + size_all] = [off..<off + ?n] @ [off + ?n..<off + out_space raw] @
      [off + out_space raw..<off + out_space raw + ?t]"
    using n Cons.prems(3) upt_add_eq_append [of off "off + ?n" "size_all - ?n"]
      upt_add_eq_append [of "off + ?n" "off + out_space raw" ?t] by (simp add: add.assoc)
  have "(write_at off (cmsg_bytes raw) (pre @ map fresh [off..<off + size_all]) :: 'e failure + u8 list) =
      Inr ((pre @ cmsg_slot fresh off raw) @ map fresh [off + out_space raw..<off + out_space raw + ?t])"
    using n Cons.prems(2,3) unfolding write_at_def cut by (simp add: cmsg_slot_def add.assoc)
  moreover have "length (pre @ cmsg_slot fresh off raw) = off + out_space raw"
    using Cons.prems(1,2) by (simp add: length_cmsg_slot)
  ultimately show ?case
    using Cons.IH [of "pre @ cmsg_slot fresh off raw" "off + out_space raw" ?t] Cons.prems(1) by simp
qed simp

lemma parse_written:
  assumes "message_loops x" "prepare_control_message x = Inr raw" "out_fits raw"
  shows "try_parse_single (Some (cmsg_slot fresh off raw @ tail)) = Inr (message_back x)"
    and "unat (read_u64 0 (cmsg_slot fresh off raw @ tail)) = 16 + length (out_payload raw)"
proof -
  let ?n = "length (out_payload raw)"
  have l: "unat (cmsg_len (of_nat ?n)) = 16 + ?n" using assms(3) by (simp add: out_fits_def cmsg_len_fits)
  have "unat (ucast (cmsg_len (of_nat ?n)) :: u64) = unat (cmsg_len (of_nat ?n))"
    using unsigned_less [of "cmsg_len (of_nat ?n)", where 'a = nat] by (simp add: unsigned_ucast_eq take_bit_nat_eq_self)
  then show len: "unat (read_u64 0 (cmsg_slot fresh off raw @ tail)) = 16 + ?n"
    using l by (simp add: cmsg_slot_def cmsg_bytes_def)
  define pad where "pad = map fresh [off + 16 + ?n..<off + out_space raw] @ tail"
  have b: "cmsg_slot fresh off raw @ tail = le_bytes 8 (ucast (cmsg_len (of_nat ?n)) :: u64) @
      le_bytes 4 (out_level raw) @ le_bytes 4 (out_type raw) @ out_payload raw @ pad"
    by (simp add: cmsg_slot_def cmsg_bytes_def pad_def)
  have "read_u32 8 (cmsg_slot fresh off raw @ tail) = out_level raw"
    "read_u32 12 (cmsg_slot fresh off raw @ tail) = out_type raw"
    "drop 16 (cmsg_slot fresh off raw @ tail) = out_payload raw @ pad"
    "16 \<le> length (cmsg_slot fresh off raw @ tail)"
    unfolding b by simp_all
  then show "try_parse_single (Some (cmsg_slot fresh off raw @ tail)) = Inr (message_back x)"
    using len message.parsed [OF assms(1,2), of pad] cmsg_len_fits [of 0]
    by (simp add: try_parse_single_def Let_def)
qed

lemma parse_slots:
  "list_all message_loops msgs \<Longrightarrow> \<exists>raws.
     map_result (\<lambda>m. map_ok (\<lambda>raw. (raw, out_space raw)) (prepare_control_message m)) msgs =
       Inr (map (\<lambda>raw. (raw, out_space raw)) raws) \<and>
     list_all out_fits raws \<and> map (\<lambda>m. prepare_control_message m) msgs = map Inr raws \<and>
     (\<forall>off tail. try_parse_from_slice (cmsg_slots fresh off raws @ tail) =
        map_option (map_ok (\<lambda>ms. map message_back msgs @ ms)) (try_parse_from_slice tail))"
proof (induction msgs)
  case Nil
  have "map_ok (\<lambda>ms. ms) r = r" for r :: "parse_error failure + control_message list" by (cases r) simp_all
  then show ?case by (intro exI [of _ "[]"]) (simp add: option.map_ident)
next
  case (Cons m msgs)
  from Cons.prems obtain raw where raw: "prepare_control_message m = Inr raw" "out_fits raw"
    by (auto simp: out_fits_def elim: message.looped)
  from Cons obtain raws where raws: "map_result (\<lambda>m. map_ok (\<lambda>raw. (raw, out_space raw)) (prepare_control_message m)) msgs =
      Inr (map (\<lambda>raw. (raw, out_space raw)) raws)"
    "list_all out_fits raws" "map (\<lambda>m. prepare_control_message m) msgs = map Inr raws"
    "\<forall>off tail. try_parse_from_slice (cmsg_slots fresh off raws @ tail) =
        map_option (map_ok (\<lambda>ms. map message_back msgs @ ms)) (try_parse_from_slice tail)"
    by auto
  have "try_parse_from_slice (cmsg_slots fresh off (raw # raws) @ tail) =
      map_option (map_ok (\<lambda>ms. map message_back (m # msgs) @ ms)) (try_parse_from_slice tail)" for off tail
  proof -
    let ?rest = "cmsg_slots fresh (off + out_space raw) raws @ tail"
    have "length (cmsg_slot fresh off raw) \<noteq> 0" by (simp add: cmsg_slot_def)
    then have ne: "cmsg_slot fresh off raw \<noteq> []" by auto
    note w = parse_written [OF _ raw, of fresh off ?rest]
    have "unat (cmsg_space (of_nat (length (out_payload raw)))) = length (cmsg_slot fresh off raw)"
      using length_cmsg_slot [OF raw(2)] by (simp add: out_space_def)
    then have "try_parse_from_slice (cmsg_slot fresh off raw @ ?rest) =
        Option.bind (try_parse_from_slice ?rest) (\<lambda>r. Some (map_ok (\<lambda>msgs. message_back m # msgs) r))"
      using w Cons.prems ne cmsg_len_fits [of 0]
      by (subst try_parse_from_slice.simps) (simp add: Let_def)
    then show ?thesis
      using raws(4) by (cases "try_parse_from_slice tail") (auto simp: map_ok_def split: sum.split)
  qed
  with raw raws(1-3) show ?case by (intro exI [of _ "raw # raws"]) simp
qed

text \<open>The bytes that the messages take in a control buffer.\<close>

definition control_size :: "control_message list \<Rightarrow> nat" where
  "control_size msgs =
     sum_list (map (\<lambda>m. case prepare_control_message m of Inl _ \<Rightarrow> 0 | Inr raw \<Rightarrow> out_space raw) msgs)"

lemma control_size_raws:
  "map (\<lambda>m. prepare_control_message m) msgs = map Inr raws \<Longrightarrow> control_size msgs = sum_list (map out_space raws)"
  by (induction msgs arbitrary: raws) (auto simp: control_size_def)

lemma prepared_slots:
  assumes "list_all message_loops msgs" "control_size msgs < 2 ^ 63"
  shows "\<exists>bytes. try_prepare_multi fresh msgs = Inr bytes \<and>
    (\<forall>tail. try_parse_from_slice (bytes @ tail) =
        map_option (map_ok (\<lambda>ms. map message_back msgs @ ms)) (try_parse_from_slice tail))"
proof -
  obtain raws where raws: "map_result (\<lambda>m. map_ok (\<lambda>raw. (raw, out_space raw)) (prepare_control_message m)) msgs =
      Inr (map (\<lambda>raw. (raw, out_space raw)) raws)"
    "list_all out_fits raws" "map (\<lambda>m. prepare_control_message m) msgs = map Inr raws"
    "\<forall>off tail. try_parse_from_slice (cmsg_slots fresh off raws @ tail) =
        map_option (map_ok (\<lambda>ms. map message_back msgs @ ms)) (try_parse_from_slice tail)"
    using parse_slots [OF assms(1)] by blast
  have "try_prepare_multi fresh msgs = Inr (cmsg_slots fresh 0 raws)"
    using raws(1) assms(2) control_size_raws [OF raws(3)] write_cmsgs_slots [OF raws(2), of "[]" 0 "control_size msgs" fresh]
    by (simp add: try_prepare_multi_def Let_def comp_def)
  with raws(4) show ?thesis by blast
qed

text \<open>C12. A list of control messages that are both sent and received, of any length that fits in memory, is written
  into a control buffer, whatever the fresh memory held, and parsing that buffer ends and gives the same messages in
  order, each up to what its C structure can carry. These messages are file descriptors, as many as fit in the 32 bits
  of \<open>CMSG_SPACE\<close>, credentials, timestamps from the epoch on, packet information, TTL, hop limit and traffic class; a
  TLS record type is sent under another type than it is received.\<close>

theorem control_buffer_roundtrip:
  assumes "list_all message_loops msgs" "control_size msgs < 2 ^ 63"
  shows "\<exists>bytes. try_prepare_multi fresh msgs = Inr bytes \<and>
    try_parse_from_slice bytes = Some (Inr (map message_back msgs))"
proof -
  obtain bytes where "try_prepare_multi fresh msgs = Inr bytes"
    "try_parse_from_slice (bytes @ []) =
        map_option (map_ok (\<lambda>ms. map message_back msgs @ ms)) (try_parse_from_slice [])"
    using prepared_slots [OF assms, of fresh] by blast
  moreover have "try_parse_from_slice [] = Some (Inr [])" by (simp add: try_parse_from_slice.simps)
  ultimately show ?thesis by simp
qed

theorem control_buffer_roundtrip_witness:
  "\<exists>bytes. try_prepare_multi (\<lambda>_. 170)
      [Socket (Rights [3, 4, 5]), IpV4 (TimeToLive 64),
       Socket (Timestamp \<lparr>st_secs = 1678886400, st_nanos = 123456789\<rparr>)] = Inr bytes \<and>
    try_parse_from_slice bytes = Some (Inr
      [Socket (Rights [3, 4, 5]), IpV4 (TimeToLive 64),
       Socket (Timestamp \<lparr>st_secs = 1678886400, st_nanos = 123456000\<rparr>)])"
proof -
  let ?msgs = "[Socket (Rights [3, 4, 5]), IpV4 (TimeToLive 64),
       Socket (Timestamp \<lparr>st_secs = 1678886400, st_nanos = 123456789\<rparr>)]"
  have "control_size ?msgs < 2 ^ 63"
    by (simp add: control_size_def out_space_def bytes_of_timeval_def cmsg_space_def cmsg_align_def)
  then show ?thesis using control_buffer_roundtrip [of ?msgs "\<lambda>_. 170"] by simp
qed

text \<open>A message is only parsed when its data lie in the slice, so that in a slice of less than 4 GiB no space wraps to
  zero and the parser gets to its end.\<close>

lemma from_msg_in_single_length: "from_msg_in_single n msg = Inr b \<Longrightarrow> in_data_len msg \<le> length (in_data msg)"
  by (auto simp: from_msg_in_single_def split: if_splits)

lemma from_msg_in_multi_length: "from_msg_in_multi n k msg = Inr bs \<Longrightarrow> in_data_len msg \<le> length (in_data msg)"
  by (auto simp: from_msg_in_multi_def split: if_splits)

lemma parsed_in_slice: "parse_control_message msg = Inr m \<Longrightarrow> in_data_len msg \<le> length (in_data msg)"
proof -
  assume p: "parse_control_message msg = Inr m"
  have "parse_socket msg = Inr l \<Longrightarrow> ?thesis" for l
    by (auto simp: parse_socket_def bind_result_Inr_iff map_err_Inr split: if_splits
        dest: from_msg_in_single_length from_msg_in_multi_length)
  moreover have "parse_ipv4 msg = Inr l \<Longrightarrow> ?thesis" for l
    by (auto simp: parse_ipv4_def bind_result_Inr_iff map_err_Inr split: if_splits dest: from_msg_in_single_length)
  moreover have "parse_ipv6 msg = Inr l \<Longrightarrow> ?thesis" for l
    by (auto simp: parse_ipv6_def bind_result_Inr_iff map_err_Inr split: if_splits dest: from_msg_in_single_length)
  moreover have "parse_tls msg = Inr l \<Longrightarrow> ?thesis" for l
    by (auto simp: parse_tls_def bind_result_Inr_iff map_err_Inr split: if_splits dest: from_msg_in_single_length)
  ultimately show ?thesis
    using p unfolding parse_control_message_def
    by (cases "parse_socket msg"; cases "parse_ipv4 msg"; cases "parse_ipv6 msg"; cases "parse_tls msg")
      (simp_all split: if_splits)
qed

theorem slice_parse_returns: "length cmsgs + 8 \<le> 2 ^ 32 \<Longrightarrow> \<exists>r. try_parse_from_slice cmsgs = Some r"
proof (induction "length cmsgs" arbitrary: cmsgs rule: less_induct)
  case less
  show ?case
  proof (cases "try_parse_single (Some cmsgs)")
    case (Inl e)
    then show ?thesis by (subst try_parse_from_slice.simps) simp
  next
    case (Inr m)
    let ?n = "unat (read_u64 0 cmsgs) - unat (cmsg_len 0)"
    have l: "16 \<le> length cmsgs" using try_parse_single_length [OF Inr] .
    moreover have "?n \<le> length (drop 16 cmsgs)"
      using Inr by (auto simp: try_parse_single_def Let_def split: if_splits dest: parsed_in_slice)
    ultimately have "?n + 24 \<le> 2 ^ 32" using less.prems by simp
    then have "length (drop (unat (cmsg_space (of_nat ?n))) cmsgs) < length cmsgs"
      using l by (simp only: cmsg_space_fits length_drop)
    moreover from this have "length (drop (unat (cmsg_space (of_nat ?n))) cmsgs) + 8 \<le> 2 ^ 32"
      using less.prems by linarith
    ultimately obtain r where "try_parse_from_slice (drop (unat (cmsg_space (of_nat ?n))) cmsgs) = Some r"
      using less.hyps by blast
    with Inr show ?thesis by (subst try_parse_from_slice.simps) (simp add: Let_def)
  qed
qed

text \<open>A record type of TLS that was written is not read back: it is refused as a type that is only sent.\<close>

theorem tls_record_not_read_back:
  "\<exists>bytes. try_prepare_multi fresh [Tls (SetRecordType r)] = Inr bytes \<and>
    try_parse_from_slice bytes = Some (Inl (Fail (ParseTlsError (TlsTypeError
      (InvalidControlMessageTypeForLevel TLS_SET_RECORD_TYPE SOL_TLS)))))"
  by (cases r)
    (simp_all add: try_prepare_multi_def out_space_def cmsg_space_def cmsg_align_def write_at_def cmsg_bytes_def cmsg_len_def
      try_parse_from_slice.simps try_parse_single_def parse_control_message_def parse_tls_def Let_def)

text \<open>File descriptors whose bytes do not fit with their header in the 32 bits of \<open>CMSG_SPACE\<close> are written past the end
  of the buffer made for them.\<close>

theorem oversized_rights_undefined:
  assumes "2 ^ 32 < 4 * length fds + 24"
  shows "try_prepare fresh (Socket (Rights fds)) = Inl Undefined"
proof -
  define n where "n = 4 * length fds"
  have "(16 + cmsg_align (n mod 2 ^ 32)) mod 2 ^ 32 < 16 + n"
  proof (cases "n < 2 ^ 32")
    case True
    moreover have big: "2 ^ 32 < n + 24" using assms by (simp add: n_def)
    ultimately have "2 ^ 32 \<le> 16 + cmsg_align n" unfolding cmsg_align_def by simp
    then obtain k where k: "16 + cmsg_align n = 2 ^ 32 + k" using le_Suc_ex by blast
    then have "k < 24" using True cmsg_align_bounds(2) [of n] by simp
    moreover have "(2 ^ 32 + k) mod 2 ^ 32 = k" using \<open>k < 24\<close> by (simp add: mod_add_self1)
    ultimately show ?thesis using True k big by simp
  next
    case False
    then have "n mod 2 ^ 32 \<le> n - 2 ^ 32" by (simp add: le_mod_geq)
    with False have "n mod 2 ^ 32 + 8 \<le> n" by simp
    then have "16 + cmsg_align (n mod 2 ^ 32) < 16 + n" using cmsg_align_bounds(2) [of "n mod 2 ^ 32"] by linarith
    then show ?thesis by (meson le_less_trans mod_less_eq_dividend)
  qed
  moreover have "unat (cmsg_space (of_nat n)) = (16 + cmsg_align (n mod 2 ^ 32)) mod 2 ^ 32"
    unfolding cmsg_space_def unat_of_nat by simp
  ultimately show ?thesis
    by (simp add: try_prepare_def write_at_def out_space_def length_concat_le_bytes n_def)
qed

text \<open>When fewer bytes than a header are left after the messages of a control buffer, the parser
  reads the header past the end of the slice.\<close>

theorem control_buffer_short_tail:
  assumes "list_all message_loops msgs" "control_size msgs < 2 ^ 63" "try_prepare_multi fresh msgs = Inr bytes"
    and "tail \<noteq> []" "length tail < 16"
  shows "try_parse_from_slice (bytes @ tail) = Some (Inl Undefined)"
proof -
  have "try_parse_from_slice tail = Some (Inl Undefined)"
    using assms(4,5) by (simp add: try_parse_from_slice.simps try_parse_single_def)
  moreover obtain bs where "try_prepare_multi fresh msgs = Inr bs" "try_parse_from_slice (bs @ tail) =
      map_option (map_ok (\<lambda>ms. map message_back msgs @ ms)) (try_parse_from_slice tail)"
    using prepared_slots [OF assms(1,2), of fresh] by blast
  ultimately show ?thesis using assms(3) by simp
qed

theorem control_buffer_short_tail_witness:
  "\<exists>bytes. try_prepare_multi (\<lambda>_. 0) [IpV4 (TimeToLive 64)] = Inr bytes \<and>
    try_parse_from_slice (bytes @ [0, 0, 0, 0]) = Some (Inl Undefined)"
proof -
  have size: "control_size [IpV4 (TimeToLive 64)] < 2 ^ 63"
    by (simp add: control_size_def out_space_def cmsg_space_def cmsg_align_def)
  obtain bytes where b: "try_prepare_multi (\<lambda>_. 0) [IpV4 (TimeToLive 64)] = Inr bytes"
    using prepared_slots [OF _ size, of "\<lambda>_. 0"] by auto
  with size show ?thesis using control_buffer_short_tail [of "[IpV4 (TimeToLive 64)]" "\<lambda>_. 0" bytes "[0, 0, 0, 0]"]
    by auto
qed

section \<open>What can be sent\<close>

fun sendable :: "control_message \<Rightarrow> bool" where
  "sendable (Socket (DetailedTimestamp _ _)) = False"
| "sendable (Socket (Timestamp t)) = (0 \<le> sint (st_secs t))"
| "sendable (IpV4 (V4PacketInfo p)) =
     (case (destination p, specific_destination p) of (V4 _, Some (V4 _)) \<Rightarrow> True | _ \<Rightarrow> False)"
| "sendable (IpV6 (V6PacketInfo p)) = (case destination p of V6 _ \<Rightarrow> True | V4 _ \<Rightarrow> False)"
| "sendable (Tls (GetRecordType _)) = False"
| "sendable _ = True"

lemma map_result_is_ok: "is_ok (map_result f xs) \<longleftrightarrow> list_all (\<lambda>x. is_ok (f x)) xs"
proof (induction xs)
  case (Cons x xs)
  then show ?case by (cases "f x"; cases "map_result f xs") auto
qed simp

lemma prepare_ok: "is_ok (prepare_control_message m) \<longleftrightarrow> sendable m"
  by (cases m rule: sendable.cases)
    (auto simp: bytes_of_timeval_def in_pktinfo_of_packet_info_def split: ip_address.splits option.splits)

text \<open>Preparing a list of messages that fits in a buffer succeeds exactly when each can be sent: received TLS record
  types, hardware timestamps, times before the epoch and packet information of the other IP version
  are refused, and one refused message refuses the list.\<close>

theorem prepare_multi_ok_iff:
  assumes "\<And>m raw. m \<in> set msgs \<Longrightarrow> prepare_control_message m = Inr raw \<Longrightarrow> out_fits raw" "control_size msgs < 2 ^ 63"
  shows "is_ok (try_prepare_multi fresh msgs) = list_all sendable msgs"
proof -
  let ?f = "\<lambda>m. map_ok (\<lambda>raw. (raw, out_space raw)) (prepare_control_message m)"
  have ok: "is_ok (?f m) = sendable m" for m
    using prepare_ok [of m] by (cases "prepare_control_message m") auto
  show ?thesis
  proof (cases "map_result ?f msgs")
    case (Inl e)
    then have "\<not> list_all sendable msgs" using map_result_is_ok [of ?f msgs] ok by simp
    then show ?thesis using Inl by (simp add: try_prepare_multi_def)
  next
    case (Inr prepared)
    have "map_result ?f ms = Inr prepared \<Longrightarrow> \<exists>raws. prepared = map (\<lambda>raw. (raw, out_space raw)) raws \<and>
        map (\<lambda>m. prepare_control_message m) ms = map Inr raws" for ms prepared
    proof (induction ms arbitrary: prepared)
      case (Cons m ms)
      then obtain raw ps where m: "prepare_control_message m = Inr raw" "map_result ?f ms = Inr ps"
        "prepared = (raw, out_space raw) # ps"
        by (cases "prepare_control_message m") (auto simp: bind_result_Inr_iff)
      from Cons.IH [OF m(2)] obtain raws where "ps = map (\<lambda>raw. (raw, out_space raw)) raws"
        "map (\<lambda>m. prepare_control_message m) ms = map Inr raws" by blast
      with m show ?case by (intro exI [of _ "raw # raws"]) simp
    qed simp
    then obtain raws where raws: "prepared = map (\<lambda>raw. (raw, out_space raw)) raws"
      "map (\<lambda>m. prepare_control_message m) msgs = map Inr raws" using Inr by blast
    have "list_all out_fits raws"
      unfolding list_all_iff
    proof
      fix raw assume "raw \<in> set raws"
      then have "Inr raw \<in> set (map (\<lambda>m. prepare_control_message m) msgs)" using raws(2) by simp
      then show "out_fits raw" using assms(1) by auto
    qed
    then have "write_cmsgs 0 prepared (map fresh [0..<control_size msgs]) =
        (Inr (cmsg_slots fresh 0 raws) :: prepare_error failure + u8 list)"
      using write_cmsgs_slots [of raws "[]" 0 "control_size msgs" fresh] control_size_raws [OF raws(2)] raws(1) by simp
    moreover have "sum_list (map snd prepared) = control_size msgs"
      using control_size_raws [OF raws(2)] raws(1) by (simp add: comp_def)
    ultimately have "is_ok (try_prepare_multi fresh msgs)"
      using Inr assms(2) by (simp add: try_prepare_multi_def)
    moreover have "list_all sendable msgs" using map_result_is_ok [of ?f msgs] ok Inr by simp
    ultimately show ?thesis by simp
  qed
qed

section \<open>Traffic class, alerts and packet information\<close>

lemma raw_of_dscp_of_raw: "raw_of_dscp (dscp_of_raw d) = d"
  unfolding dscp_of_raw_def by (auto split: if_split)

text \<open>Reading a byte as an IPv6 traffic class and writing the class back gives the same byte, for
  all 256 bytes.\<close>

theorem traffic_class_byte_roundtrip: "u8_of_traffic_class (traffic_class_of_u8 b) = b"
proof -
  have e: "u8_of_ecn (ecn (traffic_class_of_u8 b)) = b AND 3"
  proof -
    have "unat (b AND 3) \<le> 3" using word_and_le1 [of b 3] by (simp add: word_le_nat_alt)
    then have "unat (b AND 3) \<in> {0, 1, 2, 3}" by auto
    then have "b AND 3 \<in> {0, 1, 2, 3}" unfolding insert_iff empty_iff word_unat_eq_iff by simp
    then show ?thesis by (auto simp: traffic_class_of_u8_def Let_def)
  qed
  have "push_bit 2 (drop_bit 2 (b AND 252)) OR (b AND 3) = b"
  proof (rule bit_word_eqI)
    fix n assume "n < LENGTH(8)"
    then have "n \<in> {0, 1, 2, 3, 4, 5, 6, 7}" by auto
    then show "bit (push_bit 2 (drop_bit 2 (b AND 252)) OR (b AND 3)) n \<longleftrightarrow> bit b n"
      by (auto simp: bit_or_iff bit_push_bit_iff bit_drop_bit_eq bit_and_iff bit_numeral_rec)
        (simp_all add: numeral_2_eq_2 numeral_3_eq_3)
  qed
  then show ?thesis
    by (simp add: u8_of_traffic_class_def e) (simp add: traffic_class_of_u8_def raw_of_dscp_of_raw)
qed

text \<open>The bytes of the TLS alert levels and descriptions are read back as written, and a byte that
  no description has is read as the unknown one.\<close>

theorem tls_alert_bytes:
  "alert_description_of_u8 (u8_of_alert_description d) = d \<and>
   alert_level_of_u8 (u8_of_alert_level l) = l \<and>
   (u8_of_alert_description (alert_description_of_u8 b) = b \<or> alert_description_of_u8 b = UnknownDescription)"
proof -
  have "alert_description_of_u8 (u8_of_alert_description d) = d"
    by (cases d) (simp_all add: alert_description_of_u8_def)
  moreover have "alert_level_of_u8 (u8_of_alert_level l) = l"
    by (cases l) (simp_all add: alert_level_of_u8_def)
  moreover have "u8_of_alert_description (alert_description_of_u8 b) = b \<or>
      alert_description_of_u8 b = UnknownDescription"
    by (auto simp: alert_description_of_u8_def split: if_split)
  ultimately show ?thesis by blast
qed

text \<open>An IPv4 packet-information message as the kernel writes it, its addresses in network byte
  order like those of a socket address, is read with the bytes of both addresses reversed.\<close>

theorem pktinfo_addresses_reversed:
  assumes "length spec = 4" "length addr = 4"
  shows "parse_ipv4 \<lparr>in_level = IPPROTO_IP, in_type = IP_PKTINFO, in_data_len = 12,
      in_data = le_bytes 4 (i :: u32) @ spec @ addr\<rparr> =
    Inr (V4PacketInfo \<lparr>interface_index = i, destination = V4 (rev addr),
                       specific_destination = Some (V4 (rev spec))\<rparr>)"
  using assms
  by (simp add: parse_ipv4_def from_msg_in_single_def in_pktinfo_of_bytes_def read_u32_def be_bytes_def)

theorem pktinfo_addresses_reversed_witness:
  "parse_ipv4 \<lparr>in_level = IPPROTO_IP, in_type = IP_PKTINFO, in_data_len = 12,
      in_data = le_bytes 4 (2 :: u32) @ [192, 168, 1, 20] @ [192, 168, 1, 10]\<rparr> =
    Inr (V4PacketInfo \<lparr>interface_index = 2, destination = V4 [10, 1, 168, 192],
                       specific_destination = Some (V4 [20, 1, 168, 192])\<rparr>)"
  using pktinfo_addresses_reversed [of "[192, 168, 1, 20]" "[192, 168, 1, 10]" 2] by simp

section \<open>The chain of a \<open>msghdr\<close>\<close>

text \<open>What the header walk promises: the next header lies behind the current one and inside the
  control bytes.\<close>

definition walks_forward :: "(u8 list \<Rightarrow> nat \<Rightarrow> nat option) \<Rightarrow> bool" where
  "walks_forward nxt \<longleftrightarrow> (\<forall>ctl o1 o2. nxt ctl o1 = Some o2 \<longrightarrow> o1 < o2 \<and> o2 < length ctl)"

lemma parse_chain_ends:
  assumes "walks_forward nxt" "o1 < length ctl" "length ctl - o1 < fuel"
  shows "parse_chain fuel nxt ctl (Some o1) \<noteq> None"
  using assms(2,3)
proof (induction fuel arbitrary: o1)
  case (Suc fuel)
  show ?case
  proof (cases "nxt ctl o1")
    case None
    from Suc.prems obtain f where "fuel = Suc f" by (cases fuel) auto
    with None show ?thesis by (auto split: sum.split)
  next
    case (Some o2)
    with assms(1) have "o1 < o2" "o2 < length ctl" by (auto simp: walks_forward_def)
    with Suc.prems Suc.IH [of o2] Some show ?thesis by (auto split: sum.split)
  qed
qed simp

text \<open>Parsing the control bytes of a \<open>msghdr\<close> always ends, whatever bytes they are, as long as the
  platform's walk over the headers goes forward inside them.\<close>

theorem parse_msghdr_terminates:
  assumes "walks_forward nxt_hdr" "\<And>c k. fst_hdr c = Some k \<Longrightarrow> k < length c"
  shows "\<exists>r. try_parse_from_msghdr fst_hdr nxt_hdr ctl = Some r"
proof (cases "fst_hdr ctl")
  case (Some k)
  then have "k < length ctl" using assms(2) by simp
  with parse_chain_ends [OF assms(1), of k ctl "Suc (length ctl)"] Some show ?thesis
    by (simp add: try_parse_from_msghdr_def del: parse_chain.simps)
qed (simp add: try_parse_from_msghdr_def)

text \<open>The walk as documented: headers follow each other at aligned lengths while there is room.\<close>

definition documented_nxthdr :: "u8 list \<Rightarrow> nat \<Rightarrow> nat option" where
  "documented_nxthdr ctl off =
     (let len = unat (read_u64 0 (drop off ctl)); n = off + (len + 7) div 8 * 8 in
      if len < 16 \<or> length ctl < n + 16 then None else Some n)"

definition documented_firsthdr :: "u8 list \<Rightarrow> nat option" where
  "documented_firsthdr ctl = (if length ctl < 16 then None else Some 0)"

lemma documented_walks_forward: "walks_forward documented_nxthdr"
proof -
  have "16 \<le> len \<Longrightarrow> 0 < (len + 7) div 8 * 8" for len :: nat by simp
  then show ?thesis
    unfolding walks_forward_def documented_nxthdr_def Let_def by (auto split: if_splits)
qed

theorem parse_msghdr_terminates_witness:
  "\<exists>r. try_parse_from_msghdr documented_firsthdr documented_nxthdr (replicate 24 0) = Some r"
  by (rule parse_msghdr_terminates [OF documented_walks_forward])
    (auto simp: documented_firsthdr_def split: if_splits)

end
