(* ===== verification/Buffers.thy ===== *)
theory Buffers
  imports Prelude
begin

text \<open>
  The buffers of I/O operations (\<open>src/io/buffers.rs\<close>). A \<open>Bytes\<close> is its bytes, which lie in one
  piece of memory. A \<open>BytesMut\<close> is its initialised bytes and the contents of its spare capacity;
  \<open>chunk_mut\<close> gives the spare capacity and, when there is none, grows the buffer first, by the memory
  that the argument \<open>grow\<close> gives: its documentation promises a non-empty slice there. Pointers into
  buffers are positions: the index of the buffer and an offset.
\<close>

section \<open>Vectors of slices\<close>

datatype invalid_iovec_error = NoDataForIoVecs | TooManyIoVecs nat nat

text \<open>\<open>IOV_MAX_LIMIT\<close>, from the result of \<open>sysconf\<close>.\<close>

definition default_iov_max :: nat where "default_iov_max = 1024"

definition iov_max_limit :: "int \<Rightarrow> nat" where
  "iov_max_limit limit =
     (if limit < 0 then default_iov_max
      else if limit = 0 then default_iov_max
      else nat limit)"

definition assert_iovecs_valid :: "nat \<Rightarrow> 'a list \<Rightarrow> invalid_iovec_error + unit" where
  "assert_iovecs_valid iov_max iovecs =
     (if iovecs = [] then Inl NoDataForIoVecs
      else if iov_max < length iovecs then Inl (TooManyIoVecs (length iovecs) iov_max)
      else Inr ())"

text \<open>\<open>generate_iovecs_single\<close>: an input slice is the bytes it points to.\<close>

definition generate_iovecs_single :: "u8 list \<Rightarrow> u8 list list" where
  "generate_iovecs_single b = (if b = [] then [] else [b])"

definition generate_iovecs_bytes :: "nat \<Rightarrow> u8 list \<Rightarrow> invalid_iovec_error + u8 list list" where
  "generate_iovecs_bytes iov_max b =
     (let iovecs = generate_iovecs_single b in
      bind_result (assert_iovecs_valid iov_max iovecs) (\<lambda>_. Inr iovecs))"

definition generate_iovecs_vec :: "nat \<Rightarrow> u8 list list \<Rightarrow> invalid_iovec_error + u8 list list" where
  "generate_iovecs_vec iov_max bs =
     (let iovecs = concat (map generate_iovecs_single bs) in
      bind_result (assert_iovecs_valid iov_max iovecs) (\<lambda>_. Inr iovecs))"

section \<open>Input buffers\<close>

datatype invalid_input_error_kind = EmptyInputBuffer | NonContiguousInputBuffer

datatype invalid_input_error = InvalidIoInputBufferError "u8 list" invalid_input_error_kind

definition io_input_buffer_new :: "u8 list \<Rightarrow> invalid_input_error + u8 list" where
  "io_input_buffer_new data =
     (if data = [] then Inl (InvalidIoInputBufferError data EmptyInputBuffer) else Inr data)"

datatype iovec_input_source = Single "u8 list" | Multiple "u8 list list"

definition iovec_input_new_single :: "u8 list \<Rightarrow> u8 list + iovec_input_source" where
  "iovec_input_new_single data = (if data = [] then Inl data else Inr (Single data))"

definition iovec_input_new_multiple :: "u8 list list \<Rightarrow> unit + iovec_input_source" where
  "iovec_input_new_multiple data = (if data = [] then Inl () else Inr (Multiple data))"

fun generate_iovecs_source :: "nat \<Rightarrow> iovec_input_source \<Rightarrow> invalid_iovec_error + u8 list list" where
  "generate_iovecs_source iov_max (Single b) = generate_iovecs_bytes iov_max b"
| "generate_iovecs_source iov_max (Multiple bs) = generate_iovecs_vec iov_max bs"

section \<open>Output buffers\<close>

record bytes_mut =
  contents :: "u8 list"
  spare :: "u8 list"

definition capacity :: "bytes_mut \<Rightarrow> nat" where
  "capacity b = length (contents b) + length (spare b)"

text \<open>\<open>chunk_mut\<close> leaves the buffer with its spare memory at hand.\<close>

definition chunk_mut :: "(bytes_mut \<Rightarrow> u8 list) \<Rightarrow> bytes_mut \<Rightarrow> bytes_mut" where
  "chunk_mut grow b = (if spare b = [] then b\<lparr>spare := grow b\<rparr> else b)"

definition advance_mut :: "nat \<Rightarrow> bytes_mut \<Rightarrow> bytes_mut" where
  "advance_mut n b = \<lparr>contents = contents b @ take n (spare b), spare = drop n (spare b)\<rparr>"

definition io_output_buffer_new :: "bytes_mut \<Rightarrow> bytes_mut + bytes_mut" where
  "io_output_buffer_new b = (if capacity b = 0 then Inl b else Inr b)"

datatype output_into_bytes_error = BufferOverflow nat nat bytes_mut

definition io_output_into_bytes ::
  "(bytes_mut \<Rightarrow> u8 list) \<Rightarrow> bytes_mut \<Rightarrow> nat \<Rightarrow> output_into_bytes_error + bytes_mut" where
  "io_output_into_bytes grow b len =
     (let b = chunk_mut grow b;
          chunk_len = length (spare b);
          b = advance_mut (min len chunk_len) b
      in if chunk_len < len then Inl (BufferOverflow len chunk_len b) else Inr b)"

definition iovec_output_new :: "bytes_mut list \<Rightarrow> bytes_mut list + bytes_mut list" where
  "iovec_output_new data = (if data = [] then Inl data else Inr data)"

text \<open>The slices of a vector of output buffers: the index of the buffer, where its spare capacity
  begins, and how much of it there is.\<close>

record out_iovec =
  iov_buffer :: nat
  iov_offset :: nat
  iov_len :: nat

fun output_iovecs_from :: "nat \<Rightarrow> bytes_mut list \<Rightarrow> out_iovec list" where
  "output_iovecs_from i [] = []"
| "output_iovecs_from i (b # bs) =
     (let current_len = length (contents b); cap = capacity b in
      (if cap \<le> current_len then []
       else [\<lparr>iov_buffer = i, iov_offset = current_len, iov_len = cap - current_len\<rparr>])
      @ output_iovecs_from (Suc i) bs)"

definition generate_iovecs_output :: "nat \<Rightarrow> bytes_mut list \<Rightarrow> invalid_iovec_error + out_iovec list" where
  "generate_iovecs_output iov_max bs =
     (let iovecs = output_iovecs_from 0 bs in
      bind_result (assert_iovecs_valid iov_max iovecs) (\<lambda>_. Inr iovecs))"

datatype iovec_into_bytes_error = VecBufferOverflow nat nat "bytes_mut list"

text \<open>The loop of \<open>IoVecOutputBuffer::into_bytes\<close>.\<close>

fun distribute ::
  "(bytes_mut \<Rightarrow> u8 list) \<Rightarrow> nat \<Rightarrow> nat \<Rightarrow> bytes_mut list \<Rightarrow> nat \<times> bytes_mut list" where
  "distribute grow total_bytes accounted [] = (accounted, [])"
| "distribute grow total_bytes accounted (b # bs) =
     (let b = chunk_mut grow b;
          n = min (total_bytes - accounted) (length (spare b));
          (acc, rest) = distribute grow total_bytes (accounted + n) bs
      in (acc, advance_mut n b # rest))"

definition iovec_output_into_bytes ::
  "(bytes_mut \<Rightarrow> u8 list) \<Rightarrow> bytes_mut list \<Rightarrow> nat \<Rightarrow> iovec_into_bytes_error + bytes_mut list" where
  "iovec_output_into_bytes grow bs total_bytes =
     (let (accounted, bs) = distribute grow total_bytes 0 bs in
      if accounted < total_bytes then Inl (VecBufferOverflow total_bytes accounted bs) else Inr bs)"

section \<open>Buffers of \<open>recvmsg\<close>\<close>

record recv_msg_buffers =
  rb_data :: "bytes_mut list option"
  rb_control :: "bytes_mut option"

definition recv_buffers_default :: recv_msg_buffers where
  "recv_buffers_default = \<lparr>rb_data = None, rb_control = None\<rparr>"

definition take_data :: "recv_msg_buffers \<Rightarrow> bytes_mut list option \<times> recv_msg_buffers" where
  "take_data r = (rb_data r, r\<lparr>rb_data := None\<rparr>)"

definition take_control :: "recv_msg_buffers \<Rightarrow> bytes_mut option \<times> recv_msg_buffers" where
  "take_control r = (rb_control r, r\<lparr>rb_control := None\<rparr>)"

definition add_data :: "bytes_mut \<Rightarrow> recv_msg_buffers \<Rightarrow> recv_msg_buffers" where
  "add_data d r = r\<lparr>rb_data := (case rb_data r of None \<Rightarrow> Some [d] | Some ds \<Rightarrow> Some (ds @ [d]))\<rparr>"

definition extend_data :: "bytes_mut list \<Rightarrow> recv_msg_buffers \<Rightarrow> recv_msg_buffers" where
  "extend_data d r = r\<lparr>rb_data := (case rb_data r of None \<Rightarrow> Some d | Some ds \<Rightarrow> Some (ds @ d))\<rparr>"

definition set_control :: "bytes_mut \<Rightarrow> recv_msg_buffers \<Rightarrow> recv_msg_buffers" where
  "set_control c r = r\<lparr>rb_control := Some c\<rparr>"

datatype recv_submission_error_kind =
    InvalidDataBuffer | InvalidControlBuffer | InvalidRecvIoVec invalid_iovec_error

record recv_submission_error =
  rse_buffers :: recv_msg_buffers
  rse_kind :: recv_submission_error_kind

text \<open>\<open>RecvMsgBuffers::prepare\<close>; the prepared \<open>IoRecvMsgOutputBuffers\<close> hold the same buffers.\<close>

definition recv_prepare :: "recv_msg_buffers \<Rightarrow> recv_submission_error + recv_msg_buffers" where
  "recv_prepare r =
     bind_result
       (case rb_data r of
          None \<Rightarrow> Inr None
        | Some data \<Rightarrow>
            (case iovec_output_new data of
               Inr d \<Rightarrow> Inr (Some d)
             | Inl e \<Rightarrow> Inl \<lparr>rse_buffers = \<lparr>rb_data = Some e, rb_control = rb_control r\<rparr>,
                             rse_kind = InvalidDataBuffer\<rparr>))
       (\<lambda>data.
     bind_result
       (case rb_control r of
          None \<Rightarrow> Inr None
        | Some control \<Rightarrow>
            (case io_output_buffer_new control of
               Inr c \<Rightarrow> Inr (Some c)
             | Inl e \<Rightarrow> Inl \<lparr>rse_buffers = \<lparr>rb_data = data, rb_control = Some e\<rparr>,
                             rse_kind = InvalidControlBuffer\<rparr>))
       (\<lambda>control. Inr \<lparr>rb_data = data, rb_control = control\<rparr>))"

text \<open>\<open>PendingIoMessageInner::new\<close>: the slices for \<open>recvmsg\<close>, or the buffers back.\<close>

definition pending_message_new ::
  "nat \<Rightarrow> recv_msg_buffers \<Rightarrow> recv_submission_error + (out_iovec list option \<times> recv_msg_buffers)" where
  "pending_message_new iov_max r =
     (case rb_data r of
        None \<Rightarrow> Inr (None, r)
      | Some bs \<Rightarrow>
          (case generate_iovecs_output iov_max bs of
             Inr iovecs \<Rightarrow> Inr (Some iovecs, r)
           | Inl e \<Rightarrow> Inl \<lparr>rse_buffers = r, rse_kind = InvalidRecvIoVec e\<rparr>))"

section \<open>Errors that give the buffer back\<close>

datatype input_submission_error =
    InvalidInputBuffer invalid_input_error
  | InvalidIoVecInputBuffer "u8 list"
  | InvalidInputIoVec "u8 list" invalid_iovec_error

fun input_error_into_buffer :: "input_submission_error \<Rightarrow> u8 list" where
  "input_error_into_buffer (InvalidInputBuffer (InvalidIoInputBufferError b _)) = b"
| "input_error_into_buffer (InvalidIoVecInputBuffer b) = b"
| "input_error_into_buffer (InvalidInputIoVec b _) = b"

datatype input_vec_submission_error =
    InvalidIoVecInputBuffers
  | InvalidInputVecIoVec invalid_iovec_error

datatype output_submission_error =
    InvalidOutputBuffer bytes_mut
  | InvalidOutputIoVec bytes_mut invalid_iovec_error

fun output_error_into_buffer :: "output_submission_error \<Rightarrow> bytes_mut" where
  "output_error_into_buffer (InvalidOutputBuffer b) = b"
| "output_error_into_buffer (InvalidOutputIoVec b _) = b"

datatype output_vec_submission_error =
    InvalidOutputBuffers "bytes_mut list"
  | InvalidOutputVecIoVec "bytes_mut list" invalid_iovec_error

fun output_vec_error_into_buffers :: "output_vec_submission_error \<Rightarrow> bytes_mut list" where
  "output_vec_error_into_buffers (InvalidOutputBuffers bs) = bs"
| "output_vec_error_into_buffers (InvalidOutputVecIoVec bs _) = bs"

fun into_bytes_error_buffers :: "iovec_into_bytes_error \<Rightarrow> bytes_mut list" where
  "into_bytes_error_buffers (VecBufferOverflow _ _ bs) = bs"

section \<open>Properties\<close>

lemma assert_iovecs_valid_Inr: "assert_iovecs_valid m xs = Inr u \<longleftrightarrow> xs \<noteq> [] \<and> length xs \<le> m"
  by (auto simp: assert_iovecs_valid_def)

lemma concat_singles: "concat (concat (map generate_iovecs_single bs)) = concat bs"
  by (induction bs) (auto simp: generate_iovecs_single_def)

lemma singles_nonempty: "[] \<notin> set (concat (map generate_iovecs_single bs))"
  by (auto simp: generate_iovecs_single_def)

lemma singles_length: "length (concat (map generate_iovecs_single bs)) = length (filter (\<lambda>b. b \<noteq> []) bs)"
  by (induction bs) (auto simp: generate_iovecs_single_def)

lemma singles_Nil_iff: "concat (map generate_iovecs_single bs) = [] \<longleftrightarrow> concat bs = []"
  by (auto simp: generate_iovecs_single_def split: if_splits)

text \<open>The slices of a vector of input buffers carry exactly the bytes of the buffers in order,
  none of them is empty, and their number is within the limit of the system; there are none exactly
  when the buffers hold no data, or too many.\<close>

theorem writev_gathers:
  "case generate_iovecs_vec iov_max bs of
     Inr iovecs \<Rightarrow> concat iovecs = concat bs \<and> [] \<notin> set iovecs \<and> 0 < length iovecs \<and> length iovecs \<le> iov_max
   | Inl NoDataForIoVecs \<Rightarrow> concat bs = []
   | Inl (TooManyIoVecs n m) \<Rightarrow> m = iov_max \<and> m < n \<and> n = length (filter (\<lambda>b. b \<noteq> []) bs)"
proof -
  let ?v = "concat (map generate_iovecs_single bs)"
  show ?thesis
    using concat_singles [of bs] singles_nonempty [of bs] singles_Nil_iff [of bs] singles_length [of bs]
    by (cases "?v = []") (auto simp: generate_iovecs_vec_def assert_iovecs_valid_def Let_def)
qed

text \<open>When the buffers of a \<open>recvmsg\<close> are refused, the error gives back exactly the buffers that
  were handed in; when they are accepted, so are the prepared ones.\<close>

theorem recv_prepare_keeps_buffers:
  "case recv_prepare r of Inl e \<Rightarrow> rse_buffers e = r | Inr p \<Rightarrow> p = r"
  by (auto simp: recv_prepare_def iovec_output_new_def io_output_buffer_new_def split: option.splits)

text \<open>What a buffer gained, and the memory that a slice names.\<close>

definition gained :: "bytes_mut \<Rightarrow> bytes_mut \<Rightarrow> u8 list" where
  "gained old new = drop (length (contents old)) (contents new)"

definition iovec_memory :: "bytes_mut list \<Rightarrow> out_iovec \<Rightarrow> u8 list" where
  "iovec_memory bs v =
     (let b = bs ! iov_buffer v in take (iov_len v) (drop (iov_offset v) (contents b @ spare b)))"

lemma gained_advance [simp]:
  "gained b (advance_mut n (chunk_mut grow b)) = take n (spare (chunk_mut grow b))"
  by (simp add: gained_def advance_mut_def chunk_mut_def)

lemma distribute_spec:
  assumes "acc \<le> n"
  shows "fst (distribute grow n acc bs) = min n (acc + length (concat (map (\<lambda>b. spare (chunk_mut grow b)) bs)))
    \<and> concat (map2 gained bs (snd (distribute grow n acc bs)))
        = take (n - acc) (concat (map (\<lambda>b. spare (chunk_mut grow b)) bs))"
  using assms
proof (induction bs arbitrary: acc)
  case (Cons b bs)
  let ?k = "min (n - acc) (length (spare (chunk_mut grow b)))"
  have "acc + ?k \<le> n" using Cons.prems by simp
  from Cons.IH [OF this] show ?case
    using Cons.prems by (auto simp: Let_def split_beta min_def)
qed simp

lemma iovec_memory_from:
  "concat (map (iovec_memory (pre @ bs)) (output_iovecs_from (length pre) bs)) = concat (map spare bs)"
proof (induction bs arbitrary: pre)
  case (Cons b bs)
  from Cons [of "pre @ [b]"] have "concat (map (iovec_memory (pre @ b # bs))
      (output_iovecs_from (Suc (length pre)) bs)) = concat (map spare bs)" by simp
  moreover have "iovec_memory (pre @ b # bs) \<lparr>iov_buffer = length pre, iov_offset = length (contents b),
      iov_len = capacity b - length (contents b)\<rparr> = spare b"
    by (simp add: iovec_memory_def capacity_def)
  moreover have "capacity b \<le> length (contents b) \<longleftrightarrow> spare b = []" by (simp add: capacity_def)
  ultimately show ?case by (simp add: Let_def)
qed simp

lemma iovec_memory_spare:
  "concat (map (iovec_memory bs) (output_iovecs_from 0 bs)) = concat (map spare bs)"
  using iovec_memory_from [of "[]" bs] by simp

text \<open>C14. After a vectored read of \<open>n\<close> bytes into buffers none of which is full, the buffers gain, in
  order, exactly the first \<open>n\<close> bytes of the memory the slices name; when \<open>n\<close> is more than they can
  hold the call reports the overflow.\<close>

theorem readv_delivers:
  assumes "list_all (\<lambda>b. spare b \<noteq> []) bs"
  shows "case iovec_output_into_bytes grow bs n of
      Inr bs' \<Rightarrow> n \<le> length (concat (map spare bs)) \<and>
        concat (map2 gained bs bs') = take n (concat (map (iovec_memory bs) (output_iovecs_from 0 bs)))
    | Inl (VecBufferOverflow r a bs') \<Rightarrow> r = n \<and> a = length (concat (map spare bs)) \<and> a < n"
proof -
  have m: "map (\<lambda>b. spare (chunk_mut grow b)) bs = map spare bs"
    using assms by (auto simp: chunk_mut_def list_all_iff)
  show ?thesis
    using distribute_spec [of 0 n grow bs, unfolded m]
    by (auto simp: iovec_output_into_bytes_def iovec_memory_spare split_beta Let_def)
qed

theorem readv_delivers_witness:
  "case iovec_output_into_bytes (\<lambda>_. replicate 64 0)
      [\<lparr>contents = [1], spare = [7, 8]\<rparr>, \<lparr>contents = [], spare = [9, 10, 11]\<rparr>] 3 of
      Inr bs' \<Rightarrow> concat (map2 gained
          [\<lparr>contents = [1], spare = [7, 8]\<rparr>, \<lparr>contents = [], spare = [9, 10, 11]\<rparr>] bs') = [7, 8, 9]
    | Inl _ \<Rightarrow> False"
  using readv_delivers [where bs = "[\<lparr>contents = [1], spare = [7, 8]\<rparr>, \<lparr>contents = [], spare = [9, 10, 11]\<rparr>]"
      and grow = "\<lambda>_. replicate 64 0" and n = 3]
  by (simp add: iovec_output_into_bytes_def chunk_mut_def advance_mut_def output_iovecs_from.simps
      iovec_memory_def capacity_def)

text \<open>A full buffer in front breaks this: no slice names it, yet it grows and takes the first
  bytes, which come from memory the read never wrote, and the bytes that were read are pushed out of
  what the buffers gain.\<close>

theorem readv_full_buffer_first:
  assumes "spare b = []" "0 < n" "n \<le> length (grow b)"
  shows "(\<forall>v. v \<in> set (output_iovecs_from 0 (b # bs)) \<longrightarrow> iov_buffer v \<noteq> 0) \<and>
    (case iovec_output_into_bytes grow (b # bs) n of
       Inr (b' # bs') \<Rightarrow> gained b b' = take n (grow b) \<and> concat (map2 gained bs bs') = []
     | _ \<Rightarrow> False)"
proof -
  have "v \<in> set (output_iovecs_from i cs) \<Longrightarrow> i \<le> iov_buffer v" for v i cs
    by (induction cs arbitrary: i) (fastforce simp: Let_def split: if_splits)+
  then have "v \<in> set (output_iovecs_from 1 bs) \<Longrightarrow> iov_buffer v \<noteq> 0" for v by fastforce
  moreover have "\<not> length (contents b) < capacity b" using assms(1) by (simp add: capacity_def)
  ultimately have slices: "\<forall>v. v \<in> set (output_iovecs_from 0 (b # bs)) \<longrightarrow> iov_buffer v \<noteq> 0"
    by (simp add: Let_def)
  have c: "spare (chunk_mut grow b) = grow b" using assms(1) by (simp add: chunk_mut_def)
  have "min n (length (grow b)) = n" using assms(3) by simp
  then show ?thesis
    using slices distribute_spec [of n n grow bs] c gained_advance [of b n grow]
    by (simp add: iovec_output_into_bytes_def split_beta Let_def)
qed

theorem readv_full_buffer_first_witness:
  "case iovec_output_into_bytes (\<lambda>_. replicate 64 0)
      [\<lparr>contents = [1], spare = []\<rparr>, \<lparr>contents = [], spare = [9, 10, 11]\<rparr>] 3 of
      Inr (b' # bs') \<Rightarrow> gained \<lparr>contents = [1], spare = []\<rparr> b' = [0, 0, 0] | _ \<Rightarrow> False"
  using readv_full_buffer_first [where b = "\<lparr>contents = [1], spare = []\<rparr>" and n = 3
      and grow = "\<lambda>_. replicate 64 0" and bs = "[\<lparr>contents = [], spare = [9, 10, 11]\<rparr>]"]
  by (simp add: iovec_output_into_bytes_def chunk_mut_def advance_mut_def gained_def eval_nat_numeral)

end
