(* ===== verification/Io_Message.thy ===== *)
theory Io_Message
  imports Control_Levels Address_Lemmas Buffers
begin

text \<open>
  Messages of \<open>sendmsg\<close> and \<open>recvmsg\<close> (\<open>src/io/message.rs\<close>): the builder of outgoing messages and
  its canned messages, received messages with the TLS alert and end-of-stream tests, the accessors
  common to both, what a pending \<open>recvmsg\<close> yields once completed, and the prepared \<open>msghdr\<close>.
\<close>

section \<open>Outgoing messages\<close>

record send_message =
  sm_data :: "iovec_input_source option"
  sm_control :: "control_message list option"
  sm_address :: "socket_address option"

definition send_message_default :: send_message where
  "send_message_default = \<lparr>sm_data = None, sm_control = None, sm_address = None\<rparr>"

definition send_message_new :: "iovec_input_source option \<Rightarrow> control_message list option \<Rightarrow> send_message" where
  "send_message_new d c = \<lparr>sm_data = d, sm_control = c, sm_address = None\<rparr>"

definition add_control_message :: "control_message \<Rightarrow> send_message \<Rightarrow> send_message" where
  "add_control_message c m =
     m\<lparr>sm_control := Some ((case sm_control m of None \<Rightarrow> [] | Some cs \<Rightarrow> cs) @ [c])\<rparr>"

definition add_control_messages :: "control_message list \<Rightarrow> send_message \<Rightarrow> send_message" where
  "add_control_messages c m =
     m\<lparr>sm_control := Some ((case sm_control m of None \<Rightarrow> [] | Some cs \<Rightarrow> cs) @ c)\<rparr>"

definition clear_control_messages :: "send_message \<Rightarrow> send_message" where
  "clear_control_messages m = m\<lparr>sm_control := None\<rparr>"

definition set_data_buffer :: "u8 list \<Rightarrow> send_message \<Rightarrow> send_message" where
  "set_data_buffer b m = m\<lparr>sm_data := Some (Single b)\<rparr>"

definition set_data_buffers :: "u8 list list \<Rightarrow> send_message \<Rightarrow> send_message" where
  "set_data_buffers bs m = m\<lparr>sm_data := Some (Multiple bs)\<rparr>"

definition clear_data_buffers :: "send_message \<Rightarrow> send_message" where
  "clear_data_buffers m = m\<lparr>sm_data := None\<rparr>"

definition set_message_address :: "socket_address \<Rightarrow> send_message \<Rightarrow> send_message" where
  "set_message_address a m = m\<lparr>sm_address := Some a\<rparr>"

definition clear_address :: "send_message \<Rightarrow> send_message" where
  "clear_address m = m\<lparr>sm_address := None\<rparr>"

definition clear_message :: "send_message \<Rightarrow> send_message" where
  "clear_message m = m\<lparr>sm_data := None, sm_control := None, sm_address := None\<rparr>"

definition close_notify :: send_message where
  "close_notify =
     set_data_buffer [u8_of_alert_level Warning, u8_of_alert_description CloseNotify]
       (add_control_message (Tls (SetRecordType Alert)) send_message_default)"

definition send_buffer :: "u8 list \<Rightarrow> send_message" where
  "send_buffer b = \<lparr>sm_data = Some (Single b), sm_control = None, sm_address = None\<rparr>"

definition send_buffers :: "u8 list list \<Rightarrow> send_message" where
  "send_buffers bs = \<lparr>sm_data = Some (Multiple bs), sm_control = None, sm_address = None\<rparr>"

definition send_buffer_to :: "u8 list \<Rightarrow> socket_address \<Rightarrow> send_message" where
  "send_buffer_to b a = \<lparr>sm_data = Some (Single b), sm_control = None, sm_address = Some a\<rparr>"

definition send_buffers_to :: "u8 list list \<Rightarrow> socket_address \<Rightarrow> send_message" where
  "send_buffers_to bs a = \<lparr>sm_data = Some (Multiple bs), sm_control = None, sm_address = Some a\<rparr>"

definition send_fds :: "raw_fd list \<Rightarrow> send_message" where
  "send_fds fds = add_control_message (Socket (Rights fds)) send_message_default"

definition send_credentials :: "credentials \<Rightarrow> send_message" where
  "send_credentials c = add_control_message (Socket (Credentials c)) send_message_default"

section \<open>Received messages\<close>

record recv_message =
  rm_buffers :: recv_msg_buffers
  rm_address :: "socket_address option"
  rm_flags :: i32
  rm_bytes_received :: nat
  rm_control_bytes_received :: nat
  rm_parsed_control :: "control_message list option"

definition take_buffers :: "recv_message \<Rightarrow> recv_msg_buffers \<times> recv_message" where
  "take_buffers m = (rm_buffers m, m\<lparr>rm_buffers := recv_buffers_default\<rparr>)"

text \<open>The body of the loop of \<open>get_alert\<close>.\<close>

definition alert_of :: "bytes_mut list option \<Rightarrow> control_message \<Rightarrow> tls_alert option" where
  "alert_of data msg =
     (case msg of
        Tls (GetRecordType r) \<Rightarrow>
          if r = Alert then
            (case data of
               Some buffers \<Rightarrow>
                 if length buffers = 1 \<and> 0 < length (contents (buffers ! 0)) \<and> length (contents (buffers ! 0)) \<le> 2
                 then Some \<lparr>alert_level = alert_level_of_u8 (contents (buffers ! 0) ! 0),
                            alert_description =
                              (if 1 < length (contents (buffers ! 0))
                               then Some (alert_description_of_u8 (contents (buffers ! 0) ! 1)) else None)\<rparr>
                 else None
             | None \<Rightarrow> None)
          else None
      | _ \<Rightarrow> None)"

fun first_alert :: "bytes_mut list option \<Rightarrow> control_message list \<Rightarrow> tls_alert option" where
  "first_alert data [] = None"
| "first_alert data (msg # msgs) =
     (case alert_of data msg of Some a \<Rightarrow> Some a | None \<Rightarrow> first_alert data msgs)"

definition get_alert :: "recv_message \<Rightarrow> tls_alert option" where
  "get_alert m =
     (case rm_parsed_control m of
        Some control \<Rightarrow> first_alert (rb_data (rm_buffers m)) control
      | None \<Rightarrow> None)"

definition is_fin :: "recv_message \<Rightarrow> bool" where
  "is_fin m \<longleftrightarrow> rb_data (rm_buffers m) \<noteq> None \<and> rm_bytes_received m = 0"

section \<open>Either kind\<close>

datatype io_message = Send send_message | Recv recv_message

fun message_control :: "io_message \<Rightarrow> control_message list option" where
  "message_control (Send m) = sm_control m"
| "message_control (Recv m) = rm_parsed_control m"

fun message_address :: "io_message \<Rightarrow> socket_address option" where
  "message_address (Send m) = sm_address m"
| "message_address (Recv m) = rm_address m"

fun source_buffers :: "iovec_input_source \<Rightarrow> u8 list list" where
  "source_buffers (Single b) = [b]"
| "source_buffers (Multiple bs) = bs"

fun data_buffers :: "io_message \<Rightarrow> u8 list list option" where
  "data_buffers (Send m) = map_option source_buffers (sm_data m)"
| "data_buffers (Recv m) = map_option (map contents) (rb_data (rm_buffers m))"

fun n_data_buffers :: "io_message \<Rightarrow> nat" where
  "n_data_buffers (Send m) =
     (case sm_data m of None \<Rightarrow> 0 | Some (Single _) \<Rightarrow> 1 | Some (Multiple bs) \<Rightarrow> length bs)"
| "n_data_buffers (Recv m) = (case rb_data (rm_buffers m) of None \<Rightarrow> 0 | Some bs \<Rightarrow> length bs)"

definition list_get :: "'a list \<Rightarrow> nat \<Rightarrow> 'a option" where
  "list_get xs i = (if i < length xs then Some (xs ! i) else None)"

fun data_buffer_at :: "io_message \<Rightarrow> nat \<Rightarrow> u8 list option" where
  "data_buffer_at (Send m) i =
     (case sm_data m of
        None \<Rightarrow> None
      | Some (Single b) \<Rightarrow> if i = 0 then Some b else None
      | Some (Multiple bs) \<Rightarrow> list_get bs i)"
| "data_buffer_at (Recv m) i =
     (case rb_data (rm_buffers m) of None \<Rightarrow> None | Some bs \<Rightarrow> map_option contents (list_get bs i))"

section \<open>A completed \<open>recvmsg\<close>\<close>

record pending_message =
  pm_buffers :: recv_msg_buffers
  pm_bytes_received :: nat
  pm_namelen :: nat
  pm_addr :: sockaddr_storage
  pm_controllen :: nat
  pm_flags :: i32

text \<open>\<open>complete\<close> notes how many bytes the kernel reported; \<open>split\<close> gives up the buffers.\<close>

definition pending_complete :: "nat \<Rightarrow> pending_message \<Rightarrow> pending_message" where
  [simp]: "pending_complete n m = m\<lparr>pm_bytes_received := n\<rparr>"

definition pending_split :: "pending_message \<Rightarrow> bytes_mut list option \<times> bytes_mut option" where
  [simp]: "pending_split m = (rb_data (pm_buffers m), rb_control (pm_buffers m))"

definition recv_output_flags :: i32 where
  "recv_output_flags = MSG_EOR OR MSG_TRUNC OR MSG_CTRUNC OR MSG_OOB OR MSG_ERRQUEUE"

definition pending_parse_flags :: "pending_message \<Rightarrow> i32" where
  "pending_parse_flags m = pm_flags m AND recv_output_flags"

text \<open>\<open>parse_control\<close>: the kernel left the control bytes in the spare memory of the control buffer.\<close>

definition pending_parse_control ::
  "(u8 list \<Rightarrow> parse_error failure + control_message list) \<Rightarrow> pending_message
    \<Rightarrow> parse_error failure + control_message list option" where
  "pending_parse_control parse_msghdr m =
     (if pm_controllen m = 0 then Inr None
      else map_ok Some (parse_msghdr
        (take (pm_controllen m) (case rb_control (pm_buffers m) of None \<Rightarrow> [] | Some c \<Rightarrow> spare c))))"

definition pending_parse_address :: "pending_message \<Rightarrow> u16 + socket_address option" where
  "pending_parse_address m =
     (if pm_namelen m = 0 then Inr None else map_ok Some (socket_address_try_from (pm_addr m)))"

definition extract_control_buffer ::
  "(bytes_mut \<Rightarrow> u8 list) \<Rightarrow> pending_message \<Rightarrow> (output_into_bytes_error + bytes_mut option) \<times> pending_message" where
  "extract_control_buffer grow m =
     (case rb_control (pm_buffers m) of
        None \<Rightarrow> (Inr None, m)
      | Some c \<Rightarrow> (map_ok Some (io_output_into_bytes grow c (pm_controllen m)),
                   m\<lparr>pm_buffers := (pm_buffers m)\<lparr>rb_control := None\<rparr>\<rparr>))"

definition extract_data_buffers ::
  "(bytes_mut \<Rightarrow> u8 list) \<Rightarrow> pending_message \<Rightarrow> (iovec_into_bytes_error + bytes_mut list option) \<times> pending_message" where
  "extract_data_buffers grow m =
     (case rb_data (pm_buffers m) of
        None \<Rightarrow> (Inr None, m)
      | Some bs \<Rightarrow> (map_ok Some (iovec_output_into_bytes grow bs (pm_bytes_received m)),
                    m\<lparr>pm_buffers := (pm_buffers m)\<lparr>rb_data := None\<rparr>\<rparr>))"

definition pending_is_empty :: "pending_message \<Rightarrow> bool" where
  "pending_is_empty m \<longleftrightarrow> rb_data (pm_buffers m) = None \<and> rb_control (pm_buffers m) = None"

section \<open>The prepared \<open>msghdr\<close>\<close>

record prepared_message =
  pr_buffers :: "iovec_input_source option"
  pr_iovec :: "u8 list list option"
  pr_control :: "u8 list option"
  pr_control_len :: nat
  pr_name :: "sockaddr_storage option"
  pr_name_len :: nat

definition prepared_new :: prepared_message where
  "prepared_new = \<lparr>pr_buffers = None, pr_iovec = None, pr_control = None, pr_control_len = 0,
                   pr_name = None, pr_name_len = 0\<rparr>"

definition prepared_set_buffers ::
  "nat \<Rightarrow> iovec_input_source \<Rightarrow> prepared_message \<Rightarrow> invalid_iovec_error + prepared_message" where
  "prepared_set_buffers iov_max src p =
     bind_result (generate_iovecs_source iov_max src) (\<lambda>iov.
     Inr (p\<lparr>pr_buffers := Some src, pr_iovec := Some iov\<rparr>))"

definition prepared_set_control :: "u8 list \<Rightarrow> prepared_message \<Rightarrow> prepared_message" where
  "prepared_set_control c p = p\<lparr>pr_control := Some c, pr_control_len := length c\<rparr>"

definition prepared_set_address :: "socket_address \<Rightarrow> prepared_message \<Rightarrow> prepared_message" where
  "prepared_set_address a p =
     p\<lparr>pr_name := Some (sockaddr_storage_of a),
       pr_name_len := (case version (ip a) of IPv4 \<Rightarrow> 16 | IPv6 \<Rightarrow> 28)\<rparr>"

text \<open>What \<open>build\<close> puts into the \<open>msghdr\<close>: the name, the slices, the control bytes.\<close>

record msghdr =
  msg_name :: "sockaddr_storage option"
  msg_namelen :: nat
  msg_iov :: "u8 list list"
  msg_control :: "u8 list option"
  msg_controllen :: nat

definition prepared_build :: "prepared_message \<Rightarrow> msghdr" where
  "prepared_build p =
     \<lparr>msg_name = pr_name p, msg_namelen = pr_name_len p,
      msg_iov = (case pr_iovec p of None \<Rightarrow> [] | Some v \<Rightarrow> v),
      msg_control = pr_control p, msg_controllen = pr_control_len p\<rparr>"

section \<open>Properties\<close>

text \<open>The canned close-notify message announces an alert record, and a receiver that gets its data
  in one buffer under that record type recognises a close-notify warning.\<close>

theorem close_notify_recognised:
  "sm_control close_notify = Some [Tls (SetRecordType Alert)] \<and>
   (case sm_data close_notify of
      Some (Single payload) \<Rightarrow>
        get_alert \<lparr>rm_buffers = \<lparr>rb_data = Some [\<lparr>contents = payload, spare = s\<rparr>], rb_control = c\<rparr>,
                   rm_address = a, rm_flags = f, rm_bytes_received = length payload,
                   rm_control_bytes_received = k, rm_parsed_control = Some [Tls (GetRecordType Alert)]\<rparr>
          = Some \<lparr>alert_level = Warning, alert_description = Some CloseNotify\<rparr>
    | _ \<Rightarrow> False)"
  by (simp add: close_notify_def set_data_buffer_def add_control_message_def send_message_default_def
      get_alert_def alert_of_def alert_level_of_u8_def alert_description_of_u8_def)

text \<open>An alert is found exactly when the message has an alert record among its control messages and
  its data is one buffer of one or two bytes.\<close>

theorem get_alert_iff:
  "get_alert m \<noteq> None \<longleftrightarrow>
     (case (rm_parsed_control m, rb_data (rm_buffers m)) of
        (Some control, Some [b]) \<Rightarrow> Tls (GetRecordType Alert) \<in> set control \<and> length (contents b) \<in> {1, 2}
      | _ \<Rightarrow> False)"
proof -
  have one: "alert_of data msg \<noteq> None \<longleftrightarrow> msg = Tls (GetRecordType Alert) \<and>
      (case data of Some [b] \<Rightarrow> length (contents b) \<in> {1, 2} | _ \<Rightarrow> False)" for data msg
    by (auto simp: alert_of_def length_Suc_conv split: option.splits control_message.splits
        tls_level_type.splits list.splits if_splits)
      (metis Suc_lessI length_0_conv length_Suc_conv length_greater_0_conv)
  have "first_alert data msgs \<noteq> None \<longleftrightarrow> (\<exists>msg \<in> set msgs. alert_of data msg \<noteq> None)" for data msgs
    by (induction msgs) (auto split: option.splits)
  then show ?thesis
    unfolding get_alert_def using one by (auto split: option.splits list.splits)
qed

text \<open>The accessors of a message agree: the number of data buffers is the number listed, and the
  buffer at an index is the one listed there, or none past the end.\<close>

theorem data_buffer_accessors:
  "(case data_buffers m of
      None \<Rightarrow> n_data_buffers m = 0 \<and> data_buffer_at m i = None
    | Some bs \<Rightarrow> n_data_buffers m = length bs \<and> data_buffer_at m i = list_get bs i)"
  by (cases m) (auto simp: list_get_def split: option.splits iovec_input_source.splits)

text \<open>A prepared message carries its data, control and address as they were set: the slices hold
  the data bytes, and the name has the size of its family and reads back as the address.\<close>

theorem prepared_message_faithful:
  assumes "ip_wf (ip a)" "prepared_set_buffers iov_max (Multiple bs) prepared_new = Inr p"
  shows "let h = prepared_build (prepared_set_address a (prepared_set_control c p)) in
    concat (msg_iov h) = concat bs \<and> length (msg_iov h) \<le> iov_max \<and>
    msg_control h = Some c \<and> msg_controllen h = length c \<and>
    msg_namelen h = (if version (ip a) = IPv4 then 16 else 28) \<and>
    map_option (\<lambda>s. (ss_family s, length s)) (msg_name h) =
      Some (if version (ip a) = IPv4 then AF_INET else AF_INET6, 128)"
proof -
  let ?iov = "concat (map generate_iovecs_single bs)"
  have p: "p = prepared_new\<lparr>pr_buffers := Some (Multiple bs), pr_iovec := Some ?iov\<rparr>" "length ?iov \<le> iov_max"
    using assms(2) by (auto simp: prepared_set_buffers_def generate_iovecs_vec_def Let_def
        bind_result_Inr_iff assert_iovecs_valid_Inr)
  have fam: "ss_family (sockaddr_storage_of a) = (if version (ip a) = IPv4 then AF_INET else AF_INET6)
      \<and> length (sockaddr_storage_of a) = 128"
    using assms(1) by (cases "ip a") (simp_all add: ss_family_def read_u16_def)
  have "version (ip a) = IPv4 \<or> version (ip a) = IPv6" by (cases "version (ip a)") auto
  then show ?thesis
    using p fam by (auto simp: Let_def prepared_build_def prepared_set_address_def
        prepared_set_control_def prepared_new_def concat_singles)
qed

theorem prepared_message_faithful_witness:
  "let p = \<lparr>pr_buffers = Some (Multiple [[1], [2, 3]]), pr_iovec = Some [[1], [2, 3]], pr_control = None,
            pr_control_len = 0, pr_name = None, pr_name_len = 0\<rparr>;
       h = prepared_build (prepared_set_address \<lparr>ip = V4 [127, 0, 0, 1], port = 80\<rparr> (prepared_set_control [9] p))
   in concat (msg_iov h) = [1, 2, 3] \<and> msg_controllen h = 1 \<and> msg_namelen h = 16"
proof -
  let ?p = "\<lparr>pr_buffers = Some (Multiple [[1], [2, 3]]), pr_iovec = Some [[1], [2, 3]], pr_control = None,
            pr_control_len = 0, pr_name = None, pr_name_len = 0\<rparr>"
  have "prepared_set_buffers 1024 (Multiple [[1], [2, 3]]) prepared_new = Inr ?p"
    by (simp add: prepared_set_buffers_def generate_iovecs_vec_def generate_iovecs_single_def
        assert_iovecs_valid_def Let_def prepared_new_def)
  from prepared_message_faithful [where a = "\<lparr>ip = V4 [127, 0, 0, 1], port = 80\<rparr>" and c = "[9]", OF _ this]
  show ?thesis by (simp add: Let_def)
qed

end
