(* ===== verification/File_Mode.thy ===== *)
theory File_Mode
  imports Libc
begin

text \<open>
  Opening files (\<open>src/io/operation/data/open_at.rs\<close>): file types, permissions and modes, access types,
  open flags and the settings that combine them. Flag sets are their bits.
\<close>

section \<open>File types\<close>

text \<open>The named bits of \<open>IoFileDescriptorType\<close> together; \<open>from_bits_truncate\<close> keeps only named bits.\<close>

definition descriptor_type_bits :: u32 where
  "descriptor_type_bits = S_IFREG OR S_IFDIR OR S_IFLNK OR S_IFCHR OR S_IFBLK OR S_IFIFO OR S_IFSOCK"

definition descriptor_type_of_mode :: "u32 \<Rightarrow> u32" where
  "descriptor_type_of_mode v = (v AND S_IFMT) AND descriptor_type_bits"

definition descriptor_type_of_dirent :: "u8 \<Rightarrow> u32" where
  "descriptor_type_of_dirent v =
     (if v = DT_BLK then S_IFBLK else if v = DT_CHR then S_IFCHR else if v = DT_DIR then S_IFDIR
      else if v = DT_FIFO then S_IFIFO else if v = DT_LNK then S_IFLNK else if v = DT_REG then S_IFREG
      else if v = DT_SOCK then S_IFSOCK else 0)"

section \<open>Permissions\<close>

abbreviation EXECUTE :: u32 where "EXECUTE \<equiv> 1"
abbreviation WRITE :: u32 where "WRITE \<equiv> 2"
abbreviation READ :: u32 where "READ \<equiv> 4"

record file_mode =
  user_permissions :: u32
  group_permissions :: u32
  other_permissions :: u32

definition mode_private :: file_mode where
  "mode_private = \<lparr>user_permissions = READ OR WRITE, group_permissions = 0, other_permissions = 0\<rparr>"

definition mode_private_read_only :: file_mode where
  "mode_private_read_only = \<lparr>user_permissions = READ, group_permissions = 0, other_permissions = 0\<rparr>"

definition mode_private_executable :: file_mode where
  "mode_private_executable =
     \<lparr>user_permissions = READ OR WRITE OR EXECUTE, group_permissions = 0, other_permissions = 0\<rparr>"

definition mode_private_read_executable :: file_mode where
  "mode_private_read_executable =
     \<lparr>user_permissions = READ OR EXECUTE, group_permissions = 0, other_permissions = 0\<rparr>"

definition mode_shared_read_only :: file_mode where
  "mode_shared_read_only = \<lparr>user_permissions = READ OR WRITE, group_permissions = READ, other_permissions = READ\<rparr>"

definition mode_shared_read_write :: file_mode where
  "mode_shared_read_write =
     \<lparr>user_permissions = READ OR WRITE, group_permissions = READ OR WRITE, other_permissions = READ OR WRITE\<rparr>"

definition mode_shared_read_executable :: file_mode where
  "mode_shared_read_executable =
     \<lparr>user_permissions = READ OR WRITE OR EXECUTE, group_permissions = READ OR EXECUTE,
      other_permissions = READ OR EXECUTE\<rparr>"

definition mode_group_read_only :: file_mode where
  "mode_group_read_only = \<lparr>user_permissions = READ OR WRITE, group_permissions = READ, other_permissions = 0\<rparr>"

definition mode_group_read_write :: file_mode where
  "mode_group_read_write =
     \<lparr>user_permissions = READ OR WRITE, group_permissions = READ OR WRITE, other_permissions = 0\<rparr>"

definition mode_group_read_executable :: file_mode where
  "mode_group_read_executable =
     \<lparr>user_permissions = READ OR WRITE OR EXECUTE, group_permissions = READ OR EXECUTE, other_permissions = 0\<rparr>"

definition mode_permissive :: file_mode where
  "mode_permissive =
     \<lparr>user_permissions = READ OR WRITE OR EXECUTE, group_permissions = READ OR WRITE OR EXECUTE,
      other_permissions = READ OR WRITE OR EXECUTE\<rparr>"

definition permissions_to_directory_safe :: "u32 \<Rightarrow> u32" where
  "permissions_to_directory_safe p = (if p AND READ = READ then p OR EXECUTE else p)"

definition mode_to_directory_safe :: "file_mode \<Rightarrow> file_mode" where
  "mode_to_directory_safe m =
     \<lparr>user_permissions = permissions_to_directory_safe (user_permissions m),
      group_permissions = permissions_to_directory_safe (group_permissions m),
      other_permissions = permissions_to_directory_safe (other_permissions m)\<rparr>"

definition mode_t_of_file_mode :: "file_mode \<Rightarrow> u32" where
  "mode_t_of_file_mode m =
     push_bit 6 (user_permissions m) OR push_bit 3 (group_permissions m) OR other_permissions m"

definition file_mode_of_mode_t :: "u32 \<Rightarrow> file_mode" where
  "file_mode_of_mode_t v =
     \<lparr>user_permissions = (drop_bit 6 v AND 7) AND (EXECUTE OR WRITE OR READ),
      group_permissions = (drop_bit 3 v AND 7) AND (EXECUTE OR WRITE OR READ),
      other_permissions = (v AND 7) AND (EXECUTE OR WRITE OR READ)\<rparr>"

section \<open>Open settings\<close>

datatype access_type = ReadOnly | WriteOnly | ReadWrite

fun access_bits :: "access_type \<Rightarrow> i32" where
  "access_bits ReadOnly = 0"
| "access_bits WriteOnly = 1"
| "access_bits ReadWrite = 2"

datatype create_mode = DoNotCreate | Create file_mode

fun create_flag :: "create_mode \<Rightarrow> i32" where
  "create_flag DoNotCreate = 0"
| "create_flag (Create _) = O_CREAT"

text \<open>\<open>self | DIRECTORY & !TRUNCATE\<close>, where \<open>&\<close> binds tighter than \<open>|\<close>.\<close>

definition open_flags_to_dir_safe :: "i32 \<Rightarrow> i32" where
  "open_flags_to_dir_safe f = f OR (O_DIRECTORY AND NOT O_TRUNC)"

record open_settings =
  os_access_type :: access_type
  os_open_flags :: i32
  os_resolve_flags :: u64
  os_mode :: create_mode

definition open_settings_new_dir :: "i32 \<Rightarrow> u64 \<Rightarrow> open_settings" where
  "open_settings_new_dir open_flags resolve_flags =
     \<lparr>os_access_type = ReadOnly, os_open_flags = open_flags_to_dir_safe open_flags,
      os_resolve_flags = resolve_flags, os_mode = DoNotCreate\<rparr>"

definition as_flags :: "open_settings \<Rightarrow> i32" where
  "as_flags s = access_bits (os_access_type s) OR os_open_flags s OR create_flag (os_mode s)"

definition is_dir :: "open_settings \<Rightarrow> bool" where
  "is_dir s \<longleftrightarrow> os_open_flags s AND O_DIRECTORY = O_DIRECTORY"

definition is_read_enabled :: "open_settings \<Rightarrow> bool" where
  "is_read_enabled s \<longleftrightarrow> os_access_type s \<in> {ReadOnly, ReadWrite}"

definition is_write_enabled :: "open_settings \<Rightarrow> bool" where
  "is_write_enabled s \<longleftrightarrow> os_access_type s \<in> {WriteOnly, ReadWrite}"

definition mode_value :: "open_settings \<Rightarrow> u32" where
  "mode_value s = (case os_mode s of DoNotCreate \<Rightarrow> 0 | Create m \<Rightarrow> mode_t_of_file_mode m)"

section \<open>Properties\<close>

lemma permission_bits_split:
  fixes v m3 m9 :: u32
  assumes m3: "\<And>n. bit m3 n \<longleftrightarrow> n < 3" and m9: "\<And>n. bit m9 n \<longleftrightarrow> n < 9"
  shows "push_bit 6 ((drop_bit 6 v AND m3) AND m3) OR push_bit 3 ((drop_bit 3 v AND m3) AND m3) OR
    ((v AND m3) AND m3) = v AND m9"
proof (rule bit_word_eqI)
  fix n assume n: "n < LENGTH(32)"
  have "n < 3 \<or> (\<exists>k. n = 3 + k \<and> k < 3) \<or> (\<exists>k. n = 6 + k \<and> k < 3) \<or> 9 \<le> n" by presburger
  then consider "n < 3" | k where "n = 3 + k" "k < 3" | k where "n = 6 + k" "k < 3" | "9 \<le> n" by blast
  then show "bit (push_bit 6 ((drop_bit 6 v AND m3) AND m3) OR push_bit 3 ((drop_bit 3 v AND m3) AND m3) OR
      ((v AND m3) AND m3)) n \<longleftrightarrow> bit (v AND m9) n"
    using n by cases (auto simp: bit_or_iff bit_and_iff bit_push_bit_iff bit_drop_bit_eq m3 m9)
qed

text \<open>Reading a mode word and writing the mode back gives its nine permission bits.\<close>

theorem file_mode_roundtrip:
  "mode_t_of_file_mode (file_mode_of_mode_t v) = v AND 511"
proof -
  have "(7 :: u32) = mask 3" "(511 :: u32) = mask 9" by (simp_all add: mask_eq_exp_minus_1)
  then have "bit (7 :: u32) n \<longleftrightarrow> n < 3" "bit (511 :: u32) n \<longleftrightarrow> n < 9" for n
    by (simp_all only: bit_mask_iff) auto
  moreover have "EXECUTE OR WRITE OR READ = (7 :: u32)" by simp
  ultimately show ?thesis
    using permission_bits_split [of 7 511 v]
    unfolding mode_t_of_file_mode_def file_mode_of_mode_t_def by (simp only: file_mode.simps)
qed

text \<open>The directory-safe open flags do not clear the truncate flag: a directory is opened with it
  whenever it was given.\<close>

theorem dir_safe_keeps_truncate:
  "open_flags_to_dir_safe f AND O_TRUNC = f AND O_TRUNC \<and>
   open_flags_to_dir_safe f AND O_DIRECTORY = O_DIRECTORY \<and>
   as_flags (open_settings_new_dir f r) = f OR O_DIRECTORY"
proof -
  have d: "open_flags_to_dir_safe f = f OR O_DIRECTORY"
    by (simp add: open_flags_to_dir_safe_def)
  have "(f OR O_DIRECTORY) AND O_TRUNC = (f AND O_TRUNC) OR (O_DIRECTORY AND O_TRUNC)"
    by (simp only: bit.conj_disj_distrib2)
  moreover have "(f OR O_DIRECTORY) AND O_DIRECTORY = O_DIRECTORY" by (simp add: bit.conj_disj_distrib2)
  ultimately show ?thesis by (simp add: d as_flags_def open_settings_new_dir_def)
qed

text \<open>A mode word's file type survives: the type bits of a regular file, directory, link, device,
  pipe or socket are read as that type, whatever its permissions.\<close>

theorem descriptor_type_read:
  "t \<in> {S_IFREG, S_IFDIR, S_IFLNK, S_IFCHR, S_IFBLK, S_IFIFO, S_IFSOCK} \<Longrightarrow>
     descriptor_type_of_mode (t OR (p AND 0xfff)) = t"
proof -
  assume t: "t \<in> {S_IFREG, S_IFDIR, S_IFLNK, S_IFCHR, S_IFBLK, S_IFIFO, S_IFSOCK}"
  have b: "descriptor_type_bits = 0xf000" by (simp add: descriptor_type_bits_def)
  have "(p AND 0xfff) AND 0xf000 = 0" by (simp add: and.assoc)
  then have "descriptor_type_of_mode (t OR (p AND 0xfff)) = t AND 0xf000"
    unfolding descriptor_type_of_mode_def b by (simp add: bit.conj_disj_distrib2 and.assoc)
  also have "\<dots> = t" using t by auto
  finally show ?thesis .
qed

theorem descriptor_type_read_witness: "descriptor_type_of_mode (S_IFDIR OR (493 AND 0xfff)) = S_IFDIR"
  by (rule descriptor_type_read) simp

end
