(* ===== verification/Io_Operation.thy ===== *)
theory Io_Operation
  imports Io_Message File_Mode
begin

text \<open>
  I/O operations (\<open>src/io/operation/mod.rs\<close>, \<open>src/io/operation/data/\<close>, \<open>src/io/completion.rs\<close>,
  \<open>src/io/failure.rs\<close>, \<open>src/io/operation/future.rs\<close>): the data of each operation, the constructors,
  what a result code turns into, and the conversion of completions to the type a future waits for.
  The kernel writes into the spare memory of the buffers an operation owns before it completes. Paths
  are their bytes. \<open>stat\<close> results are a type parameter of their own, as the operation only passes them on.
\<close>

section \<open>Data\<close>

datatype shutdown_type = ShutRead | ShutWrite | ShutBoth

record 'st statx_data =
  sx_path :: "u8 list"
  sx_flags :: i32
  sx_mask :: u32
  sx_statx :: 'st

datatype 'st io_type =
    IoRead "bytes_mut option" nat
  | IoWrite "u8 list" nat
  | IoAccept sockaddr_storage nat
  | IoClose
  | IoRecv "bytes_mut option" i32
  | IoSend "u8 list" i32
  | IoReadv "bytes_mut list option" nat
  | IoWritev iovec_input_source nat
  | IoRecvMsg "pending_message option" i32
  | IoSendMsg msghdr i32
  | IoConnect sockaddr_storage nat
  | IoShutdown shutdown_type
  | IoOpenAt "u8 list option" open_settings
  | IoStatx "'st statx_data"
  | IoUnlink "u8 list"
  | IoRename "u8 list" "u8 list"
  | IoMkDir "u8 list" file_mode
  | IoCancel u64
  | IoSplice raw_fd nat nat nat u32     \<comment> \<open>\<open>fd_out\<close>, \<open>in_offset\<close>, \<open>out_offset\<close>, \<open>bytes\<close>, \<open>flags\<close>\<close>
  | IoFSync
  | IoFdatasync
  | IoTimeout i64 i64
  | IoAcceptMulti

datatype io_duration = Zero | SingleShot | Persistent

record 'st io_operation =
  op_fd :: raw_fd
  op_type :: "'st io_type"
  op_duration :: io_duration

section \<open>Completions and failures\<close>

datatype 'st io_completion =
    Success
  | ReadDone bytes_mut nat
  | MultiReadDone "bytes_mut list" nat
  | MsgDone recv_message
  | WriteDone nat
  | AcceptDone raw_fd "sockaddr_storage option"
  | FileDone raw_fd "u8 list"
  | StatsDone 'st u32

datatype io_failure =
    GenericFailure
  | ReadFailure bytes_mut
  | MultiReadFailure "bytes_mut list"
  | MsgFailure recv_msg_buffers

record io_operation_error =
  failure_of :: io_failure
  os_error_of :: os_error

type_synonym 'st io_completion_result = "io_operation_error + 'st io_completion"

definition bytes_mut_new :: bytes_mut where
  "bytes_mut_new = \<lparr>contents = [], spare = []\<rparr>"

definition recv_message_empty :: recv_message where
  "recv_message_empty =
     \<lparr>rm_buffers = recv_buffers_default, rm_address = None, rm_flags = 0, rm_bytes_received = 0,
      rm_control_bytes_received = 0, rm_parsed_control = None\<rparr>"

text \<open>The outside code that completions use: how \<open>chunk_mut\<close> grows a full buffer, and the walk over
  the headers of a \<open>msghdr\<close>.\<close>

record completion_env =
  env_grow :: "bytes_mut \<Rightarrow> u8 list"
  env_parse_msghdr :: "u8 list \<Rightarrow> parse_error failure + control_message list"

definition ok_or_default :: "'a \<Rightarrow> 'e + 'a \<Rightarrow> 'a" where
  "ok_or_default d r = (case r of Inl _ \<Rightarrow> d | Inr x \<Rightarrow> x)"

text \<open>\<open>IoRecvMsgData::get_completion\<close> after \<open>take\<close>.\<close>

definition recv_msg_completion :: "completion_env \<Rightarrow> pending_message \<Rightarrow> nat \<Rightarrow> recv_message" where
  "recv_msg_completion env p n =
     (let p = pending_complete n p;
          flags = pending_parse_flags p;
          address = ok_or_default None (pending_parse_address p);
          control = ok_or_default None (pending_parse_control (env_parse_msghdr env) p);
          (data_ret, p) = extract_data_buffers (env_grow env) p;
          data = (case data_ret of Inr d \<Rightarrow> d | Inl e \<Rightarrow> Some (into_bytes_error_buffers e));
          (ctl_ret, p) = extract_control_buffer (env_grow env) p;
          ctl = (case ctl_ret of Inr c \<Rightarrow> c | Inl (BufferOverflow _ _ b) \<Rightarrow> Some b)
      in \<lparr>rm_buffers = \<lparr>rb_data = data, rb_control = ctl\<rparr>, rm_address = address, rm_flags = flags,
          rm_bytes_received = pm_bytes_received p, rm_control_bytes_received = pm_controllen p,
          rm_parsed_control = control\<rparr>)"

definition read_completion :: "completion_env \<Rightarrow> bytes_mut option \<Rightarrow> nat \<Rightarrow> 'st io_completion" where
  "read_completion env buffer n =
     ReadDone (case buffer of
         Some b \<Rightarrow> (case io_output_into_bytes (env_grow env) b n of Inr b' \<Rightarrow> b' | Inl (BufferOverflow _ _ b') \<Rightarrow> b')
       | None \<Rightarrow> bytes_mut_new) n"

definition recv_completion :: "completion_env \<Rightarrow> bytes_mut option \<Rightarrow> nat \<Rightarrow> 'st io_completion" where
  [simp]: "recv_completion env buffer n = read_completion env buffer n"

definition readv_completion :: "completion_env \<Rightarrow> bytes_mut list option \<Rightarrow> nat \<Rightarrow> 'st io_completion" where
  [simp]: "readv_completion env buffers n =
     MultiReadDone (case buffers of
         Some bs \<Rightarrow> (case iovec_output_into_bytes (env_grow env) bs n of
                       Inr bs' \<Rightarrow> bs' | Inl e \<Rightarrow> into_bytes_error_buffers e)
       | None \<Rightarrow> []) n"

definition write_completion :: "nat \<Rightarrow> 'st io_completion" where
  [simp]: "write_completion n = WriteDone n"

definition send_completion :: "nat \<Rightarrow> 'st io_completion" where
  [simp]: "send_completion n = WriteDone n"

definition writev_completion :: "nat \<Rightarrow> 'st io_completion" where
  [simp]: "writev_completion n = WriteDone n"

definition send_msg_completion :: "nat \<Rightarrow> 'st io_completion" where
  [simp]: "send_msg_completion n = WriteDone n"

definition splice_completion :: "nat \<Rightarrow> 'st io_completion" where
  [simp]: "splice_completion n = WriteDone n"

definition accept_completion :: "raw_fd \<Rightarrow> sockaddr_storage \<Rightarrow> nat \<Rightarrow> 'st io_completion" where
  [simp]: "accept_completion fd addr len = AcceptDone fd (if 0 < len then Some addr else None)"

definition accept_multi_completion :: "raw_fd \<Rightarrow> 'st io_completion" where
  [simp]: "accept_multi_completion fd = AcceptDone fd None"

definition open_at_completion :: "raw_fd \<Rightarrow> u8 list option \<Rightarrow> 'st io_completion" where
  [simp]: "open_at_completion fd path = FileDone fd (case path of Some p \<Rightarrow> p | None \<Rightarrow> [])"

definition statx_completion :: "'st statx_data \<Rightarrow> 'st io_completion" where
  [simp]: "statx_completion d = StatsDone (sx_statx d) (sx_mask d)"

definition cancel_completion :: "'st io_completion" where
  [simp]: "cancel_completion = Success"

text \<open>\<open>get_completion\<close> and \<open>get_failure\<close> take buffers out of the operation.\<close>

fun get_completion :: "completion_env \<Rightarrow> u32 \<Rightarrow> 'st io_type \<Rightarrow> 'st io_completion \<times> 'st io_type" where
  "get_completion env r (IoRead b off) = (read_completion env b (unat r), IoRead None off)"
| "get_completion env r (IoRecv b fl) = (recv_completion env b (unat r), IoRecv None fl)"
| "get_completion env r (IoReadv bs off) =
     (readv_completion env bs (unat r), IoReadv None off)"
| "get_completion env r (IoRecvMsg m fl) =
     (MsgDone (case m of None \<Rightarrow> recv_message_empty | Some p \<Rightarrow> recv_msg_completion env p (unat r)),
      IoRecvMsg None fl)"
| "get_completion env r (IoWrite b off) = (write_completion (unat r), IoWrite b off)"
| "get_completion env r (IoSend b fl) = (send_completion (unat r), IoSend b fl)"
| "get_completion env r (IoWritev s off) = (writev_completion (unat r), IoWritev s off)"
| "get_completion env r (IoSendMsg m fl) = (send_msg_completion (unat r), IoSendMsg m fl)"
| "get_completion env r (IoSplice fd i j n fl) = (splice_completion (unat r), IoSplice fd i j n fl)"
| "get_completion env r (IoAccept addr len) =
     (accept_completion r addr len, IoAccept addr len)"
| "get_completion env r IoAcceptMulti = (accept_multi_completion r, IoAcceptMulti)"
| "get_completion env r (IoOpenAt path s) =
     (open_at_completion r path, IoOpenAt None s)"
| "get_completion env r (IoStatx d) = (statx_completion d, IoStatx d)"
| "get_completion env r (IoCancel key) = (cancel_completion, IoCancel key)"
| "get_completion env r t = (Success, t)"

definition read_failure :: "bytes_mut option \<Rightarrow> io_failure" where
  [simp]: "read_failure b = ReadFailure (case b of Some x \<Rightarrow> x | None \<Rightarrow> bytes_mut_new)"

definition recv_failure :: "bytes_mut option \<Rightarrow> io_failure" where
  [simp]: "recv_failure b = ReadFailure (case b of Some x \<Rightarrow> x | None \<Rightarrow> bytes_mut_new)"

definition readv_failure :: "bytes_mut list option \<Rightarrow> io_failure" where
  [simp]: "readv_failure bs = MultiReadFailure (case bs of Some x \<Rightarrow> x | None \<Rightarrow> [])"

definition recv_msg_failure :: "pending_message option \<Rightarrow> io_failure" where
  [simp]: "recv_msg_failure m =
     MsgFailure (case m of
         Some p \<Rightarrow> (case pending_split p of (d, c) \<Rightarrow> \<lparr>rb_data = d, rb_control = c\<rparr>)
       | None \<Rightarrow> recv_buffers_default)"

fun get_failure :: "'st io_type \<Rightarrow> io_failure \<times> 'st io_type" where
  "get_failure (IoRead b off) = (read_failure b, IoRead None off)"
| "get_failure (IoRecv b fl) = (recv_failure b, IoRecv None fl)"
| "get_failure (IoReadv bs off) = (readv_failure bs, IoReadv None off)"
| "get_failure (IoRecvMsg m fl) = (recv_msg_failure m, IoRecvMsg None fl)"
| "get_failure t = (GenericFailure, t)"

text \<open>\<open>IoOperation::complete\<close>, with the operation as it is left.\<close>

definition op_complete ::
  "completion_env \<Rightarrow> 'st io_operation \<Rightarrow> i32 \<Rightarrow> 'st io_completion_result \<times> 'st io_operation" where
  "op_complete env op r =
     (if sint r < 0 then
        (let (f, t) = get_failure (op_type op) in
         (Inl \<lparr>failure_of = f, os_error_of = os_error_of_i32 (- r)\<rparr>, op\<lparr>op_type := t\<rparr>))
      else
        (let (c, t) = get_completion env r (op_type op) in (Inr c, op\<lparr>op_type := t\<rparr>)))"

section \<open>Constructors\<close>

datatype 'd io_submission_error =
    UnsupportedAddressFamily u16
  | StringWithInteriorNullBytes
  | FailedToPrepareControlMessages "prepare_error failure"
  | FailedToDispatchOperation 'd
  | InputBufferSubmission input_submission_error
  | InputBufferVecSubmission input_vec_submission_error
  | OutputBufferSubmission output_submission_error
  | OutputBufferVecSubmission output_vec_submission_error
  | RecvMsgBuffersSubmission recv_submission_error
  | InvalidIoVecs invalid_iovec_error

text \<open>A buffer with capacity, whose memory holds what the allocation held.\<close>

definition with_capacity :: "u8 list \<Rightarrow> bytes_mut" where
  "with_capacity mem = \<lparr>contents = [], spare = mem\<rparr>"

definition c_string :: "u8 list \<Rightarrow> 'd io_submission_error + u8 list" where
  "c_string bs = (if 0 \<in> set bs then Inl StringWithInteriorNullBytes else Inr bs)"

definition op_read_at_into :: "raw_fd \<Rightarrow> nat \<Rightarrow> bytes_mut \<Rightarrow> 'st io_operation" where
  "op_read_at_into fd offset b =
     \<lparr>op_fd = fd, op_type = IoRead (Some b) offset, op_duration = SingleShot\<rparr>"

definition op_read_into :: "raw_fd \<Rightarrow> bytes_mut \<Rightarrow> 'st io_operation" where
  "op_read_into fd b = op_read_at_into fd 0 b"

definition op_recv_into :: "raw_fd \<Rightarrow> bytes_mut \<Rightarrow> i32 \<Rightarrow> 'st io_operation" where
  "op_recv_into fd b flags =
     \<lparr>op_fd = fd, op_type = IoRecv (Some b) flags, op_duration = SingleShot\<rparr>"

definition op_readv_at_into ::
  "nat \<Rightarrow> raw_fd \<Rightarrow> nat \<Rightarrow> bytes_mut list \<Rightarrow> 'd io_submission_error + 'st io_operation" where
  "op_readv_at_into iov_max fd offset bs =
     bind_result (map_err InvalidIoVecs (generate_iovecs_output iov_max bs)) (\<lambda>_.
     Inr \<lparr>op_fd = fd, op_type = IoReadv (Some bs) offset, op_duration = SingleShot\<rparr>)"

definition op_recv_msg_into ::
  "nat \<Rightarrow> raw_fd \<Rightarrow> recv_msg_buffers \<Rightarrow> i32 \<Rightarrow> 'd io_submission_error + 'st io_operation" where
  "op_recv_msg_into iov_max fd r flags =
     bind_result (map_err RecvMsgBuffersSubmission (pending_message_new iov_max r)) (\<lambda>(_, r).
     Inr \<lparr>op_fd = fd,
          op_type = IoRecvMsg (Some \<lparr>pm_buffers = r, pm_bytes_received = 0, pm_namelen = 128,
              pm_addr = replicate 128 0,
              pm_controllen = (case rb_control r of None \<Rightarrow> 0 | Some c \<Rightarrow> length (spare c)), pm_flags = 0\<rparr>) flags,
          op_duration = SingleShot\<rparr>)"

definition op_write_at :: "raw_fd \<Rightarrow> nat \<Rightarrow> u8 list \<Rightarrow> 'st io_operation" where
  "op_write_at fd offset b = \<lparr>op_fd = fd, op_type = IoWrite b offset, op_duration = SingleShot\<rparr>"

definition op_send :: "raw_fd \<Rightarrow> u8 list \<Rightarrow> i32 \<Rightarrow> 'st io_operation" where
  "op_send fd b flags = \<lparr>op_fd = fd, op_type = IoSend b flags, op_duration = SingleShot\<rparr>"

text \<open>\<open>IoSendMsgData::new\<close>.\<close>

definition op_send_msg ::
  "nat \<Rightarrow> (nat \<Rightarrow> u8) \<Rightarrow> raw_fd \<Rightarrow> send_message \<Rightarrow> i32 \<Rightarrow> 'd io_submission_error + 'st io_operation" where
  "op_send_msg iov_max fresh fd m flags =
     bind_result
       (case sm_control m of
          None \<Rightarrow> Inr prepared_new
        | Some control \<Rightarrow>
            bind_result (map_err FailedToPrepareControlMessages (try_prepare_multi fresh control)) (\<lambda>bytes.
            bind_result (map_err (\<lambda>e. InputBufferSubmission (InvalidInputBuffer e)) (io_input_buffer_new bytes))
              (\<lambda>buf. Inr (prepared_set_control buf prepared_new))))
       (\<lambda>p.
     bind_result
       (case sm_data m of
          None \<Rightarrow> Inr p
        | Some src \<Rightarrow> map_err InvalidIoVecs (prepared_set_buffers iov_max src p))
       (\<lambda>p.
     let p = (case sm_address m of None \<Rightarrow> p | Some a \<Rightarrow> prepared_set_address a p) in
     Inr \<lparr>op_fd = fd, op_type = IoSendMsg (prepared_build p) flags, op_duration = SingleShot\<rparr>))"

definition op_writev_at ::
  "nat \<Rightarrow> raw_fd \<Rightarrow> iovec_input_source \<Rightarrow> nat \<Rightarrow> 'd io_submission_error + 'st io_operation" where
  "op_writev_at iov_max fd src offset =
     bind_result
       (case generate_iovecs_source iov_max src of
          Inr v \<Rightarrow> Inr v
        | Inl e \<Rightarrow>
            Inl (case src of
                   Single b \<Rightarrow> InputBufferSubmission (InvalidInputIoVec b e)
                 | Multiple _ \<Rightarrow> InputBufferVecSubmission (InvalidInputVecIoVec e)))
       (\<lambda>_. Inr \<lparr>op_fd = fd, op_type = IoWritev src offset, op_duration = SingleShot\<rparr>)"

definition op_splice :: "raw_fd \<Rightarrow> raw_fd \<Rightarrow> nat \<Rightarrow> nat \<Rightarrow> nat \<Rightarrow> u32 \<Rightarrow> 'st io_operation" where
  "op_splice fd_in fd_out in_offset out_offset len flags =
     \<lparr>op_fd = fd_in, op_type = IoSplice fd_out in_offset out_offset len flags, op_duration = SingleShot\<rparr>"

text \<open>The operation that \<open>copy_to\<close> submits.\<close>

definition copy_to :: "raw_fd \<Rightarrow> raw_fd \<Rightarrow> nat \<Rightarrow> nat \<Rightarrow> nat \<Rightarrow> u32 \<Rightarrow> 'st io_operation" where
  "copy_to self fd buffer_length offset_in offset_out flags =
     op_splice self fd buffer_length offset_in offset_out flags"

definition op_accept :: "raw_fd \<Rightarrow> 'st io_operation" where
  "op_accept fd = \<lparr>op_fd = fd, op_type = IoAccept (replicate 128 0) 128, op_duration = SingleShot\<rparr>"

definition op_accept_multi :: "raw_fd \<Rightarrow> 'st io_operation" where
  "op_accept_multi fd = \<lparr>op_fd = fd, op_type = IoAcceptMulti, op_duration = Persistent\<rparr>"

definition op_connect :: "raw_fd \<Rightarrow> socket_address \<Rightarrow> io_duration \<Rightarrow> 'd io_submission_error + 'st io_operation" where
  "op_connect fd addr duration =
     (let s = sockaddr_storage_of addr in
      bind_result
        (if ss_family s = AF_INET then Inr 16
         else if ss_family s = AF_INET6 then Inr 28
         else Inl (UnsupportedAddressFamily (ss_family s)))
        (\<lambda>len. Inr \<lparr>op_fd = fd, op_type = IoConnect s len, op_duration = duration\<rparr>))"

definition op_shutdown :: "raw_fd \<Rightarrow> shutdown_type \<Rightarrow> io_duration \<Rightarrow> 'st io_operation" where
  "op_shutdown fd how duration = \<lparr>op_fd = fd, op_type = IoShutdown how, op_duration = duration\<rparr>"

definition op_close :: "raw_fd \<Rightarrow> io_duration \<Rightarrow> 'st io_operation" where
  "op_close fd duration = \<lparr>op_fd = fd, op_type = IoClose, op_duration = duration\<rparr>"

definition op_open_at :: "raw_fd \<Rightarrow> u8 list \<Rightarrow> open_settings \<Rightarrow> 'd io_submission_error + 'st io_operation" where
  "op_open_at fd path settings =
     bind_result (c_string path) (\<lambda>p.
     Inr \<lparr>op_fd = fd, op_type = IoOpenAt (Some p) settings, op_duration = SingleShot\<rparr>)"

definition op_stats_fd :: "'st \<Rightarrow> raw_fd \<Rightarrow> i32 \<Rightarrow> u32 \<Rightarrow> 'd io_submission_error + 'st io_operation" where
  "op_stats_fd zeroed fd flags smask =
     bind_result (c_string []) (\<lambda>p.
     Inr \<lparr>op_fd = fd, op_type = IoStatx \<lparr>sx_path = p, sx_flags = AT_EMPTY_PATH OR flags, sx_mask = smask, sx_statx = zeroed\<rparr>,
          op_duration = SingleShot\<rparr>)"

definition op_stats_path :: "'st \<Rightarrow> u8 list \<Rightarrow> i32 \<Rightarrow> u32 \<Rightarrow> 'd io_submission_error + 'st io_operation" where
  "op_stats_path zeroed path flags smask =
     bind_result (c_string path) (\<lambda>p.
     Inr \<lparr>op_fd = AT_FDCWD, op_type = IoStatx \<lparr>sx_path = p, sx_flags = flags, sx_mask = smask, sx_statx = zeroed\<rparr>,
          op_duration = SingleShot\<rparr>)"

definition op_unlink :: "u8 list \<Rightarrow> io_duration \<Rightarrow> 'd io_submission_error + 'st io_operation" where
  "op_unlink path duration =
     bind_result (c_string path) (\<lambda>p. Inr \<lparr>op_fd = AT_FDCWD, op_type = IoUnlink p, op_duration = duration\<rparr>)"

definition op_mkdir :: "u8 list \<Rightarrow> file_mode \<Rightarrow> io_duration \<Rightarrow> 'd io_submission_error + 'st io_operation" where
  "op_mkdir path mode duration =
     bind_result (c_string path) (\<lambda>p. Inr \<lparr>op_fd = AT_FDCWD, op_type = IoMkDir p mode, op_duration = duration\<rparr>)"

definition op_rename :: "u8 list \<Rightarrow> u8 list \<Rightarrow> io_duration \<Rightarrow> 'd io_submission_error + 'st io_operation" where
  "op_rename old new duration =
     bind_result (c_string old) (\<lambda>p. bind_result (c_string new) (\<lambda>q.
     Inr \<lparr>op_fd = AT_FDCWD, op_type = IoRename p q, op_duration = duration\<rparr>))"

definition op_cancel :: "u64 \<Rightarrow> io_duration \<Rightarrow> 'st io_operation" where
  "op_cancel key duration = \<lparr>op_fd = AT_FDCWD, op_type = IoCancel key, op_duration = duration\<rparr>"

definition op_timeout :: "u64 \<Rightarrow> u32 \<Rightarrow> 'st io_operation" where
  "op_timeout secs nanos =
     \<lparr>op_fd = AT_FDCWD, op_type = IoTimeout secs (ucast nanos), op_duration = SingleShot\<rparr>"

definition op_sync :: "raw_fd \<Rightarrow> io_duration \<Rightarrow> 'st io_operation" where
  "op_sync fd duration = \<lparr>op_fd = fd, op_type = IoFSync, op_duration = duration\<rparr>"

definition op_datasync :: "raw_fd \<Rightarrow> io_duration \<Rightarrow> 'st io_operation" where
  "op_datasync fd duration = \<lparr>op_fd = fd, op_type = IoFdatasync, op_duration = duration\<rparr>"

section \<open>Recovering buffers\<close>

text \<open>\<open>IoRecvMsgData\<close>: the control buffer, the data buffers, both.\<close>

definition recv_msg_into_bytes_mut :: "pending_message option \<Rightarrow> bytes_mut option" where
  [simp]: "recv_msg_into_bytes_mut m = (case m of None \<Rightarrow> None | Some p \<Rightarrow> rb_control (pm_buffers p))"

definition recv_msg_into_vec :: "pending_message option \<Rightarrow> bytes_mut list option" where
  [simp]: "recv_msg_into_vec m = (case m of None \<Rightarrow> None | Some p \<Rightarrow> rb_data (pm_buffers p))"

definition recv_msg_into_recvmsg_buffers :: "pending_message option \<Rightarrow> recv_msg_buffers option" where
  [simp]: "recv_msg_into_recvmsg_buffers m = map_option pm_buffers m"

fun into_bytes_mut :: "'st io_type \<Rightarrow> bytes_mut option" where
  "into_bytes_mut (IoRead b _) = b"
| "into_bytes_mut (IoRecv b _) = b"
| "into_bytes_mut (IoRecvMsg m _) = recv_msg_into_bytes_mut m"
| "into_bytes_mut _ = None"

fun into_vec :: "'st io_type \<Rightarrow> bytes_mut list option" where
  "into_vec (IoReadv bs _) = bs"
| "into_vec (IoRecvMsg m _) = recv_msg_into_vec m"
| "into_vec _ = None"

fun into_recvmsg_buffers :: "'st io_type \<Rightarrow> recv_msg_buffers option" where
  "into_recvmsg_buffers (IoRecvMsg m _) = recv_msg_into_recvmsg_buffers m"
| "into_recvmsg_buffers _ = None"

fun failure_into_bytes_mut :: "io_failure \<Rightarrow> bytes_mut option" where
  "failure_into_bytes_mut (ReadFailure b) = Some b"
| "failure_into_bytes_mut _ = None"

fun failure_into_vec :: "io_failure \<Rightarrow> bytes_mut list option" where
  "failure_into_vec (MultiReadFailure bs) = Some bs"
| "failure_into_vec _ = None"

fun failure_into_recvmsg_buffers :: "io_failure \<Rightarrow> recv_msg_buffers option" where
  "failure_into_recvmsg_buffers (MsgFailure r) = Some r"
| "failure_into_recvmsg_buffers _ = None"

section \<open>The type a future waits for\<close>

fun bytes_mut_of_completion :: "'st io_completion \<Rightarrow> bytes_mut option" where
  "bytes_mut_of_completion (ReadDone b _) = Some b"
| "bytes_mut_of_completion _ = None"

fun vec_of_completion :: "'st io_completion \<Rightarrow> bytes_mut list option" where
  "vec_of_completion (MultiReadDone bs _) = Some bs"
| "vec_of_completion _ = None"

definition bytes_of_completion :: "'st io_completion \<Rightarrow> u8 list option" where
  "bytes_of_completion c = map_option contents (bytes_mut_of_completion c)"

definition vec_bytes_of_completion :: "'st io_completion \<Rightarrow> u8 list list option" where
  "vec_bytes_of_completion c = map_option (map contents) (vec_of_completion c)"

text \<open>\<open>IoReadOutput<T>\<close>: the buffer as a \<open>T\<close>, and the count.\<close>

definition read_output_of_completion ::
  "('st io_completion \<Rightarrow> 'b option) \<Rightarrow> 'st io_completion \<Rightarrow> ('b \<times> nat) option" where
  "read_output_of_completion conv c =
     (case c of
        ReadDone _ n \<Rightarrow> map_option (\<lambda>b. (b, n)) (conv c)
      | MultiReadDone _ n \<Rightarrow> map_option (\<lambda>b. (b, n)) (conv c)
      | _ \<Rightarrow> None)"

fun usize_of_completion :: "'st io_completion \<Rightarrow> nat option" where
  "usize_of_completion (WriteDone n) = Some n"
| "usize_of_completion _ = None"

fun message_of_completion :: "'st io_completion \<Rightarrow> recv_message option" where
  "message_of_completion (MsgDone m) = Some m"
| "message_of_completion _ = None"

fun unit_of_completion :: "'st io_completion \<Rightarrow> unit option" where
  "unit_of_completion Success = Some ()"
| "unit_of_completion _ = None"

section \<open>Properties\<close>

text \<open>\<open>copy_to\<close> hands its length and offsets to \<open>splice\<close> in each other's places: it asks for the
  copy it was called for only when the three numbers are the same, and a copy with both offsets at zero
  is one of no bytes.\<close>

theorem copy_to_arguments_rotated:
  "(copy_to self fd n i j flags :: 'st io_operation) = op_splice self fd i j n flags \<longleftrightarrow> n = i \<and> i = j"
  by (auto simp: copy_to_def op_splice_def)

text \<open>The buffers an operation owns, however they can be taken back.\<close>

definition owned_buffers :: "'st io_type \<Rightarrow> recv_msg_buffers" where
  "owned_buffers t = \<lparr>rb_data = into_vec t, rb_control = into_bytes_mut t\<rparr>"

fun failed_buffers :: "io_failure \<Rightarrow> recv_msg_buffers" where
  "failed_buffers (MsgFailure r) = r"
| "failed_buffers f = \<lparr>rb_data = failure_into_vec f, rb_control = failure_into_bytes_mut f\<rparr>"

fun armed :: "'st io_type \<Rightarrow> bool" where
  "armed (IoRead b _) = (b \<noteq> None)"
| "armed (IoRecv b _) = (b \<noteq> None)"
| "armed (IoReadv bs _) = (bs \<noteq> None)"
| "armed (IoRecvMsg m _) = (m \<noteq> None)"
| "armed _ = True"

text \<open>When the kernel refuses an operation, the error carries every buffer the operation owned,
  unchanged, together with the error of the result code, and the operation is left without them.\<close>

theorem failed_operation_returns_buffers:
  assumes "armed (op_type op)" "sint r < 0"
  shows "case op_complete env op r of
      (Inl e, op') \<Rightarrow> failed_buffers (failure_of e) = owned_buffers (op_type op) \<and>
        os_error_of e = os_error_of_i32 (- r) \<and>
        owned_buffers (op_type op') = recv_buffers_default
    | (Inr _, _) \<Rightarrow> False"
  using assms
  by (cases "op_type op") (auto simp: op_complete_def owned_buffers_def recv_buffers_default_def Let_def)

theorem failed_operation_returns_buffers_witness:
  "case op_complete \<lparr>env_grow = \<lambda>_. [0], env_parse_msghdr = \<lambda>_. Inr []\<rparr>
       (op_read_into 3 (with_capacity [0, 0]) :: unit io_operation) (- 32) of
     (Inl e, _) \<Rightarrow> failed_buffers (failure_of e) = \<lparr>rb_data = None, rb_control = Some (with_capacity [0, 0])\<rparr>
   | (Inr _, _) \<Rightarrow> False"
  using failed_operation_returns_buffers [where op = "op_read_into 3 (with_capacity [0, 0]) :: unit io_operation"
      and r = "- 32" and env = "\<lparr>env_grow = \<lambda>_. [0], env_parse_msghdr = \<lambda>_. Inr []\<rparr>"]
  by (simp add: op_read_into_def op_read_at_into_def op_complete_def owned_buffers_def split: sum.splits prod.splits)

end
