(* ===== verification/Io_Completion.thy ===== *)
theory Io_Completion
  imports Io_Operation "HOL-Library.AList"
begin

text \<open>
  Submissions and their completions (\<open>src/io/entry.rs\<close>, \<open>submission.rs\<close>, \<open>completion.rs\<close>,
  \<open>completion_queue.rs\<close>, \<open>context.rs\<close>, \<open>src/key.rs\<close>): the slot of an operation, from its submission
  over the results the kernel reports to the polls that take them, and the queue of all slots. The
  concurrent map is an association list with one pair per key; operations on it are atomic, as its
  guards make them.
\<close>

section \<open>Keys and submissions\<close>

type_synonym key = u64

text \<open>\<open>KeyGenerator::get\<close>: the key and the counter after \<open>fetch_add\<close>, which wraps.\<close>

definition key_get :: "u64 \<Rightarrow> key \<times> u64" where
  "key_get n = (n, n + 1)"

record 'st io_entry =
  entry_op :: "'st io_operation"
  entry_key :: key

record 'st io_submission =
  sub_key :: key
  sub_op :: "'st io_operation"
  sub_waker :: "waker option"

definition submission_split :: "'st io_submission \<Rightarrow> 'st io_entry \<times> waker option" where
  "submission_split s = (\<lparr>entry_op = sub_op s, entry_key = sub_key s\<rparr>, sub_waker s)"

section \<open>The state of an operation\<close>

datatype multi_state = Running | Draining

record 'st multi_result =
  mr_inner :: "'st io_completion_result list"
  mr_op :: "'st io_operation"
  mr_state :: multi_state

definition multi_new :: "'st io_completion_result \<Rightarrow> 'st io_operation \<Rightarrow> 'st multi_result" where
  "multi_new result op = \<lparr>mr_inner = [result], mr_op = op, mr_state = Running\<rparr>"

definition is_canceled :: "'st io_completion_result \<Rightarrow> bool" where
  "is_canceled r = (case r of Inl e \<Rightarrow> os_error_of e = OperationCanceled | Inr _ \<Rightarrow> False)"

definition multi_complete :: "completion_env \<Rightarrow> 'st multi_result \<Rightarrow> i32 \<Rightarrow> 'st multi_result" where
  "multi_complete env m r =
     (let (completion, op) = op_complete env (mr_op m) r in
      m\<lparr>mr_op := op, mr_state := (if is_canceled completion then Draining else mr_state m),
        mr_inner := mr_inner m @ [completion]\<rparr>)"

datatype 'st completion_state =
    NotCompleted "'st io_entry"
  | SingleResult "'st io_completion_result"
  | MultiResult "'st multi_result"
  | Completed

definition entry_complete :: "completion_env \<Rightarrow> 'st io_entry \<Rightarrow> i32 \<Rightarrow> 'st completion_state" where
  "entry_complete env e r =
     (let (completion, op) = op_complete env (entry_op e) r in
      case op_duration op of
        Zero \<Rightarrow> Completed
      | SingleShot \<Rightarrow> SingleResult completion
      | Persistent \<Rightarrow> MultiResult (multi_new completion op))"

fun state_complete :: "completion_env \<Rightarrow> 'st completion_state \<Rightarrow> i32 \<Rightarrow> 'st completion_state option" where
  "state_complete env (NotCompleted e) r = Some (entry_complete env e r)"
| "state_complete env (SingleResult _) r = None"
| "state_complete env (MultiResult m) r = Some (MultiResult (multi_complete env m r))"
| "state_complete env Completed r = None"

fun into_result ::
  "'st completion_state \<Rightarrow> 'st io_completion_result option \<times> 'st completion_state option" where
  "into_result (NotCompleted e) = (None, Some (NotCompleted e))"
| "into_result (SingleResult r) = (Some r, None)"
| "into_result (MultiResult m) =
     (let is_empty = length (mr_inner m) \<le> 1;
          (res, m) = (case mr_inner m of [] \<Rightarrow> (None, m) | r # rs \<Rightarrow> (Some r, m\<lparr>mr_inner := rs\<rparr>))
      in (res, if mr_state m = Draining \<and> is_empty then None else Some (MultiResult m)))"
| "into_result Completed = (None, None)"

section \<open>Slots and the queue\<close>

record 'st slot =
  slot_state :: "'st completion_state option"
  slot_waker :: "waker option"

definition slot_new :: "'st io_entry \<Rightarrow> waker option \<Rightarrow> 'st slot" where
  "slot_new e w = \<lparr>slot_state = Some (NotCompleted e), slot_waker = w\<rparr>"

text \<open>\<open>IoCompletionSlot::complete\<close>: whether the slot stays valid, the slot, and who is woken.\<close>

definition slot_complete :: "completion_env \<Rightarrow> 'st slot \<Rightarrow> i32 \<Rightarrow> bool \<times> 'st slot \<times> waker option" where
  "slot_complete env s r =
     (let (ok, st) = (case slot_state s of
                        None \<Rightarrow> (False, None)
                      | Some st \<Rightarrow> (case state_complete env st r of
                                     None \<Rightarrow> (False, None)
                                   | Some st' \<Rightarrow> (True, Some st')))
      in (ok, s\<lparr>slot_state := st\<rparr>, slot_waker s))"

definition try_extract_result :: "'st slot \<Rightarrow> (unit + 'st io_completion_result option) \<times> 'st slot" where
  "try_extract_result s =
     (case slot_state s of
        None \<Rightarrow> (Inl (), s)
      | Some st \<Rightarrow> (let (res, st') = into_result st in (Inr res, s\<lparr>slot_state := st'\<rparr>)))"

type_synonym 'st queue = "(key \<times> 'st slot) list"

definition queue_poll ::
  "'st queue \<Rightarrow> key \<Rightarrow> waker \<Rightarrow> 'st io_completion_result option poll \<times> 'st queue" where
  "queue_poll q k w =
     (case map_of q k of
        None \<Rightarrow> (PollReady None, q)
      | Some slot \<Rightarrow>
          let (result, slot) = try_extract_result slot;
              is_valid = slot_state slot \<noteq> None;
              (ret, slot) = (case result of
                  Inl _ \<Rightarrow> (PollReady None, slot)
                | Inr (Some r) \<Rightarrow> (PollReady (Some r), slot)
                | Inr None \<Rightarrow> (PollPending, slot\<lparr>slot_waker := Some w\<rparr>))
          in (ret, if is_valid then AList.update k slot q else AList.delete k q))"

definition queue_add_entry :: "'st queue \<Rightarrow> key \<Rightarrow> 'st io_entry \<Rightarrow> waker option \<Rightarrow> 'st queue" where
  "queue_add_entry q k e w = AList.update k (slot_new e w) q"

text \<open>Whether the slot was removed, the queue, and who is woken.\<close>

definition queue_complete ::
  "completion_env \<Rightarrow> 'st queue \<Rightarrow> key \<Rightarrow> i32 \<Rightarrow> bool \<times> 'st queue \<times> waker option" where
  "queue_complete env q k r =
     (case map_of q k of
        None \<Rightarrow> (False, q, None)
      | Some slot \<Rightarrow>
          let (ok, slot, woken) = slot_complete env slot r in
          if ok then (False, AList.update k slot q, woken) else (True, AList.delete k q, woken))"

definition queue_len :: "'st queue \<Rightarrow> nat" where
  "queue_len q = length q"

section \<open>The ring\<close>

text \<open>\<open>IoContext\<close>: the slots, and the keys of the entries pushed to the ring (it is the kernel that takes
  entries out again); \<open>room\<close> is how many more the submission ring takes.\<close>

record 'st io_context =
  ctx_queue :: "'st queue"
  ctx_in_flight :: "key list"

definition prepare_submission ::
  "nat \<Rightarrow> 'st io_submission \<Rightarrow> 'st io_context \<Rightarrow> 'st io_submission option \<times> 'st io_context" where
  "prepare_submission room s c =
     (let (entry, w) = submission_split s in
      if room = 0 then (Some \<lparr>sub_key = sub_key s, sub_op = entry_op entry, sub_waker = w\<rparr>, c)
      else (None, c\<lparr>ctx_queue := queue_add_entry (ctx_queue c) (sub_key s) entry w,
                    ctx_in_flight := ctx_in_flight c @ [sub_key s]\<rparr>))"

text \<open>How many completions \<open>blocking_submit\<close> waits for.\<close>

definition blocking_submit_wants :: "'st io_context \<Rightarrow> nat" where
  "blocking_submit_wants c = queue_len (ctx_queue c)"

text \<open>\<open>IoContext::complete\<close> over the completions in the ring.\<close>

fun context_complete ::
  "completion_env \<Rightarrow> (key \<times> i32) list \<Rightarrow> 'st queue \<Rightarrow> 'st queue \<times> waker list" where
  "context_complete env [] q = (q, [])"
| "context_complete env ((k, r) # items) q =
     (let (_, q, woken) = queue_complete env q k r;
          (q, ws) = context_complete env items q
      in (q, (case woken of None \<Rightarrow> [] | Some w \<Rightarrow> [w]) @ ws))"

end
