(* ===== verification/Assoc.thy ===== *)
theory Assoc
  imports Prelude "HOL-Library.AList"
begin

text \<open>
  Facts about association lists with one pair per key, as the components keep hash maps in them.
\<close>

lemma update_fresh: "k \<notin> fst ` set al \<Longrightarrow> AList.update k v al = al @ [(k, v)]"
  by (induction al) auto

lemma set_delete: "set (AList.delete k al) = {p \<in> set al. fst p \<noteq> k}"
  by (auto simp: AList.delete_eq)

lemma keys_delete: "map fst (AList.delete k al) = removeAll k (map fst al)"
  by (simp add: AList.delete_keys)

lemma dom_delete: "fst ` set (AList.delete k al) = fst ` set al - {k}"
  by (auto simp: AList.delete_eq)

lemma delete_fresh: "k \<notin> fst ` set al \<Longrightarrow> AList.delete k al = al"
  by (induction al) auto

lemma map_of_Some_key: "map_of al k = Some v \<Longrightarrow> k \<in> fst ` set al"
  by (force dest: map_of_SomeD)

lemma map_of_None_key: "map_of al k = None \<longleftrightarrow> k \<notin> fst ` set al"
  by (simp add: map_of_eq_None_iff)

text \<open>\<open>HashMap::entry\<close> with \<open>or_insert\<close>.\<close>

definition or_insert :: "'k \<Rightarrow> 'v \<Rightarrow> ('k \<times> 'v) list \<Rightarrow> ('k \<times> 'v) list" where
  "or_insert k v al = (case map_of al k of None \<Rightarrow> AList.update k v al | Some _ \<Rightarrow> al)"

lemma keys_or_insert: "fst ` set (or_insert k v al) = insert k (fst ` set al)"
  using map_of_None_key [of al k] map_of_Some_key [of al k]
  by (auto simp: or_insert_def update_fresh split: option.splits)

lemma map_of_or_insert: "\<exists>w. map_of (or_insert k v al) k = Some w"
  by (simp add: or_insert_def AList.update_conv' split: option.split)

lemma distinct_or_insert: "distinct (map fst al) \<Longrightarrow> distinct (map fst (or_insert k v al))"
  by (auto simp: or_insert_def AList.distinct_update split: option.splits)

lemma set_or_insert: "set (or_insert k v al) \<subseteq> insert (k, v) (set al)"
  using map_of_None_key [of al k] by (auto simp: or_insert_def update_fresh split: option.splits)

end
