(* ===== verification/Keyed_Store.thy ===== *)
theory Keyed_Store
  imports Assoc
begin

text \<open>
  What a store of slots promises to the code that interleaves events of many keys: an event on one key
  is a step of that key's slot, and the other slots are left alone. So what a run of events gives out for
  a key, and the slot it leaves there, depend only on that key's events.
\<close>

section \<open>Events on keyed slots\<close>

text \<open>Runs of events on a store, and of the events of one key on its slot, with what they give out.\<close>

fun run_events ::
  "('k \<Rightarrow> 'e \<Rightarrow> 'q \<Rightarrow> 'o option \<times> 'q) \<Rightarrow> ('k \<times> 'e) list \<Rightarrow> 'q \<Rightarrow> ('k \<times> 'o) list \<times> 'q" where
  "run_events event [] q = ([], q)"
| "run_events event ((k, e) # es) q =
     (let (r, q') = event k e q; (rs, q'') = run_events event es q'
      in ((case r of None \<Rightarrow> [] | Some x \<Rightarrow> [(k, x)]) @ rs, q''))"

fun run_slot :: "('e \<Rightarrow> 's \<Rightarrow> 'o option \<times> 's) \<Rightarrow> 'e list \<Rightarrow> 's \<Rightarrow> 'o list \<times> 's" where
  "run_slot slot_event [] s = ([], s)"
| "run_slot slot_event (e # es) s =
     (let (r, s') = slot_event e s; (rs, s'') = run_slot slot_event es s'
      in ((case r of None \<Rightarrow> [] | Some x \<Rightarrow> [x]) @ rs, s''))"

locale keyed_store =
  fixes get :: "'q \<Rightarrow> 'k \<Rightarrow> 'v option"
    and event :: "'k \<Rightarrow> 'e \<Rightarrow> 'q \<Rightarrow> 'o option \<times> 'q"
    and slot_event :: "'k \<Rightarrow> 'e \<Rightarrow> 'v option \<Rightarrow> 'o option \<times> 'v option"
  assumes out: "fst (event k e q) = fst (slot_event k e (get q k))"
    and own: "get (snd (event k e q)) k = snd (slot_event k e (get q k))"
    and frame: "k' \<noteq> k \<Longrightarrow> get (snd (event k e q)) k' = get q k'"
begin

lemma run_projects:
  "map snd (filter (\<lambda>p. fst p = k) (fst (run_events event es q)))
     = fst (run_slot (slot_event k) (map snd (filter (\<lambda>p. fst p = k) es)) (get q k))
   \<and> get (snd (run_events event es q)) k = snd (run_slot (slot_event k) (map snd (filter (\<lambda>p. fst p = k) es)) (get q k))"
proof (induction es arbitrary: q)
  case (Cons p es)
  obtain k' e where p: "p = (k', e)" by fastforce
  obtain r q' where ev: "event k' e q = (r, q')" by fastforce
  show ?case
  proof (cases "k' = k")
    case True
    obtain r2 s' where se: "slot_event k e (get q k) = (r2, s')" by fastforce
    have "r2 = r" "get q' k = s'" using out [of k e q] own [of k e q] ev se True by auto
    with Cons [of q'] p ev se True show ?thesis
      by (auto simp: split_beta split: option.split)
  next
    case False
    have "get q' k = get q k" using frame [of k k' e q] ev False by simp
    with Cons [of q'] p ev False show ?thesis
      by (auto simp: split_beta split: option.split)
  qed
qed simp

end

end
