(* ===== verification/Io_Completion_Props.thy ===== *)
theory Io_Completion_Props
  imports Io_Completion Keyed_Store "HOL-Library.Sublist"
begin

text \<open>
  Properties of completions. The completion queue is a \<open>keyed_store\<close>, so what is delivered for a key
  depends only on that key's events.
\<close>

section \<open>The queue as a keyed store\<close>

datatype queue_event = Reported i32 | Polled waker

definition slot_poll :: "waker \<Rightarrow> 'st slot option \<Rightarrow> 'st io_completion_result option poll \<times> 'st slot option" where
  "slot_poll w s =
     (case s of
        None \<Rightarrow> (PollReady None, None)
      | Some slot \<Rightarrow>
          (case slot_state slot of
             None \<Rightarrow> (PollReady None, None)
           | Some st \<Rightarrow>
               (case into_result st of
                  (Some r, Some st') \<Rightarrow> (PollReady (Some r), Some (slot\<lparr>slot_state := Some st'\<rparr>))
                | (Some r, None) \<Rightarrow> (PollReady (Some r), None)
                | (None, Some st') \<Rightarrow> (PollPending, Some (slot\<lparr>slot_state := Some st', slot_waker := Some w\<rparr>))
                | (None, None) \<Rightarrow> (PollPending, None))))"

definition slot_report :: "completion_env \<Rightarrow> i32 \<Rightarrow> 'st slot option \<Rightarrow> 'st slot option" where
  "slot_report env r s =
     (case s of
        None \<Rightarrow> None
      | Some slot \<Rightarrow>
          (case slot_state slot of
             None \<Rightarrow> None
           | Some st \<Rightarrow> map_option (\<lambda>st'. slot\<lparr>slot_state := Some st'\<rparr>) (state_complete env st r)))"

lemma map_of_delete: "map_of (AList.delete k q) = (map_of q)(k := None)"
  by (simp add: delete_conv')

lemma map_of_update: "map_of (AList.update k v q) = (map_of q)(k \<mapsto> v)"
  by (simp add: update_conv')

lemma queue_poll_slot:
  "fst (queue_poll q k w) = fst (slot_poll w (map_of q k)) \<and>
   map_of (snd (queue_poll q k w)) = (map_of q)(k := snd (slot_poll w (map_of q k)))"
proof (cases "map_of q k")
  case None
  then show ?thesis by (simp add: queue_poll_def slot_poll_def fun_upd_idem)
next
  case (Some slot)
  show ?thesis
  proof (cases "slot_state slot")
    case None
    with Some show ?thesis
      by (simp add: queue_poll_def slot_poll_def try_extract_result_def map_of_delete)
  next
    case (Some st)
    obtain a b where "into_result st = (a, b)" by fastforce
    with \<open>map_of q k = Some slot\<close> Some show ?thesis
      by (cases a; cases b)
        (simp_all add: queue_poll_def slot_poll_def try_extract_result_def map_of_delete map_of_update)
  qed
qed

lemma queue_complete_slot:
  "map_of (fst (snd (queue_complete env q k r))) = (map_of q)(k := slot_report env r (map_of q k))"
proof (cases "map_of q k")
  case None
  then show ?thesis by (simp add: queue_complete_def slot_report_def fun_upd_idem)
next
  case (Some slot)
  then show ?thesis
    by (auto simp: queue_complete_def slot_report_def slot_complete_def map_of_delete map_of_update
        split: option.splits)
qed

lemma queue_complete_woken:
  "snd (snd (queue_complete env q k r)) = (case map_of q k of None \<Rightarrow> None | Some s \<Rightarrow> slot_waker s)"
  by (auto simp: queue_complete_def slot_complete_def Let_def split: option.splits)

lemma map_of_add_entry: "map_of (queue_add_entry q k e w) = (map_of q)(k \<mapsto> slot_new e w)"
  by (simp add: queue_add_entry_def map_of_update)

fun delivered_by :: "'a option poll \<Rightarrow> 'a option" where
  "delivered_by (PollReady r) = r"
| "delivered_by PollPending = None"

fun apply_event ::
  "completion_env \<Rightarrow> key \<Rightarrow> queue_event \<Rightarrow> 'st queue \<Rightarrow> 'st io_completion_result option \<times> 'st queue" where
  "apply_event env k (Reported r) q = (None, fst (snd (queue_complete env q k r)))"
| "apply_event env k (Polled w) q = (let (p, q') = queue_poll q k w in (delivered_by p, q'))"

fun slot_event ::
  "completion_env \<Rightarrow> queue_event \<Rightarrow> 'st slot option \<Rightarrow> 'st io_completion_result option \<times> 'st slot option" where
  "slot_event env (Reported r) s = (None, slot_report env r s)"
| "slot_event env (Polled w) s = (let (p, s') = slot_poll w s in (delivered_by p, s'))"

interpretation slots: keyed_store map_of "apply_event env" "\<lambda>_. slot_event env" for env
proof
  fix k k' :: key and e and q :: "'st queue"
  show "fst (apply_event env k e q) = fst (slot_event env e (map_of q k))"
    using queue_poll_slot [of q k] by (cases e) (auto simp: split_beta)
  show "map_of (snd (apply_event env k e q)) k = snd (slot_event env e (map_of q k))"
    using queue_poll_slot [of q k] queue_complete_slot [of env q k] by (cases e) (auto simp: split_beta)
  show "k' \<noteq> k \<Longrightarrow> map_of (snd (apply_event env k e q)) k' = map_of q k'"
    using queue_poll_slot [of q k] queue_complete_slot [of env q k] by (cases e) (auto simp: split_beta)
qed

section \<open>One-shot operations\<close>

lemma op_complete_duration: "op_duration (snd (op_complete env op r)) = op_duration op"
  by (simp add: op_complete_def split: prod.splits)

text \<open>C21. A one-shot operation is delivered exactly once: a poll before the kernel reports is pending and
  leaves its waker, the report wakes that waker, the next poll takes the result of the operation for
  the reported code and frees the slot, a further poll finds nothing; other keys are untouched.\<close>

theorem single_shot_delivered_once:
  assumes "op_duration (entry_op e) = SingleShot"
  shows "let q0 = queue_add_entry q k e w0;
      (p1, q1) = queue_poll q0 k w1;
      (removed, q2, woken) = queue_complete env q1 k r;
      (p2, q3) = queue_poll q2 k w2;
      (p3, q4) = queue_poll q3 k w3
    in p1 = PollPending \<and> \<not> removed \<and> woken = Some w1 \<and>
       p2 = PollReady (Some (fst (op_complete env (entry_op e) r))) \<and> p3 = PollReady None \<and>
       map_of q3 = (map_of q)(k := None) \<and> map_of q4 = map_of q3"
proof -
  define q0 where "q0 = queue_add_entry q k e w0"
  obtain p1 q1 where 1: "queue_poll q0 k w1 = (p1, q1)" by fastforce
  obtain rem q2 woken where 2: "queue_complete env q1 k r = (rem, q2, woken)" by (metis prod_cases3)
  obtain p2 q3 where 3: "queue_poll q2 k w2 = (p2, q3)" by fastforce
  obtain p3 q4 where 4: "queue_poll q3 k w3 = (p3, q4)" by fastforce
  let ?res = "fst (op_complete env (entry_op e) r)"
  have m0: "map_of q0 = (map_of q)(k \<mapsto> slot_new e w0)" by (simp add: q0_def map_of_add_entry)
  have m1: "p1 = PollPending" "map_of q1 = (map_of q)(k \<mapsto> slot_new e (Some w1))"
    using queue_poll_slot [of q0 k w1] m0 1 by (auto simp: slot_poll_def slot_new_def)
  have ec: "entry_complete env e r = SingleResult ?res"
    using assms op_complete_duration [of env "entry_op e" r] by (simp add: entry_complete_def split_beta)
  have m2: "map_of q2 = (map_of q)(k \<mapsto> \<lparr>slot_state = Some (SingleResult ?res), slot_waker = Some w1\<rparr>)"
    using queue_complete_slot [of env q1 k r] m1 2 ec by (simp add: slot_report_def slot_new_def)
  have woken: "woken = Some w1" using queue_complete_woken [of env q1 k r] m1 2 by (simp add: slot_new_def)
  have kept: "\<not> rem" using 2 m1 ec by (auto simp: queue_complete_def slot_complete_def slot_new_def)
  have m3: "p2 = PollReady (Some ?res)" "map_of q3 = (map_of q)(k := None)"
    using queue_poll_slot [of q2 k w2] m2 3 by (auto simp: slot_poll_def)
  have m4: "p3 = PollReady None" "map_of q4 = map_of q3"
    using queue_poll_slot [of q3 k w3] m3 4 by (auto simp: slot_poll_def)
  show ?thesis
    using m1 m2 m3 m4 woken kept by (simp add: q0_def [symmetric] 1 2 3 4 Let_def)
qed

theorem single_shot_delivered_once_witness:
  "fst (queue_poll (fst (snd (queue_complete \<lparr>env_grow = \<lambda>_. [0], env_parse_msghdr = \<lambda>_. Inr []\<rparr>
      (snd (queue_poll (queue_add_entry []
         7 \<lparr>entry_op = op_close 5 SingleShot :: unit io_operation, entry_key = 7\<rparr> None) 7 1)) 7 0))) 7 2)
   = PollReady (Some (Inr Success))"
  using single_shot_delivered_once [where q = "[]" and k = 7 and r = 0 and ?w0.0 = None and ?w1.0 = 1 and ?w2.0 = 2
      and ?w3.0 = 3 and env = "\<lparr>env_grow = \<lambda>_. [0], env_parse_msghdr = \<lambda>_. Inr []\<rparr>"
      and e = "\<lparr>entry_op = op_close 5 SingleShot :: unit io_operation, entry_key = 7\<rparr>"]
  by (simp add: op_close_def op_complete_def Let_def split_beta)

section \<open>Persistent operations\<close>

text \<open>The results of an operation for a sequence of reported codes.\<close>

fun results_of :: "completion_env \<Rightarrow> 'st io_operation \<Rightarrow> i32 list \<Rightarrow> 'st io_completion_result list" where
  "results_of env op [] = []"
| "results_of env op (r # rs) =
     (let (c, op') = op_complete env op r in c # results_of env op' rs)"

fun reported :: "queue_event list \<Rightarrow> i32 list" where
  "reported [] = []"
| "reported (Reported r # es) = r # reported es"
| "reported (Polled _ # es) = reported es"

definition events_of :: "key \<Rightarrow> (key \<times> queue_event) list \<Rightarrow> queue_event list" where
  "events_of k es = map snd (filter (\<lambda>p. fst p = k) es)"

definition delivered_to :: "key \<Rightarrow> (key \<times> 'r) list \<Rightarrow> 'r list" where
  "delivered_to k rs = map snd (filter (\<lambda>p. fst p = k) rs)"

definition queued_results :: "'st slot option \<Rightarrow> 'st io_completion_result list" where
  "queued_results s =
     (case s of
        Some slot \<Rightarrow> (case slot_state slot of Some (MultiResult m) \<Rightarrow> mr_inner m | _ \<Rightarrow> [])
      | None \<Rightarrow> [])"

lemma run_slot_gone [simp]: "run_slot (slot_event env) es None = ([], None)"
  by (induction es rule: reported.induct) (simp_all add: slot_report_def slot_poll_def)

lemma run_slot_multi:
  assumes "slot_state slot = Some (MultiResult m)"
  shows "prefix (fst (run_slot (slot_event env) es (Some slot))) (mr_inner m @ results_of env (mr_op m) (reported es)) \<and>
    (snd (run_slot (slot_event env) es (Some slot)) \<noteq> None \<longrightarrow>
      fst (run_slot (slot_event env) es (Some slot)) @ queued_results (snd (run_slot (slot_event env) es (Some slot)))
        = mr_inner m @ results_of env (mr_op m) (reported es))"
  using assms
proof (induction es arbitrary: slot m)
  case Nil
  then show ?case by (simp add: queued_results_def)
next
  case (Cons ev es)
  show ?case
  proof (cases ev)
    case (Reported r)
    obtain c op' where c: "op_complete env (mr_op m) r = (c, op')" by fastforce
    let ?m = "multi_complete env m r" and ?slot = "slot\<lparr>slot_state := Some (MultiResult (multi_complete env m r))\<rparr>"
    have m: "mr_inner ?m = mr_inner m @ [c]" "mr_op ?m = op'" using c by (simp_all add: multi_complete_def)
    have "slot_report env r (Some slot) = Some ?slot" using Cons.prems by (simp add: slot_report_def)
    with Cons.IH [of ?slot ?m] Reported m c show ?thesis by (simp add: split_beta)
  next
    case (Polled w)
    show ?thesis
    proof (cases "mr_inner m")
      case Nil
      show ?thesis
      proof (cases "mr_state m")
        case Running
        let ?slot = "slot\<lparr>slot_state := Some (MultiResult m), slot_waker := Some w\<rparr>"
        have "slot_poll w (Some slot) = (PollPending, Some ?slot)"
          using Cons.prems Nil Running by (simp add: slot_poll_def)
        with Cons.IH [of ?slot m] Polled Nil show ?thesis by (simp add: split_beta)
      next
        case Draining
        then have "slot_poll w (Some slot) = (PollPending, None)"
          using Cons.prems Nil by (simp add: slot_poll_def)
        with Polled show ?thesis by simp
      qed
    next
      case inner: (Cons x xs)
      let ?m = "m\<lparr>mr_inner := xs\<rparr>" and ?slot = "slot\<lparr>slot_state := Some (MultiResult (m\<lparr>mr_inner := xs\<rparr>))\<rparr>"
      show ?thesis
      proof (cases "mr_state m = Draining \<and> xs = []")
        case True
        then have "slot_poll w (Some slot) = (PollReady (Some x), None)"
          using Cons.prems inner by (simp add: slot_poll_def)
        with Polled inner show ?thesis by simp
      next
        case False
        then have "slot_poll w (Some slot) = (PollReady (Some x), Some ?slot)"
          using Cons.prems inner by (auto simp: slot_poll_def)
        with Cons.IH [of ?slot ?m] Polled inner show ?thesis by (simp add: split_beta)
      qed
    qed
  qed
qed

lemma run_slot_waiting:
  assumes "slot_state slot = Some (NotCompleted e)" "op_duration (entry_op e) = Persistent"
  shows "prefix (fst (run_slot (slot_event env) es (Some slot))) (results_of env (entry_op e) (reported es)) \<and>
    (snd (run_slot (slot_event env) es (Some slot)) \<noteq> None \<longrightarrow>
      fst (run_slot (slot_event env) es (Some slot)) @ queued_results (snd (run_slot (slot_event env) es (Some slot)))
        = results_of env (entry_op e) (reported es))"
  using assms
proof (induction es arbitrary: slot)
  case Nil
  then show ?case by (simp add: queued_results_def)
next
  case (Cons ev es)
  show ?case
  proof (cases ev)
    case (Reported r)
    obtain c op' where c: "op_complete env (entry_op e) r = (c, op')" by fastforce
    then have "op_duration op' = Persistent"
      using op_complete_duration [of env "entry_op e" r] Cons.prems(2) by simp
    then have ec: "entry_complete env e r = MultiResult (multi_new c op')"
      using c by (simp add: entry_complete_def)
    let ?slot = "slot\<lparr>slot_state := Some (MultiResult (multi_new c op'))\<rparr>"
    have "slot_report env r (Some slot) = Some ?slot" using Cons.prems(1) ec by (simp add: slot_report_def)
    with run_slot_multi [of ?slot "multi_new c op'" env es] Reported c show ?thesis
      by (simp add: split_beta multi_new_def)
  next
    case (Polled w)
    have "slot_poll w (Some slot) = (PollPending, Some (slot\<lparr>slot_state := Some (NotCompleted e), slot_waker := Some w\<rparr>))"
      using Cons.prems(1) by (simp add: slot_poll_def)
    with Cons.IH [of "slot\<lparr>slot_state := Some (NotCompleted e), slot_waker := Some w\<rparr>"] Cons.prems(2) Polled
    show ?thesis by (simp add: split_beta)
  qed
qed

text \<open>C11. A persistent operation, however reports and polls of it and of other operations interleave:
  what its polls deliver are the results of the reported codes in the order of the reports, none lost,
  doubled or reordered, and as long as its slot is there what is not yet delivered is queued.\<close>

theorem persistent_delivered_in_order:
  assumes "op_duration (entry_op e) = Persistent"
  shows "let (out, q') = run_events (apply_event env) es (queue_add_entry q k e w);
      delivered = delivered_to k out;
      results = results_of env (entry_op e) (reported (events_of k es))
    in prefix delivered results \<and>
       (map_of q' k \<noteq> None \<longrightarrow> delivered @ queued_results (map_of q' k) = results)"
  using slots.run_projects [of k env es "queue_add_entry q k e w"]
    run_slot_waiting [OF _ assms, of "slot_new e w" env "events_of k es"]
  by (simp add: split_beta delivered_to_def events_of_def map_of_add_entry slot_new_def)

theorem persistent_delivered_in_order_witness:
  "delivered_to 3 (fst (run_events (apply_event \<lparr>env_grow = \<lambda>_. [0], env_parse_msghdr = \<lambda>_. Inr []\<rparr>)
      [(3, Reported 10), (3, Reported 11), (3, Polled 0), (3, Polled 0)]
      (queue_add_entry [] 3 \<lparr>entry_op = op_accept_multi 5 :: unit io_operation, entry_key = 3\<rparr> None)))
    = [Inr (AcceptDone 10 None), Inr (AcceptDone 11 None)]"
  using persistent_delivered_in_order [where env = "\<lparr>env_grow = \<lambda>_. [0], env_parse_msghdr = \<lambda>_. Inr []\<rparr>"
      and e = "\<lparr>entry_op = op_accept_multi 5 :: unit io_operation, entry_key = 3\<rparr>" and k = 3 and q = "[]"
      and w = None and es = "[(3, Reported 10), (3, Reported 11), (3, Polled 0), (3, Polled 0)]"]
  by (simp add: op_accept_multi_def delivered_to_def events_of_def queue_add_entry_def queue_complete_def
      slot_complete_def slot_new_def entry_complete_def op_complete_def multi_new_def multi_complete_def
      is_canceled_def queue_poll_def try_extract_result_def Let_def)

text \<open>When the first thing reported of a persistent operation is its cancellation, its slot never
  drains: after the error is taken, every poll is pending and the slot stays, whatever is polled.\<close>

theorem canceled_first_never_drains:
  assumes "op_duration (entry_op e) = Persistent" "is_canceled (fst (op_complete env (entry_op e) r))"
  shows "let q1 = fst (snd (queue_complete env (queue_add_entry q k e w0) k r));
      (p1, q2) = queue_poll q1 k w1;
      (out, q3) = run_events (apply_event env) (map (\<lambda>w. (k, Polled w)) ws) q2
    in p1 = PollReady (Some (fst (op_complete env (entry_op e) r))) \<and> out = [] \<and> map_of q3 k \<noteq> None"
proof -
  obtain c op' where c: "op_complete env (entry_op e) r = (c, op')" by fastforce
  then have d: "op_duration op' = Persistent"
    using op_complete_duration [of env "entry_op e" r] assms(1) by simp
  define q1 where "q1 = fst (snd (queue_complete env (queue_add_entry q k e w0) k r))"
  have m1: "map_of q1 k = Some \<lparr>slot_state = Some (MultiResult (multi_new c op')), slot_waker = w0\<rparr>"
    using queue_complete_slot [of env "queue_add_entry q k e w0" k r] c d
    by (simp add: q1_def map_of_add_entry slot_report_def slot_new_def entry_complete_def)
  obtain p1 q2 where 2: "queue_poll q1 k w1 = (p1, q2)" by fastforce
  have m2: "p1 = PollReady (Some c)"
    "map_of q2 k = Some \<lparr>slot_state = Some (MultiResult \<lparr>mr_inner = [], mr_op = op', mr_state = Running\<rparr>), slot_waker = w0\<rparr>"
    using queue_poll_slot [of q1 k w1] m1 2 by (auto simp: slot_poll_def multi_new_def)
  have stuck: "fst (run_slot (slot_event env) (map Polled ws) (Some s)) = [] \<and>
      snd (run_slot (slot_event env) (map Polled ws) (Some s)) \<noteq> None"
    if "slot_state s = Some (MultiResult \<lparr>mr_inner = [], mr_op = op', mr_state = Running\<rparr>)" for s
    using that
  proof (induction ws arbitrary: s)
    case (Cons w ws)
    from Cons.IH [of "s\<lparr>slot_state := Some (MultiResult \<lparr>mr_inner = [], mr_op = op', mr_state = Running\<rparr>),
        slot_waker := Some w\<rparr>"] Cons.prems show ?case
      by (simp add: slot_poll_def split_beta)
  qed simp
  let ?es = "map (\<lambda>w. (k, Polled w)) ws"
  have evs: "filter (\<lambda>p. fst p = k) ?es = ?es" by (simp add: filter_id_conv)
  have all: "filter (\<lambda>p. fst p = k) (fst (run_events (apply_event env) ?es q2)) = fst (run_events (apply_event env) ?es q2)"
  proof -
    have "\<forall>p \<in> set (fst (run_events (apply_event env) (map (\<lambda>w. (k, Polled w)) ws) qq)). fst p = k" for qq
      by (induction ws arbitrary: qq) (auto simp: split_beta split: option.splits)
    then show ?thesis by (simp add: filter_id_conv)
  qed
  have "fst (run_events (apply_event env) ?es q2) = [] \<and> map_of (snd (run_events (apply_event env) ?es q2)) k \<noteq> None"
    using slots.run_projects [of k env ?es q2] stuck [of "the (map_of q2 k)"] m2(2)
    by (simp add: evs all comp_def)
  with 2 m2(1) c show ?thesis by (simp add: q1_def [symmetric] split_beta)
qed

theorem canceled_first_never_drains_witness:
  "map_of (snd (queue_poll (fst (snd (queue_complete \<lparr>env_grow = \<lambda>_. [0], env_parse_msghdr = \<lambda>_. Inr []\<rparr>
      (queue_add_entry [] 3 \<lparr>entry_op = op_accept_multi 5 :: unit io_operation, entry_key = 3\<rparr> None) 3 (- 125)))) 3 0)) 3
    \<noteq> None"
  using canceled_first_never_drains [where env = "\<lparr>env_grow = \<lambda>_. [0], env_parse_msghdr = \<lambda>_. Inr []\<rparr>"
      and e = "\<lparr>entry_op = op_accept_multi 5 :: unit io_operation, entry_key = 3\<rparr>" and k = 3 and q = "[]"
      and r = "- 125" and ?w0.0 = None and ?w1.0 = 0 and ws = "[]"]
  by (simp add: op_accept_multi_def op_complete_def is_canceled_def os_error_of_i32_def split_beta Let_def)

section \<open>Operations submitted and forgotten\<close>

text \<open>The slot of a forgotten operation outlives its completion: once the kernel has reported it,
  nothing is in flight, yet the queue still holds the slot and the shutdown's blocking submit waits for
  one completion more than there is anything to complete.\<close>

theorem forgotten_slot_stays:
  assumes "op_duration (entry_op e) = Zero" "map_of q k = None"
  shows "let (removed, q', woken) = queue_complete env (queue_add_entry q k e w) k r in
    \<not> removed \<and> map_option slot_state (map_of q' k) = Some (Some Completed) \<and>
    blocking_submit_wants \<lparr>ctx_queue = q', ctx_in_flight = []\<rparr> = Suc (queue_len q)"
proof -
  have ec: "entry_complete env e r = Completed"
    using assms(1) op_complete_duration [of env "entry_op e" r] by (simp add: entry_complete_def split_beta)
  have notin: "k \<notin> fst ` set q" using assms(2) by (simp add: map_of_eq_None_iff)
  have add: "queue_add_entry q k e w = q @ [(k, slot_new e w)]"
    using notin unfolding queue_add_entry_def by (induction q) auto
  have upd: "AList.update k v (q @ [(k, s)]) = q @ [(k, v)]" for v s
    using notin by (induction q) auto
  have "map_of (q @ [(k, v)]) k = Some v" for v
    using assms(2) by (simp add: map_add_def)
  then show ?thesis
    by (simp add: queue_complete_def add slot_complete_def slot_new_def ec upd blocking_submit_wants_def
        queue_len_def)
qed

theorem forgotten_slot_stays_witness:
  "let (removed, q', woken) = queue_complete \<lparr>env_grow = \<lambda>_. [0], env_parse_msghdr = \<lambda>_. Inr []\<rparr>
      (queue_add_entry [] 1 \<lparr>entry_op = op_close 5 Zero :: unit io_operation, entry_key = 1\<rparr> None) 1 0 in
    \<not> removed \<and> blocking_submit_wants \<lparr>ctx_queue = q', ctx_in_flight = []\<rparr> = 1"
  using forgotten_slot_stays [where q = "[]" and k = 1 and r = 0 and w = None
      and env = "\<lparr>env_grow = \<lambda>_. [0], env_parse_msghdr = \<lambda>_. Inr []\<rparr>"
      and e = "\<lparr>entry_op = op_close 5 Zero :: unit io_operation, entry_key = 1\<rparr>"]
  by (simp add: op_close_def queue_len_def split_beta Let_def)

end
