(* ===== verification/Task_Executor.thy ===== *)
theory Task_Executor
  imports Transition Assoc "HOL-Library.Multiset"
begin

text \<open>
  The task executor of a worker thread (\<open>src/task/executor.rs\<close>, \<open>task/id.rs\<close>, \<open>task/waker.rs\<close>,
  \<open>task/mod.rs\<close>, \<open>src/yield.rs\<close>): the queue of ready tasks, the tasks parked until they are woken, and
  the cache of wakers. What a task does when it is polled is the user's code, an argument. Hash maps are
  association lists with one pair per key. A waker is known by the task it wakes.
\<close>

section \<open>Tasks\<close>

type_synonym task_id = u64

text \<open>\<open>TaskId::new\<close>: the id and the counter afterwards; \<open>fetch_add\<close> wraps.\<close>

definition task_id_new :: "u64 \<Rightarrow> task_id \<times> u64" where
  "task_id_new n = (n, n + 1)"

record 'f local_task =
  task_future :: 'f
  task_id :: task_id

definition local_task_new :: "'f \<Rightarrow> u64 \<Rightarrow> 'f local_task \<times> u64" where
  "local_task_new f n = (let (i, n) = task_id_new n in (\<lparr>task_future = f, task_id = i\<rparr>, n))"

section \<open>The executor\<close>

record 'f executor =
  ready_tasks :: "'f local_task list"
  running_tasks :: "(task_id \<times> 'f local_task) list"
  waker_cache :: "(task_id \<times> task_id) list"

definition executor_new :: "'f executor" where
  "executor_new = \<lparr>ready_tasks = [], running_tasks = [], waker_cache = []\<rparr>"

definition executor_spawn :: "'f local_task \<Rightarrow> 'f executor \<Rightarrow> 'f executor" where
  "executor_spawn t ex = ex\<lparr>ready_tasks := ready_tasks ex @ [t]\<rparr>"

definition wake_task :: "task_id \<Rightarrow> 'f executor \<Rightarrow> 'f executor" where
  "wake_task i ex =
     (case map_of (running_tasks ex) i of
        None \<Rightarrow> ex
      | Some t \<Rightarrow> ex\<lparr>running_tasks := AList.delete i (running_tasks ex),
                     ready_tasks := ready_tasks ex @ [t]\<rparr>)"

definition has_ready_tasks :: "'f executor \<Rightarrow> bool" where
  "has_ready_tasks ex \<longleftrightarrow> ready_tasks ex \<noteq> []"

definition has_running_tasks :: "'f executor \<Rightarrow> bool" where
  "has_running_tasks ex \<longleftrightarrow> running_tasks ex \<noteq> []"

text \<open>\<open>run_task\<close>; the user's \<open>poll\<close> gets the future and the cached waker.\<close>

definition run_task ::
  "('f \<Rightarrow> task_id \<Rightarrow> unit poll \<times> 'f) \<Rightarrow> 'f local_task \<Rightarrow> 'f executor \<Rightarrow> 'f executor" where
  "run_task poll t ex =
     (let i = task_id t;
          cache = or_insert i i (waker_cache ex);
          w = the (map_of cache i);
          (p, f) = poll (task_future t) w
      in case p of
           PollReady _ \<Rightarrow> ex\<lparr>waker_cache := AList.delete i cache\<rparr>
         | PollPending \<Rightarrow>
             ex\<lparr>waker_cache := cache, running_tasks := AList.update i (t\<lparr>task_future := f\<rparr>) (running_tasks ex)\<rparr>)"

text \<open>\<open>run_ready_tasks\<close>: pops until the queue is empty; polling a task never pushes to the queue.\<close>

fun run_tasks ::
  "('f \<Rightarrow> task_id \<Rightarrow> unit poll \<times> 'f) \<Rightarrow> 'f local_task list \<Rightarrow> 'f executor \<Rightarrow> 'f executor" where
  "run_tasks poll [] ex = ex"
| "run_tasks poll (t # ts) ex = run_tasks poll ts (run_task poll t (ex\<lparr>ready_tasks := ts\<rparr>))"

definition run_ready_tasks ::
  "('f \<Rightarrow> task_id \<Rightarrow> unit poll \<times> 'f) \<Rightarrow> 'f executor \<Rightarrow> 'f executor" where
  "run_ready_tasks poll ex = run_tasks poll (ready_tasks ex) ex"

section \<open>Yielding\<close>

text \<open>\<open>YieldFuture::poll\<close>: what it gives, the flag, and whether it wakes its own task.\<close>

definition yield_poll :: "bool \<Rightarrow> unit poll \<times> bool \<times> bool" where
  "yield_poll yielded = (if yielded then (PollReady (), True, False) else (PollPending, True, True))"

section \<open>Where tasks are\<close>

definition ready_ids :: "'f executor \<Rightarrow> task_id list" where
  "ready_ids ex = map task_id (ready_tasks ex)"

definition running_ids :: "'f executor \<Rightarrow> task_id list" where
  "running_ids ex = map fst (running_tasks ex)"

text \<open>A well-formed executor holds each task once, under its own id, and keeps a waker exactly for
  tasks it has polled and not finished.\<close>

definition executor_wf :: "'f executor \<Rightarrow> bool" where
  "executor_wf ex \<longleftrightarrow>
     distinct (ready_ids ex @ running_ids ex) \<and>
     (\<forall>(i, t) \<in> set (running_tasks ex). task_id t = i) \<and>
     distinct (map fst (waker_cache ex)) \<and>
     (\<forall>(i, w) \<in> set (waker_cache ex). w = i) \<and>
     set (running_ids ex) \<subseteq> fst ` set (waker_cache ex) \<and>
     fst ` set (waker_cache ex) \<subseteq> set (ready_ids ex) \<union> set (running_ids ex)"

named_theorems executor_defs

lemmas [executor_defs] =
  executor_wf_def ready_ids_def running_ids_def executor_spawn_def wake_task_def Let_def

lemma executor_wf_new [simp]: "executor_wf executor_new"
  by (simp add: executor_new_def executor_defs)

lemma ids_spawn [simp]:
  "ready_ids (executor_spawn t ex) = ready_ids ex @ [task_id t]"
  "running_ids (executor_spawn t ex) = running_ids ex"
  "waker_cache (executor_spawn t ex) = waker_cache ex"
  by (simp_all add: executor_defs)

lemma executor_wf_spawn:
  "executor_wf ex \<Longrightarrow> task_id t \<notin> set (ready_ids ex) \<union> set (running_ids ex) \<Longrightarrow>
     executor_wf (executor_spawn t ex)"
  by (auto simp: executor_defs)

lemma map_of_running:
  "executor_wf ex \<Longrightarrow> map_of (running_tasks ex) i = Some t \<Longrightarrow> i \<in> set (running_ids ex) \<and> task_id t = i"
  by (auto simp: executor_wf_def running_ids_def dest!: map_of_SomeD intro!: rev_image_eqI)

lemma map_of_running_None: "map_of (running_tasks ex) i = None \<longleftrightarrow> i \<notin> set (running_ids ex)"
  by (simp add: map_of_eq_None_iff running_ids_def)

lemma ids_wake:
  assumes "executor_wf ex"
  shows "ready_ids (wake_task i ex) = ready_ids ex @ (if i \<in> set (running_ids ex) then [i] else [])"
    and "running_ids (wake_task i ex) = removeAll i (running_ids ex)"
    and "waker_cache (wake_task i ex) = waker_cache ex"
  using map_of_running [OF assms, of i] map_of_running_None [of ex i]
  by (auto simp: executor_defs AList.delete_keys removeAll_id split: option.splits)

lemma executor_wf_wake: "executor_wf ex \<Longrightarrow> executor_wf (wake_task i ex)"
  using ids_wake [of ex i]
  by (auto simp: executor_wf_def distinct_removeAll wake_task_def set_delete split: option.splits)

text \<open>Whether a poll of the task parks it again.\<close>

definition parks :: "('f \<Rightarrow> task_id \<Rightarrow> unit poll \<times> 'f) \<Rightarrow> 'f local_task \<Rightarrow> bool" where
  "parks poll t \<longleftrightarrow> fst (poll (task_future t) (task_id t)) = PollPending"

lemma run_task_unfold:
  assumes "executor_wf (ex\<lparr>ready_tasks := t # ready_tasks ex\<rparr>)"
  shows "run_task poll t ex =
    (let cache = or_insert (task_id t) (task_id t) (waker_cache ex) in
     if parks poll t
     then ex\<lparr>waker_cache := cache,
             running_tasks := running_tasks ex @
               [(task_id t, t\<lparr>task_future := snd (poll (task_future t) (task_id t))\<rparr>)]\<rparr>
     else ex\<lparr>waker_cache := AList.delete (task_id t) cache\<rparr>)"
proof -
  have "set (or_insert (task_id t) (task_id t) (waker_cache ex)) \<subseteq> {(i, w). w = i}"
    using assms set_or_insert [of "task_id t" "task_id t" "waker_cache ex"] by (auto simp: executor_wf_def)
  moreover obtain w where "map_of (or_insert (task_id t) (task_id t) (waker_cache ex)) (task_id t) = Some w"
    using map_of_or_insert by fast
  ultimately have "map_of (or_insert (task_id t) (task_id t) (waker_cache ex)) (task_id t) = Some (task_id t)"
    by (auto dest: map_of_SomeD)
  moreover have "task_id t \<notin> fst ` set (running_tasks ex)"
    using assms by (auto simp: executor_wf_def ready_ids_def running_ids_def)
  ultimately show ?thesis
    by (auto simp: run_task_def Let_def parks_def update_fresh split: prod.split poll.split)
qed

lemma run_task_ids:
  assumes "executor_wf (ex\<lparr>ready_tasks := t # ready_tasks ex\<rparr>)"
  shows "ready_tasks (run_task poll t ex) = ready_tasks ex"
    and "running_ids (run_task poll t ex) = running_ids ex @ (if parks poll t then [task_id t] else [])"
    and "executor_wf (run_task poll t ex)"
proof -
  have d: "distinct (map fst (or_insert (task_id t) (task_id t) (waker_cache ex)))"
    using assms by (intro distinct_or_insert) (simp add: executor_wf_def)
  show "ready_tasks (run_task poll t ex) = ready_tasks ex"
    by (simp add: run_task_unfold [OF assms] Let_def)
  show "running_ids (run_task poll t ex) = running_ids ex @ (if parks poll t then [task_id t] else [])"
    by (simp add: run_task_unfold [OF assms] Let_def running_ids_def)
  show "executor_wf (run_task poll t ex)"
  proof (cases "parks poll t")
    case True
    then show ?thesis
      using assms d keys_or_insert [of "task_id t" "task_id t" "waker_cache ex"]
        set_or_insert [of "task_id t" "task_id t" "waker_cache ex"]
      unfolding run_task_unfold [OF assms] Let_def executor_wf_def ready_ids_def running_ids_def
      by auto
  next
    case False
    have sub: "set (AList.delete (task_id t) (or_insert (task_id t) (task_id t) (waker_cache ex))) \<subseteq> set (waker_cache ex)"
      using set_or_insert [of "task_id t" "task_id t" "waker_cache ex"] by (auto simp: set_delete)
    then have "(\<forall>(i, w) \<in> set (AList.delete (task_id t) (or_insert (task_id t) (task_id t) (waker_cache ex))). w = i)"
      using assms by (auto simp: executor_wf_def)
    then show ?thesis
      using False assms d keys_or_insert [of "task_id t" "task_id t" "waker_cache ex"]
      unfolding run_task_unfold [OF assms] Let_def executor_wf_def ready_ids_def running_ids_def
      by (auto simp: dom_delete keys_delete distinct_removeAll) (metis fst_conv image_eqI)
  qed
qed

text \<open>A round of \<open>run_ready_tasks\<close>: every ready task is polled once, in order, with its own waker.\<close>

definition park :: "('f \<Rightarrow> task_id \<Rightarrow> unit poll \<times> 'f) \<Rightarrow> 'f local_task \<Rightarrow> task_id \<times> 'f local_task" where
  "park poll t = (task_id t, t\<lparr>task_future := snd (poll (task_future t) (task_id t))\<rparr>)"

lemma run_task_running:
  assumes "executor_wf (ex\<lparr>ready_tasks := t # ready_tasks ex\<rparr>)"
  shows "running_tasks (run_task poll t ex) = running_tasks ex @ (if parks poll t then [park poll t] else [])"
  by (simp add: run_task_unfold [OF assms] Let_def park_def)

lemma run_tasks_round:
  "executor_wf ex \<Longrightarrow> ready_tasks ex = ts \<Longrightarrow>
     ready_tasks (run_tasks poll ts ex) = [] \<and>
     running_tasks (run_tasks poll ts ex) = running_tasks ex @ map (park poll) (filter (parks poll) ts) \<and>
     executor_wf (run_tasks poll ts ex)"
proof (induction ts arbitrary: ex)
  case (Cons t ts)
  let ?ex = "ex\<lparr>ready_tasks := ts\<rparr>"
  have wf: "executor_wf (?ex\<lparr>ready_tasks := t # ready_tasks ?ex\<rparr>)"
    using Cons.prems by (metis executor.select_convs(1) executor.surjective executor.update_convs(1))
  from Cons.IH [of "run_task poll t ?ex"] show ?case
    by (simp add: run_task_ids [OF wf] run_task_running [OF wf])
qed simp

lemma run_ready_tasks_wf: "executor_wf ex \<Longrightarrow> executor_wf (run_ready_tasks poll ex)"
  using run_tasks_round [of ex] by (simp add: run_ready_tasks_def)

text \<open>A call of \<open>run_ready_tasks\<close> is one round: it empties the queue, polls every task that was
  ready exactly once and in order with the task's own waker, and parks in that order, behind the tasks
  already parked, those whose poll is pending, with the future the poll left.\<close>

theorem run_ready_tasks_round:
  assumes "executor_wf ex"
  shows "ready_tasks (run_ready_tasks poll ex) = [] \<and>
    running_tasks (run_ready_tasks poll ex) =
      running_tasks ex @ map (park poll) (filter (parks poll) (ready_tasks ex)) \<and>
    executor_wf (run_ready_tasks poll ex)"
  using run_tasks_round [OF assms refl] by (simp add: run_ready_tasks_def)

definition two_tasks :: "nat executor" where
  "two_tasks = executor_spawn \<lparr>task_future = 0, task_id = 1\<rparr> (executor_spawn \<lparr>task_future = 1, task_id = 0\<rparr> executor_new)"

definition countdown :: "nat \<Rightarrow> task_id \<Rightarrow> unit poll \<times> nat" where
  "countdown n w = (if n = 0 then (PollReady (), 0) else (PollPending, n - 1))"

lemma two_tasks_wf: "executor_wf two_tasks"
  by (simp add: two_tasks_def executor_new_def executor_defs)

theorem run_ready_tasks_round_witness:
  "running_tasks (run_ready_tasks countdown two_tasks) = [(0, \<lparr>task_future = 0, task_id = 0\<rparr>)]"
  using run_ready_tasks_round [OF two_tasks_wf, of countdown]
  by (simp add: two_tasks_def executor_new_def executor_spawn_def parks_def park_def countdown_def)

section \<open>A scheduler\<close>

text \<open>What the executor promises: which tasks are alive and which of them are to be polled.\<close>

record scheduler =
  live :: "task_id set"
  runnable :: "task_id set"

definition sched_spawn :: "task_id \<Rightarrow> scheduler \<Rightarrow> scheduler" where
  "sched_spawn i s = \<lparr>live = insert i (live s), runnable = insert i (runnable s)\<rparr>"

definition sched_wake :: "task_id \<Rightarrow> scheduler \<Rightarrow> scheduler" where
  "sched_wake i s = s\<lparr>runnable := (if i \<in> live s then insert i (runnable s) else runnable s)\<rparr>"

text \<open>A round in which the tasks \<open>fin\<close> finish when they are polled.\<close>

definition sched_round :: "task_id set \<Rightarrow> scheduler \<Rightarrow> scheduler" where
  "sched_round fin s = \<lparr>live = live s - (runnable s \<inter> fin), runnable = {}\<rparr>"

definition sched_of :: "'f executor \<Rightarrow> scheduler" where
  "sched_of ex = \<lparr>live = set (ready_ids ex) \<union> set (running_ids ex), runnable = set (ready_ids ex)\<rparr>"

text \<open>C10. The executor implements the scheduler: seen through the sets of live and of runnable tasks,
  spawning, waking and running a round are the scheduler's operations, and each keeps the executor
  well-formed.\<close>

theorem executor_refines_scheduler:
  assumes "executor_wf ex" "task_id t \<notin> live (sched_of ex)"
  shows "sched_of (executor_spawn t ex) = sched_spawn (task_id t) (sched_of ex) \<and>
    executor_wf (executor_spawn t ex) \<and>
    sched_of (wake_task i ex) = sched_wake i (sched_of ex) \<and> executor_wf (wake_task i ex) \<and>
    sched_of (run_ready_tasks poll ex) =
      sched_round {task_id u | u. u \<in> set (ready_tasks ex) \<and> \<not> parks poll u} (sched_of ex) \<and>
    executor_wf (run_ready_tasks poll ex)"
proof -
  have round: "sched_of (run_ready_tasks poll ex) =
      sched_round {task_id u | u. u \<in> set (ready_tasks ex) \<and> \<not> parks poll u} (sched_of ex)"
  proof -
    have d: "distinct (ready_ids ex)" "set (ready_ids ex) \<inter> set (running_ids ex) = {}"
      using assms(1) by (auto simp: executor_wf_def)
    then have inj: "inj_on task_id (set (ready_tasks ex))" by (simp add: ready_ids_def distinct_map)
    have "live (sched_of (run_ready_tasks poll ex)) =
        set (running_ids ex) \<union> task_id ` {u \<in> set (ready_tasks ex). parks poll u}"
      using run_tasks_round [OF assms(1) refl, of poll]
      by (auto simp: run_ready_tasks_def sched_of_def ready_ids_def running_ids_def park_def image_iff)
    also have "\<dots> = live (sched_of ex) - (runnable (sched_of ex) \<inter>
        {task_id u | u. u \<in> set (ready_tasks ex) \<and> \<not> parks poll u})"
      using d inj by (auto simp: sched_of_def ready_ids_def inj_on_def; metis)
    finally show ?thesis
      using run_tasks_round [OF assms(1) refl, of poll]
      by (simp add: sched_round_def sched_of_def run_ready_tasks_def ready_ids_def)
  qed
  have wake: "sched_of (wake_task i ex) = sched_wake i (sched_of ex)"
    using ids_wake [OF assms(1), of i] assms(1) by (auto simp: sched_of_def sched_wake_def)
  have spawn: "sched_of (executor_spawn t ex) = sched_spawn (task_id t) (sched_of ex)"
    by (auto simp: sched_of_def sched_spawn_def)
  have "executor_wf (executor_spawn t ex)"
    using assms by (intro executor_wf_spawn) (auto simp: sched_of_def)
  with round wake spawn show ?thesis
    using assms(1) executor_wf_wake run_ready_tasks_wf by blast
qed

theorem executor_refines_scheduler_witness:
  "sched_of (run_ready_tasks countdown two_tasks) = sched_round {1} (sched_of two_tasks)"
proof -
  have "{task_id u | u. u \<in> set (ready_tasks two_tasks) \<and> \<not> parks countdown u} = {1}"
    by (auto simp: two_tasks_def executor_new_def executor_spawn_def parks_def countdown_def
        intro!: exI [of _ "\<lparr>task_future = 0, task_id = 1\<rparr>"])
  moreover have "task_id (\<lparr>task_future = 0, task_id = 2\<rparr> :: nat local_task) \<notin> live (sched_of two_tasks)"
    by (simp add: two_tasks_def executor_new_def sched_of_def executor_defs)
  ultimately show ?thesis
    using executor_refines_scheduler [OF two_tasks_wf, of "\<lparr>task_future = 0, task_id = 2\<rparr>" 0 countdown]
    by simp
qed

section \<open>Tasks and their wake-ups\<close>

text \<open>
  A worker's tasks with the channel their wake-ups travel through. \<open>TaskWaker\<close> sends \<open>WakeTask\<close> from
  any thread; the worker handles one message or polls one ready task at a time. Beside the state of the
  code the system remembers the tasks that finished, how many ids were handed out, and which tasks have
  been woken since they were last polled.
\<close>

datatype 'f task_message = SpawnMessage "'f local_task" | WakeMessage task_id

record 'f task_sys =
  ts_exec :: "'f executor"
  ts_inbox :: "'f task_message list"
  ts_next_id :: u64
  ts_total :: nat
  ts_woken :: "task_id list"
  ts_finished :: "task_id list"

definition task_sys_init :: "'f task_sys" where
  "task_sys_init = \<lparr>ts_exec = executor_new, ts_inbox = [], ts_next_id = 0, ts_total = 0,
     ts_woken = [], ts_finished = []\<rparr>"

datatype 'f task_action =
    SpawnRequest 'f
  | Wake task_id
  | HandleMessage
  | PollFront "unit poll" 'f     \<comment> \<open>what the front task's poll gives and leaves\<close>

fun task_act :: "'f task_action \<Rightarrow> 'f task_sys \<Rightarrow> 'f task_sys option" where
  "task_act (SpawnRequest f) s =
     (let (t, n) = local_task_new f (ts_next_id s) in
      Some (s\<lparr>ts_next_id := n, ts_total := Suc (ts_total s), ts_inbox := ts_inbox s @ [SpawnMessage t]\<rparr>))"
| "task_act (Wake i) s = Some (s\<lparr>ts_inbox := ts_inbox s @ [WakeMessage i], ts_woken := i # ts_woken s\<rparr>)"
| "task_act HandleMessage s =
     (case ts_inbox s of
        [] \<Rightarrow> None
      | SpawnMessage t # ms \<Rightarrow> Some (s\<lparr>ts_inbox := ms, ts_exec := executor_spawn t (ts_exec s)\<rparr>)
      | WakeMessage i # ms \<Rightarrow> Some (s\<lparr>ts_inbox := ms, ts_exec := wake_task i (ts_exec s)\<rparr>))"
| "task_act (PollFront p f) s =
     (case ready_tasks (ts_exec s) of
        [] \<Rightarrow> None
      | t # ts \<Rightarrow>
          Some (s\<lparr>ts_exec := run_task (\<lambda>_ _. (p, f)) t ((ts_exec s)\<lparr>ready_tasks := ts\<rparr>),
                  ts_woken := removeAll (task_id t) (ts_woken s),
                  ts_finished := (if p = PollPending then ts_finished s else task_id t # ts_finished s)\<rparr>))"

text \<open>The ids of all tasks, wherever they are.\<close>

definition spawn_ids :: "'f task_message list \<Rightarrow> task_id list" where
  "spawn_ids ms = concat (map (\<lambda>m. case m of SpawnMessage t \<Rightarrow> [task_id t] | WakeMessage _ \<Rightarrow> []) ms)"

definition all_ids :: "'f task_sys \<Rightarrow> task_id list" where
  "all_ids s = spawn_ids (ts_inbox s) @ ready_ids (ts_exec s) @ running_ids (ts_exec s) @ ts_finished s"

definition handed_out :: "'f task_sys \<Rightarrow> task_id list" where
  "handed_out s = map of_nat [0..<ts_total s]"

lemma spawn_ids_simps [simp]:
  "spawn_ids [] = []"
  "spawn_ids (SpawnMessage t # ms) = task_id t # spawn_ids ms"
  "spawn_ids (WakeMessage i # ms) = spawn_ids ms"
  "spawn_ids (ms @ ms') = spawn_ids ms @ spawn_ids ms'"
  by (simp_all add: spawn_ids_def)

lemma distinct_handed_out: "ts_total s \<le> 2 ^ 64 \<Longrightarrow> distinct (handed_out s)"
  unfolding handed_out_def distinct_map
  by (auto simp: inj_on_def word_of_nat_eq_iff take_bit_nat_eq_self)

definition task_inv :: "'f task_sys \<Rightarrow> bool" where
  "task_inv s \<longleftrightarrow> ts_total s \<le> 2 ^ 64 \<longrightarrow>
     ts_next_id s = of_nat (ts_total s) \<and> executor_wf (ts_exec s) \<and>
     mset (all_ids s) = mset (handed_out s) \<and>
     (\<forall>i \<in> set (ts_woken s) \<inter> set (running_ids (ts_exec s)). WakeMessage i \<in> set (ts_inbox s))"

lemma task_inv_init: "task_inv task_sys_init"
  by (simp add: task_inv_def task_sys_init_def all_ids_def handed_out_def ready_ids_def running_ids_def
      executor_new_def executor_wf_def)

lemma all_ids_distinct: "task_inv s \<Longrightarrow> ts_total s \<le> 2 ^ 64 \<Longrightarrow> distinct (all_ids s)"
  using distinct_handed_out [of s] by (metis mset_eq_imp_distinct_iff task_inv_def)

lemma task_inv_step:
  assumes "task_inv s" "task_act a s = Some s'"
  shows "task_inv s'"
proof (cases "ts_total s' \<le> 2 ^ 64")
  case True
  then have le: "ts_total s \<le> 2 ^ 64"
    using assms(2) by (cases a) (auto simp: Let_def split: list.splits task_message.splits prod.splits)
  note inv = assms(1) [unfolded task_inv_def, rule_format, OF le]
  note dist = all_ids_distinct [OF assms(1) le]
  show ?thesis
  proof (cases a)
    case (SpawnRequest f)
    with assms(2) inv show ?thesis
      by (auto simp: task_inv_def all_ids_def handed_out_def local_task_new_def task_id_new_def
          atLeast0_lessThan_Suc)
  next
    case (Wake i)
    with assms(2) inv show ?thesis
      by (auto simp: task_inv_def all_ids_def handed_out_def)
  next
    case HandleMessage
    then obtain m ms where ms: "ts_inbox s = m # ms"
      using assms(2) by (auto split: list.splits)
    show ?thesis
    proof (cases m)
      case (SpawnMessage t)
      have "task_id t \<notin> set (ready_ids (ts_exec s)) \<union> set (running_ids (ts_exec s))"
        using dist by (simp add: all_ids_def ms SpawnMessage)
      with assms(2) inv ms SpawnMessage HandleMessage show ?thesis
        by (auto simp: task_inv_def all_ids_def handed_out_def executor_wf_spawn)
    next
      case (WakeMessage i)
      have running: "mset (if i \<in> set (running_ids (ts_exec s)) then [i] else []) + mset (removeAll i (running_ids (ts_exec s)))
          = mset (running_ids (ts_exec s))"
        using dist by (simp add: all_ids_def distinct_remove1_removeAll [symmetric])
      have s': "s' = s\<lparr>ts_inbox := ms, ts_exec := wake_task i (ts_exec s)\<rparr>"
        using assms(2) ms WakeMessage HandleMessage by simp
      note w = ids_wake [of "ts_exec s" i] executor_wf_wake [of "ts_exec s" i]
      have "mset (all_ids s') = mset (all_ids s)"
        using w inv ms WakeMessage running by (simp add: s' all_ids_def ac_simps)
      with inv ms WakeMessage w show ?thesis
        by (auto simp: task_inv_def handed_out_def s')
    qed
  next
    case (PollFront p f)
    then obtain t ts where ts: "ready_tasks (ts_exec s) = t # ts"
      using assms(2) by (auto split: list.splits)
    let ?ex = "(ts_exec s)\<lparr>ready_tasks := ts\<rparr>"
    have wf: "executor_wf (?ex\<lparr>ready_tasks := t # ready_tasks ?ex\<rparr>)"
      using inv ts by (metis executor.select_convs(1) executor.surjective executor.update_convs(1))
    note r = run_task_ids [OF wf, of "\<lambda>_ _. (p, f)"]
    have ids: "ready_ids (ts_exec s) = task_id t # map task_id ts"
      "ready_ids (run_task (\<lambda>_ _. (p, f)) t ?ex) = map task_id ts" "running_ids ?ex = running_ids (ts_exec s)"
      using ts r(1) by (simp_all add: ready_ids_def running_ids_def)
    show ?thesis
      using assms(2) PollFront inv ts r(2,3) ids dist
      by (auto simp: task_inv_def all_ids_def handed_out_def parks_def)
  qed
qed (simp add: task_inv_def)

interpretation tasks: invariant_of task_act task_sys_init task_inv
  by unfold_locales (auto intro: task_inv_init task_inv_step)

text \<open>C39. However spawning, waking and polling interleave, and as long as task ids have not wrapped
  around, each task that was ever spawned is in exactly one place: on its way to the worker, ready,
  parked, or finished.\<close>

theorem tasks_conserved:
  assumes "reachable task_act task_sys_init s" "ts_total s \<le> 2 ^ 64"
  shows "mset (spawn_ids (ts_inbox s) @ ready_ids (ts_exec s) @ running_ids (ts_exec s) @ ts_finished s) =
      mset (map of_nat [0..<ts_total s]) \<and>
    distinct (spawn_ids (ts_inbox s) @ ready_ids (ts_exec s) @ running_ids (ts_exec s) @ ts_finished s)"
  using tasks.reachable_inv [OF assms(1)] all_ids_distinct [OF tasks.reachable_inv [OF assms(1)] assms(2)] assms(2)
  by (simp only: task_inv_def all_ids_def [symmetric] handed_out_def simp_thms)

definition task_demo :: "unit task_action list" where
  "task_demo = [SpawnRequest (), SpawnRequest (), HandleMessage, HandleMessage, PollFront PollPending (), Wake 0]"

lemma task_demo_run:
  "run task_act task_demo task_sys_init = Some
     \<lparr>ts_exec = \<lparr>ready_tasks = [\<lparr>task_future = (), task_id = 1\<rparr>],
        running_tasks = [(0, \<lparr>task_future = (), task_id = 0\<rparr>)], waker_cache = [(0, 0)]\<rparr>,
      ts_inbox = [WakeMessage 0], ts_next_id = 2, ts_total = 2, ts_woken = [0], ts_finished = []\<rparr>"
  by (simp add: task_demo_def task_sys_init_def executor_new_def local_task_new_def task_id_new_def
      executor_spawn_def run_task_def or_insert_def)

theorem tasks_conserved_witness:
  "\<exists>s. run task_act task_demo task_sys_init = Some s \<and>
    mset (all_ids s) = mset (map of_nat [0..<2])"
  using tasks_conserved [OF run_reachable [OF task_demo_run]] task_demo_run
  by (simp add: all_ids_def)

text \<open>C7. No wake-up is lost: a parked task that was woken since its last poll, by whatever thread and
  at whatever moment, has its \<open>WakeTask\<close> message still in the channel; once the worker has handled the
  messages in the channel, every task that was woken and is not finished is ready to be polled.\<close>

theorem no_lost_wakeup:
  assumes "reachable task_act task_sys_init s" "ts_total s \<le> 2 ^ 64"
  shows "(\<forall>i \<in> set (ts_woken s) \<inter> set (running_ids (ts_exec s)). WakeMessage i \<in> set (ts_inbox s)) \<and>
    (\<exists>s'. run task_act (replicate (length (ts_inbox s)) HandleMessage) s = Some s' \<and> ts_inbox s' = [] \<and>
      (\<forall>i \<in> set (ts_woken s). i \<in> set (map of_nat [0..<ts_total s]) \<longrightarrow> i \<notin> set (ts_finished s) \<longrightarrow>
         i \<in> set (ready_ids (ts_exec s'))))"
proof -
  have drain: "\<exists>s'. run task_act (replicate n HandleMessage) s = Some s' \<and> ts_inbox s' = [] \<and>
      ts_woken s' = ts_woken s \<and> ts_finished s' = ts_finished s \<and> ts_total s' = ts_total s"
    if "length (ts_inbox s) = n" for n and s :: "'a task_sys"
    using that
  proof (induction n arbitrary: s)
    case (Suc n)
    then obtain m ms where m: "ts_inbox s = m # ms" by (cases "ts_inbox s") auto
    obtain s1 where s1: "task_act HandleMessage s = Some s1" "ts_inbox s1 = ms"
      "ts_woken s1 = ts_woken s" "ts_finished s1 = ts_finished s" "ts_total s1 = ts_total s"
      using m by (cases m) auto
    with Suc.IH [of s1] Suc.prems m show ?case by auto
  qed simp
  obtain s' where s': "run task_act (replicate (length (ts_inbox s)) HandleMessage) s = Some s'" "ts_inbox s' = []"
    "ts_woken s' = ts_woken s" "ts_finished s' = ts_finished s" "ts_total s' = ts_total s"
    using drain by blast
  have inv: "task_inv s'" using tasks.reachable_inv [OF reachable_run [OF assms(1) s'(1)]] .
  then have "set (all_ids s') = set (handed_out s')"
    using assms(2) s'(5) by (metis mset_eq_setD task_inv_def)
  moreover have "set (ts_woken s) \<inter> set (running_ids (ts_exec s')) = {}"
    using inv assms(2) s' by (auto simp: task_inv_def)
  ultimately have "\<forall>i \<in> set (ts_woken s). i \<in> set (map of_nat [0..<ts_total s]) \<longrightarrow> i \<notin> set (ts_finished s) \<longrightarrow>
      i \<in> set (ready_ids (ts_exec s'))"
    using s' by (auto simp: all_ids_def handed_out_def)
  moreover have "\<forall>i \<in> set (ts_woken s) \<inter> set (running_ids (ts_exec s)). WakeMessage i \<in> set (ts_inbox s)"
    using tasks.reachable_inv [OF assms(1)] assms(2) by (simp add: task_inv_def)
  ultimately show ?thesis using s' by blast
qed

theorem no_lost_wakeup_witness:
  "\<exists>s. run task_act task_demo task_sys_init = Some s \<and> WakeMessage 0 \<in> set (ts_inbox s)"
  using no_lost_wakeup [OF run_reachable [OF task_demo_run]] task_demo_run
  by (simp add: running_ids_def)

end
