(* ===== verification/Events.thy ===== *)
theory Events
  imports Os_Error Keyed_Store "HOL-Library.Sublist"
begin

text \<open>
  Events of file descriptors (\<open>src/events/\<close>): event and interest types, the queues tasks wait on, the
  registry that finds the queue of a key, and the table of registered interests. The queue a receiver
  shares with the registry is the registry's entry for the receiver's key. The calls of \<open>epoll\<close> are
  arguments. Flag sets are their bits.
\<close>

section \<open>Event types\<close>

abbreviation READABLE :: i32 where "READABLE \<equiv> EPOLLIN"
abbreviation WRITABLE :: i32 where "WRITABLE \<equiv> EPOLLOUT"
abbreviation ERROR :: i32 where "ERROR \<equiv> EPOLLERR"
abbreviation HUP :: i32 where "HUP \<equiv> EPOLLHUP"
abbreviation RDHUP :: i32 where "RDHUP \<equiv> EPOLLRDHUP"

definition SHUTDOWN :: i32 where "SHUTDOWN = push_bit 1 EPOLLRDHUP"
definition KILL :: i32 where "KILL = push_bit 2 EPOLLRDHUP"

definition event_type_bits :: i32 where
  "event_type_bits = READABLE OR WRITABLE OR ERROR OR HUP OR RDHUP OR SHUTDOWN OR KILL"

definition flags_contain :: "'a::len word \<Rightarrow> 'a word \<Rightarrow> bool" where
  "flags_contain f g \<longleftrightarrow> f AND g = g"

record event =
  event_type :: i32
  event_key :: u64

text \<open>\<open>from_libc_epoll_event\<close>: unknown bits of the kernel are dropped.\<close>

definition event_of_epoll :: "u32 \<Rightarrow> u64 \<Rightarrow> event" where
  "event_of_epoll events data = \<lparr>event_type = events AND event_type_bits, event_key = data\<rparr>"

definition is_readable :: "event \<Rightarrow> bool" where "is_readable e \<longleftrightarrow> flags_contain (event_type e) READABLE"
definition is_writable :: "event \<Rightarrow> bool" where "is_writable e \<longleftrightarrow> flags_contain (event_type e) WRITABLE"
definition is_error :: "event \<Rightarrow> bool" where "is_error e \<longleftrightarrow> flags_contain (event_type e) ERROR"
definition is_hup :: "event \<Rightarrow> bool" where "is_hup e \<longleftrightarrow> flags_contain (event_type e) HUP"
definition is_rdhup :: "event \<Rightarrow> bool" where "is_rdhup e \<longleftrightarrow> flags_contain (event_type e) RDHUP"
definition is_shutdown :: "event \<Rightarrow> bool" where "is_shutdown e \<longleftrightarrow> flags_contain (event_type e) SHUTDOWN"
definition is_kill :: "event \<Rightarrow> bool" where "is_kill e \<longleftrightarrow> flags_contain (event_type e) KILL"

section \<open>Interest types\<close>

definition INTEREST_READ :: i32 where "INTEREST_READ = EPOLLIN OR EPOLLET"
definition INTEREST_WRITE :: i32 where "INTEREST_WRITE = EPOLLOUT OR EPOLLET"
definition INTEREST_ONESHOT :: i32 where "INTEREST_ONESHOT = EPOLLONESHOT"

section \<open>Event queues\<close>

record event_queue =
  eq_events :: "event list"
  eq_wakers :: "waker list"

definition event_queue_new :: event_queue where
  "event_queue_new = \<lparr>eq_events = [], eq_wakers = []\<rparr>"

definition queue_push :: "event \<Rightarrow> event_queue \<Rightarrow> event_queue" where
  "queue_push e q = q\<lparr>eq_events := eq_events q @ [e]\<rparr>"

text \<open>\<open>EventQueue::wake\<close>: the wakers it pops, in order.\<close>

definition queue_wake :: "event_queue \<Rightarrow> waker list \<times> event_queue" where
  "queue_wake q = (eq_wakers q, q\<lparr>eq_wakers := []\<rparr>)"

definition queue_pop :: "event_queue \<Rightarrow> event option \<times> event_queue" where
  "queue_pop q = (case eq_events q of [] \<Rightarrow> (None, q) | e # es \<Rightarrow> (Some e, q\<lparr>eq_events := es\<rparr>))"

definition register_waker :: "waker \<Rightarrow> event_queue \<Rightarrow> event_queue" where
  "register_waker w q = q\<lparr>eq_wakers := eq_wakers q @ [w]\<rparr>"

text \<open>\<open>NextEventFuture::poll\<close>.\<close>

definition next_event_poll :: "waker \<Rightarrow> event_queue \<Rightarrow> event poll \<times> event_queue" where
  "next_event_poll w q =
     (case queue_pop q of
        (Some e, q) \<Rightarrow> (PollReady e, q)
      | (None, q) \<Rightarrow> (PollPending, register_waker w q))"

section \<open>The registry of queues\<close>

type_synonym event_registry = "(u64 \<times> event_queue) list"

definition registry_register :: "u64 \<Rightarrow> event_queue \<Rightarrow> event_registry \<Rightarrow> event_registry" where
  "registry_register k q r = AList.update k q r"

definition registry_remove :: "u64 \<Rightarrow> event_registry \<Rightarrow> event_registry" where
  "registry_remove k r = AList.delete k r"

definition registry_wake :: "u64 \<Rightarrow> event_registry \<Rightarrow> waker list \<times> event_registry" where
  "registry_wake k r =
     (case map_of r k of
        None \<Rightarrow> ([], r)
      | Some q \<Rightarrow> (let (ws, q) = queue_wake q in (ws, AList.update k q r)))"

definition push_event :: "event \<Rightarrow> event_registry \<Rightarrow> bool \<times> event_registry" where
  "push_event e r =
     (case map_of r (event_key e) of
        None \<Rightarrow> (False, r)
      | Some q \<Rightarrow> (True, AList.update (event_key e) (queue_push e q) r))"

definition push_and_wake :: "event \<Rightarrow> event_registry \<Rightarrow> bool \<times> waker list \<times> event_registry" where
  "push_and_wake e r =
     (case map_of r (event_key e) of
        None \<Rightarrow> (False, [], r)
      | Some q \<Rightarrow>
          (let (ws, q) = queue_wake (queue_push e q) in (True, ws, AList.update (event_key e) q r)))"

definition broadcast :: "i32 \<Rightarrow> event_registry \<Rightarrow> event_registry" where
  "broadcast t r = map (\<lambda>(k, q). (k, queue_push \<lparr>event_type = t, event_key = k\<rparr> q)) r"

fun wake_all :: "event_registry \<Rightarrow> waker list \<times> event_registry" where
  "wake_all [] = ([], [])"
| "wake_all ((k, q) # r) =
     (let (ws, q) = queue_wake q; (ws', r) = wake_all r in (ws @ ws', (k, q) # r))"

fun broadcast_and_wake :: "i32 \<Rightarrow> event_registry \<Rightarrow> waker list \<times> event_registry" where
  "broadcast_and_wake t [] = ([], [])"
| "broadcast_and_wake t ((k, q) # r) =
     (let (ws, q) = queue_wake (queue_push \<lparr>event_type = t, event_key = k\<rparr> q);
          (ws', r) = broadcast_and_wake t r
      in (ws @ ws', (k, q) # r))"

lemma broadcast_and_wake_split: "broadcast_and_wake t r = wake_all (broadcast t r)"
  by (induction r) (auto simp: broadcast_def split: prod.split)

lemma map_of_broadcast_and_wake:
  "map_of (snd (broadcast_and_wake t r)) k =
     map_option (\<lambda>q. \<lparr>eq_events = eq_events q @ [\<lparr>event_type = t, event_key = k\<rparr>], eq_wakers = []\<rparr>) (map_of r k)"
  by (induction r) (auto simp: split_beta queue_wake_def queue_push_def)

section \<open>Registered interests\<close>

datatype poller_registry_error =
    FailedToRegisterInterest os_error
  | FailedToModifyInterest os_error
  | FailedToDeregisterInterest os_error

datatype epoll_op = EpollAdd | EpollMod | EpollDel

record poller_registry =
  generator :: u64
  key_fds :: "(u64 \<times> raw_fd) list"

definition poller_registry_new :: poller_registry where
  "poller_registry_new = \<lparr>generator = 100, key_fds = []\<rparr>"

text \<open>\<open>epoll_ctl\<close> is called with the operation, the descriptor, the interest and the key.\<close>

definition register_interest ::
  "(epoll_op \<Rightarrow> raw_fd \<Rightarrow> (u32 \<times> u64) option \<Rightarrow> os_error + unit) \<Rightarrow> raw_fd \<Rightarrow> i32 \<Rightarrow> poller_registry
    \<Rightarrow> (poller_registry_error + u64) \<times> poller_registry" where
  "register_interest epoll_ctl fd interest r =
     (let k = generator r; r = r\<lparr>generator := k + 1\<rparr> in
      case epoll_ctl EpollAdd fd (Some (interest, k)) of
        Inl e \<Rightarrow> (Inl (FailedToRegisterInterest e), r)
      | Inr _ \<Rightarrow> (Inr k, r\<lparr>key_fds := AList.update k fd (key_fds r)\<rparr>))"

definition modify_interest ::
  "(epoll_op \<Rightarrow> raw_fd \<Rightarrow> (u32 \<times> u64) option \<Rightarrow> os_error + unit) \<Rightarrow> u64 \<Rightarrow> i32 \<Rightarrow> poller_registry
    \<Rightarrow> poller_registry_error + unit" where
  "modify_interest epoll_ctl k interest r =
     (case map_of (key_fds r) k of
        None \<Rightarrow> Inl (FailedToModifyInterest NotFound)
      | Some fd \<Rightarrow> map_err FailedToModifyInterest (epoll_ctl EpollMod fd (Some (interest, k))))"

definition deregister_interest ::
  "(epoll_op \<Rightarrow> raw_fd \<Rightarrow> (u32 \<times> u64) option \<Rightarrow> os_error + unit) \<Rightarrow> u64 \<Rightarrow> poller_registry
    \<Rightarrow> (poller_registry_error + unit) \<times> poller_registry" where
  "deregister_interest epoll_ctl k r =
     (case map_of (key_fds r) k of
        None \<Rightarrow> (Inl (FailedToDeregisterInterest NotFound), r)
      | Some fd \<Rightarrow>
          (map_err FailedToDeregisterInterest (epoll_ctl EpollDel fd None),
           r\<lparr>key_fds := AList.delete k (key_fds r)\<rparr>))"

text \<open>\<open>poll_events\<close>: the events of a successful \<open>epoll_wait\<close>; a failure leaves none.\<close>

definition poll_events :: "os_error + (u32 \<times> u64) list \<Rightarrow> (os_error + unit) \<times> event list" where
  "poll_events result =
     (case result of
        Inl e \<Rightarrow> (Inl e, [])
      | Inr es \<Rightarrow> (Inr (), map (\<lambda>(events, data). event_of_epoll events data) es))"

section \<open>Delivery\<close>

datatype registry_event = Pushed i32 | NextEvent waker | Woken

text \<open>What the worker and a receiver do to the queue of a key: with what the receiver is given.\<close>

fun registry_step :: "u64 \<Rightarrow> registry_event \<Rightarrow> event_registry \<Rightarrow> event option \<times> event_registry" where
  "registry_step k (Pushed t) r = (None, snd (push_event \<lparr>event_type = t, event_key = k\<rparr> r))"
| "registry_step k Woken r = (None, snd (registry_wake k r))"
| "registry_step k (NextEvent w) r =
     (case map_of r k of
        None \<Rightarrow> (None, r)
      | Some q \<Rightarrow>
          (case next_event_poll w q of
             (PollReady e, q) \<Rightarrow> (Some e, AList.update k q r)
           | (PollPending, q) \<Rightarrow> (None, AList.update k q r)))"

fun queue_step :: "u64 \<Rightarrow> registry_event \<Rightarrow> event_queue option \<Rightarrow> event option \<times> event_queue option" where
  "queue_step k e None = (None, None)"
| "queue_step k (Pushed t) (Some q) = (None, Some (queue_push \<lparr>event_type = t, event_key = k\<rparr> q))"
| "queue_step k Woken (Some q) = (None, Some (snd (queue_wake q)))"
| "queue_step k (NextEvent w) (Some q) =
     (case next_event_poll w q of
        (PollReady e, q) \<Rightarrow> (Some e, Some q)
      | (PollPending, q) \<Rightarrow> (None, Some q))"

interpretation event_queues: keyed_store "map_of :: event_registry \<Rightarrow> u64 \<Rightarrow> event_queue option"
  registry_step queue_step
proof
  fix k e and r :: event_registry
  show "fst (registry_step k e r) = fst (queue_step k e (map_of r k))"
    by (cases e; cases "map_of r k") (auto split: prod.split poll.split)
  show "map_of (snd (registry_step k e r)) k = snd (queue_step k e (map_of r k))"
    by (cases e; cases "map_of r k")
       (auto simp: push_event_def registry_wake_def AList.update_conv' split: prod.split poll.split)
  show "map_of (snd (registry_step k e r)) k' = map_of r k'" if "k' \<noteq> k" for k'
    using that by (cases e; cases "map_of r k")
       (auto simp: push_event_def registry_wake_def AList.update_conv' split: prod.split poll.split)
qed

definition pushed_to :: "u64 \<Rightarrow> (u64 \<times> registry_event) list \<Rightarrow> event list" where
  "pushed_to k es =
     concat (map (\<lambda>(k', e). case e of Pushed t \<Rightarrow> if k' = k then [\<lparr>event_type = t, event_key = k\<rparr>] else [] | _ \<Rightarrow> []) es)"

definition received_by :: "u64 \<Rightarrow> (u64 \<times> event) list \<Rightarrow> event list" where
  "received_by k out = map snd (filter (\<lambda>p. fst p = k) out)"

lemma pushed_to_simps [simp]:
  "pushed_to k [] = []"
  "pushed_to k ((k', Pushed t) # es) = (if k' = k then [\<lparr>event_type = t, event_key = k\<rparr>] else []) @ pushed_to k es"
  "pushed_to k ((k', NextEvent w) # es) = pushed_to k es"
  "pushed_to k ((k', Woken) # es) = pushed_to k es"
  by (simp_all add: pushed_to_def)

lemma run_queue_fifo:
  "let (out, q') = run_slot (queue_step k) (map snd (filter (\<lambda>p. fst p = k) es)) (Some q) in
     q' \<noteq> None \<and> out @ eq_events (the q') = eq_events q @ pushed_to k es"
proof (induction es arbitrary: q)
  case (Cons p es)
  obtain k' e where p: "p = (k', e)" by fastforce
  show ?case
  proof (cases "k' = k")
    case True
    obtain r q1 where 1: "queue_step k e (Some q) = (r, Some q1)"
      by (cases e; cases "eq_events q") (simp_all add: next_event_poll_def queue_pop_def)
    have "(case r of None \<Rightarrow> [] | Some x \<Rightarrow> [x]) @ eq_events q1 = eq_events q @ pushed_to k [p]"
      using 1 p True
      by (cases e) (auto simp: queue_push_def queue_wake_def next_event_poll_def queue_pop_def register_waker_def
          split: list.splits)
    moreover have "pushed_to k (p # es) = pushed_to k [p] @ pushed_to k es"
      by (simp add: pushed_to_def)
    moreover obtain out q2 where
      2: "run_slot (queue_step k) (map snd (filter (\<lambda>p. fst p = k) es)) (Some q1) = (out, q2)"
      by fastforce
    ultimately show ?thesis
      using Cons.IH [of q1] 1 by (auto simp: p True simp del: queue_step.simps)
  next
    case False
    with Cons.IH [of q] p show ?thesis by (cases e) (auto simp: split_beta)
  qed
qed simp

text \<open>Events reach the receiver of a key in order, none lost or repeated: whatever else the worker and
  other receivers do, what was received and what is still queued is what was queued at first and then
  pushed for that key.\<close>

theorem events_received_in_order:
  assumes "map_of r k = Some q"
  shows "let (out, r') = run_events registry_step es r in
    map_of r' k \<noteq> None \<and>
    received_by k out @ eq_events (the (map_of r' k)) = eq_events q @ pushed_to k es"
  using run_queue_fifo [of k es q] event_queues.run_projects [of k es r] assms
  by (simp add: split_beta received_by_def)

theorem events_received_in_order_witness:
  "received_by 7 (fst (run_events registry_step
      [(7, Pushed EPOLLIN), (8, Pushed EPOLLIN), (7, NextEvent 0), (7, NextEvent 0), (7, Pushed EPOLLOUT),
       (7, Woken), (7, NextEvent 0)]
      (registry_register 7 event_queue_new [])))
   = [\<lparr>event_type = EPOLLIN, event_key = 7\<rparr>, \<lparr>event_type = EPOLLOUT, event_key = 7\<rparr>]"
  using events_received_in_order [of "registry_register 7 event_queue_new []" 7 event_queue_new
      "[(7, Pushed EPOLLIN), (8, Pushed EPOLLIN), (7, NextEvent 0), (7, NextEvent 0), (7, Pushed EPOLLOUT),
       (7, Woken), (7, NextEvent 0)]"]
  by (simp add: registry_register_def event_queue_new_def push_event_def queue_push_def registry_wake_def
      queue_wake_def next_event_poll_def queue_pop_def register_waker_def received_by_def)

end
