(* ===== verification/Notifications.thy ===== *)
theory Notifications
  imports Events
begin

text \<open>
  Signals and notifications (\<open>src/notifications/\<close>): the signals of the C library as an enum, the
  notifications they become, and subscriptions that wait for the notifications of their flags. The
  broadcast channel is an argument: how its receiver is polled.
\<close>

section \<open>Signals\<close>

datatype signal =
    Hangup | Interrupt | Quit | KillSignal | Trap | Abort | BusError | FloatingPointError
  | SegmentationFault | BrokenPipe | Alarm | Terminate | ChildStoppedSignal | ContinueSignal | Stop
  | TerminalStop | TtyIn | TtyOut | UserDefined i32 | UnknownSignal i32

definition signal_of_c_int :: "i32 \<Rightarrow> signal" where
  "signal_of_c_int s =
     (if s = SIGHUP then Hangup else if s = SIGINT then Interrupt else if s = SIGQUIT then Quit
      else if s = SIGKILL then KillSignal else if s = SIGTRAP then Trap else if s = SIGABRT then Abort
      else if s = SIGBUS then BusError else if s = SIGFPE then FloatingPointError
      else if s = SIGSEGV then SegmentationFault else if s = SIGPIPE then BrokenPipe
      else if s = SIGALRM then Alarm else if s = SIGTERM then Terminate
      else if s = SIGCHLD then ChildStoppedSignal else if s = SIGCONT then ContinueSignal
      else if s = SIGSTOP then Stop else if s = SIGTSTP then TerminalStop
      else if s = SIGTTIN then TtyIn else if s = SIGTTOU then TtyOut
      else if s = SIGUSR1 then UserDefined SIGUSR1 else if s = SIGUSR2 then UserDefined SIGUSR2
      else UnknownSignal s)"

fun c_int_of_signal :: "signal \<Rightarrow> i32" where
  "c_int_of_signal Hangup = SIGHUP"
| "c_int_of_signal Interrupt = SIGINT"
| "c_int_of_signal Quit = SIGQUIT"
| "c_int_of_signal KillSignal = SIGKILL"
| "c_int_of_signal Trap = SIGTRAP"
| "c_int_of_signal Abort = SIGABRT"
| "c_int_of_signal BusError = SIGBUS"
| "c_int_of_signal FloatingPointError = SIGFPE"
| "c_int_of_signal SegmentationFault = SIGSEGV"
| "c_int_of_signal BrokenPipe = SIGPIPE"
| "c_int_of_signal Alarm = SIGALRM"
| "c_int_of_signal Terminate = SIGTERM"
| "c_int_of_signal ChildStoppedSignal = SIGCHLD"
| "c_int_of_signal ContinueSignal = SIGCONT"
| "c_int_of_signal Stop = SIGSTOP"
| "c_int_of_signal TerminalStop = SIGTSTP"
| "c_int_of_signal TtyIn = SIGTTIN"
| "c_int_of_signal TtyOut = SIGTTOU"
| "c_int_of_signal (UserDefined s) = s"
| "c_int_of_signal (UnknownSignal s) = s"

definition handleable :: "signal list" where
  "handleable =
     [Hangup, Interrupt, Quit, Alarm, Terminate, ChildStoppedSignal, ContinueSignal, TtyIn, TtyOut,
      UserDefined SIGUSR1, UserDefined SIGUSR2]"

section \<open>Notifications\<close>

datatype notification = ShutdownNotice | KillNotice | ContinueNotice | ChildStoppedNotice | Custom u64

text \<open>What a worker makes of a signal it reads.\<close>

fun notification_of_signal :: "signal \<Rightarrow> notification option" where
  "notification_of_signal ContinueSignal = Some ContinueNotice"
| "notification_of_signal TtyIn = None"
| "notification_of_signal TtyOut = None"
| "notification_of_signal Interrupt = Some ShutdownNotice"
| "notification_of_signal Terminate = Some ShutdownNotice"
| "notification_of_signal Hangup = Some ShutdownNotice"
| "notification_of_signal Quit = Some ShutdownNotice"
| "notification_of_signal Alarm = Some ShutdownNotice"
| "notification_of_signal (UserDefined code) = Some (Custom (scast code))"
| "notification_of_signal ChildStoppedSignal = Some ChildStoppedNotice"
| "notification_of_signal _ = None"

fun notification_flag :: "notification \<Rightarrow> u64" where
  "notification_flag ShutdownNotice = 1"
| "notification_flag KillNotice = push_bit 1 1"
| "notification_flag ContinueNotice = push_bit 2 1"
| "notification_flag ChildStoppedNotice = push_bit 3 1"
| "notification_flag (Custom _) = push_bit 4 1"

definition flags_match :: "u64 \<Rightarrow> notification \<Rightarrow> bool" where
  "flags_match flags n \<longleftrightarrow> flags_contain flags (notification_flag n)"

section \<open>Subscriptions\<close>

datatype notification_error = StreamClosed

text \<open>\<open>NotificationFuture::poll\<close> over a receiver whose \<open>poll_next\<close> is the argument; it may loop as long
  as the receiver has notifications of other flags, so not returning is a value of its own.\<close>

partial_function (option) notification_poll ::
  "('r \<Rightarrow> notification option poll \<times> 'r) \<Rightarrow> u64 \<Rightarrow> 'r \<Rightarrow> ((notification_error + notification) poll \<times> 'r) option" where
  "notification_poll poll_next flags r =
     (case poll_next r of
        (PollReady (Some n), r') \<Rightarrow>
          (if flags_match flags n then Some (PollReady (Inr n), r') else notification_poll poll_next flags r')
      | (PollReady None, r') \<Rightarrow> Some (PollReady (Inl StreamClosed), r')
      | (PollPending, r') \<Rightarrow> Some (PollPending, r'))"

section \<open>Properties\<close>

text \<open>Reading a signal number as a \<open>Signal\<close> and writing it as a number gives the number back, and the
  signals a worker blocks to handle itself are all read back as themselves.\<close>

theorem signal_roundtrip:
  "c_int_of_signal (signal_of_c_int s) = s \<and> map (\<lambda>g. signal_of_c_int (c_int_of_signal g)) handleable = handleable"
  by (simp add: signal_of_c_int_def handleable_def)

text \<open>What a receiver promises: it hands out the notifications queued for it, in order.\<close>

definition hands_out :: "('r \<Rightarrow> notification option poll \<times> 'r) \<Rightarrow> ('r \<Rightarrow> notification list) \<Rightarrow> bool" where
  "hands_out poll_next queued \<longleftrightarrow>
     (\<forall>r. case queued r of
        [] \<Rightarrow> fst (poll_next r) \<in> {PollPending, PollReady None} \<and> queued (snd (poll_next r)) = []
      | n # ns \<Rightarrow> fst (poll_next r) = PollReady (Some n) \<and> queued (snd (poll_next r)) = ns)"

lemma hands_outD:
  assumes "hands_out poll_next queued"
  shows "queued r = [] \<Longrightarrow> fst (poll_next r) \<in> {PollPending, PollReady None} \<and> queued (snd (poll_next r)) = []"
    and "queued r = n # ns \<Longrightarrow> fst (poll_next r) = PollReady (Some n) \<and> queued (snd (poll_next r)) = ns"
  using assms [unfolded hands_out_def, rule_format, of r] by (auto split: list.splits)

text \<open>The poll of a receiver in the states \<open>ok\<close>, in which it hands out what is queued.\<close>

lemma notification_poll_first:
  assumes empty: "\<And>r. ok r \<Longrightarrow> queued r = [] \<Longrightarrow>
      fst (poll_next r) \<in> {PollPending, PollReady None} \<and> queued (snd (poll_next r)) = [] \<and> ok (snd (poll_next r))"
    and cons: "\<And>r n ns. ok r \<Longrightarrow> queued r = n # ns \<Longrightarrow>
      fst (poll_next r) = PollReady (Some n) \<and> queued (snd (poll_next r)) = ns \<and> ok (snd (poll_next r))"
    and "ok r"
  shows "\<exists>p r'. notification_poll poll_next flags r = Some (p, r') \<and> ok r' \<and>
    (case dropWhile (\<lambda>n. \<not> flags_match flags n) (queued r) of
       n # ns \<Rightarrow> p = PollReady (Inr n) \<and> queued r' = ns
     | [] \<Rightarrow> p \<in> {PollPending, PollReady (Inl StreamClosed)} \<and> queued r' = [])"
  using \<open>ok r\<close>
proof (induction "queued r" arbitrary: r)
  case Nil
  with empty [of r] show ?case by (subst notification_poll.simps) (auto simp: split_beta)
next
  case (Cons n ns)
  then have n: "fst (poll_next r) = PollReady (Some n)" "queued (snd (poll_next r)) = ns" "ok (snd (poll_next r))"
    using cons [of r n ns] by simp_all
  with Cons(1) [of "snd (poll_next r)"] Cons(2) [symmetric] show ?case
    by (subst notification_poll.simps) (auto simp: split_beta)
qed

text \<open>Polling a subscription returns, whatever is queued: it gives the first queued notification that
  its flags ask for and leaves those behind it, and drops the ones before; when there is none it drops
  them all and is pending, or reports that the stream is closed.\<close>

theorem subscription_poll_returns:
  assumes "hands_out poll_next queued"
  shows "\<exists>p r'. notification_poll poll_next flags r = Some (p, r') \<and>
    (case dropWhile (\<lambda>n. \<not> flags_match flags n) (queued r) of
       n # ns \<Rightarrow> p = PollReady (Inr n) \<and> queued r' = ns
     | [] \<Rightarrow> p \<in> {PollPending, PollReady (Inl StreamClosed)} \<and> queued r' = [])"
  using notification_poll_first [of "\<lambda>_. True" queued poll_next r flags] hands_outD [OF assms] by simp

fun poll_list :: "notification list \<Rightarrow> notification option poll \<times> notification list" where
  "poll_list [] = (PollPending, [])"
| "poll_list (n # ns) = (PollReady (Some n), ns)"

theorem subscription_poll_returns_witness:
  "\<exists>p r'. notification_poll poll_list 2 [ContinueNotice, KillNotice, ShutdownNotice] = Some (p, r') \<and>
     p = PollReady (Inr KillNotice) \<and> r' = [ShutdownNotice]"
  using subscription_poll_returns [of poll_list "\<lambda>r. r" 2 "[ContinueNotice, KillNotice, ShutdownNotice]"]
  by (simp add: hands_out_def flags_match_def flags_contain_def split: list.splits)

end
