(* ===== verification/Worker.thy ===== *)
theory Worker
  imports Io_Completion Task_Executor Notifications
begin

text \<open>
  Worker threads (\<open>src/worker/\<close>, \<open>src/io/submission_queue.rs\<close>): the messages a worker is sent and the
  channel they travel through, the handle other threads hold of a worker, and the worker's loop: one
  iteration of its main part, one round of its shutdown part, and what the thread does when the loop
  ends. The poll of a task's future, the results of system calls and the completions in the ring are
  arguments. The logs are left out.
\<close>

section \<open>Messages and their channel\<close>

datatype ('f, 'st) message =
    TaskSpawner 'f
  | SpawnTask "'f local_task"
  | SpawnTasks "'f local_task list"
  | WakeTask task_id
  | SubmitIO "'st io_submission"
  | ContinueWaker waker
  | RepairMessageChannel
  | ShutdownMessage
  | KillMessage

record ('f, 'st) channel =
  ch_messages :: "('f, 'st) message list"
  ch_connected :: bool

text \<open>\<open>WorkSender::send_message_to\<close>: \<open>sig1\<close> and \<open>sig2\<close> are whether the two tries to signal the worker
  succeed. An error carries the message back.\<close>

definition send_message_to ::
  "bool \<Rightarrow> bool \<Rightarrow> ('f, 'st) message \<Rightarrow> ('f, 'st) channel
    \<Rightarrow> (('f, 'st) message + unit) \<times> ('f, 'st) channel" where
  "send_message_to sig1 sig2 m c =
     (if \<not> ch_connected c then (Inl m, c)
      else
        (let c = c\<lparr>ch_messages := ch_messages c @ [m]\<rparr> in
         if \<not> sig1 \<and> \<not> sig2 then (Inr (), c\<lparr>ch_messages := ch_messages c @ [RepairMessageChannel]\<rparr>)
         else (Inr (), c)))"

section \<open>The handle of a worker\<close>

datatype worker_state = NotStarted | Starting | Idle | Busy | Stopping | Stopped

fun u8_of_worker_state :: "worker_state \<Rightarrow> u8" where
  "u8_of_worker_state NotStarted = 0"
| "u8_of_worker_state Starting = 1"
| "u8_of_worker_state Idle = 2"
| "u8_of_worker_state Busy = 3"
| "u8_of_worker_state Stopping = 4"
| "u8_of_worker_state Stopped = 5"

definition worker_state_of_u8 :: "u8 \<Rightarrow> worker_state option" where
  "worker_state_of_u8 b =
     (if b = 0 then Some NotStarted else if b = 1 then Some Starting else if b = 2 then Some Idle
      else if b = 3 then Some Busy else if b = 4 then Some Stopping else if b = 5 then Some Stopped
      else None)"

record ('f, 'st) worker =
  wk_id :: nat
  wk_state :: worker_state
  wk_channel :: "('f, 'st) channel"
  wk_next_key :: u64
  wk_temp_data :: bool
  wk_join_handle :: bool

definition worker_new :: "nat \<Rightarrow> ('f, 'st) worker" where
  "worker_new i =
     \<lparr>wk_id = i, wk_state = NotStarted, wk_channel = \<lparr>ch_messages = [], ch_connected = True\<rparr>,
      wk_next_key = 0, wk_temp_data = True, wk_join_handle = False\<rparr>"

datatype worker_start_error = AlreadyRunning nat | TempDataUnavailable nat

definition worker_start :: "('f, 'st) worker \<Rightarrow> (worker_start_error + unit) \<times> ('f, 'st) worker" where
  "worker_start w =
     (if wk_state w \<noteq> NotStarted then (Inl (AlreadyRunning (wk_id w)), w)
      else
        (let w = w\<lparr>wk_state := Starting\<rparr> in
         if \<not> wk_temp_data w then (Inl (TempDataUnavailable (wk_id w)), w)
         else (Inr (), w\<lparr>wk_temp_data := False, wk_join_handle := True\<rparr>)))"

definition is_running :: "('f, 'st) worker \<Rightarrow> bool" where
  "is_running w \<longleftrightarrow> wk_state w \<notin> {NotStarted, Stopped}"

datatype ('f, 'st) worker_stop_error = NotRunning nat | StopNotSent nat "('f, 'st) message"

definition worker_send ::
  "bool \<Rightarrow> bool \<Rightarrow> ('f, 'st) message \<Rightarrow> ('f, 'st) worker
    \<Rightarrow> (('f, 'st) message + unit) \<times> ('f, 'st) worker" where
  "worker_send sig1 sig2 m w =
     (let (r, c) = send_message_to sig1 sig2 m (wk_channel w) in (r, w\<lparr>wk_channel := c\<rparr>))"

definition worker_stop ::
  "bool \<Rightarrow> bool \<Rightarrow> ('f, 'st) message \<Rightarrow> ('f, 'st) worker
    \<Rightarrow> (('f, 'st) worker_stop_error + unit) \<times> ('f, 'st) worker" where
  "worker_stop sig1 sig2 m w =
     (if \<not> is_running w then (Inl (NotRunning (wk_id w)), w)
      else (let (r, w) = worker_send sig1 sig2 m w in (map_err (StopNotSent (wk_id w)) r, w)))"

definition worker_kill ::
  "bool \<Rightarrow> bool \<Rightarrow> ('f, 'st) worker \<Rightarrow> (('f, 'st) worker_stop_error + unit) \<times> ('f, 'st) worker" where
  "worker_kill sig1 sig2 w = worker_stop sig1 sig2 KillMessage w"

definition worker_shutdown ::
  "bool \<Rightarrow> bool \<Rightarrow> ('f, 'st) worker \<Rightarrow> (('f, 'st) worker_stop_error + unit) \<times> ('f, 'st) worker" where
  "worker_shutdown sig1 sig2 w = worker_stop sig1 sig2 ShutdownMessage w"

definition worker_spawn ::
  "bool \<Rightarrow> bool \<Rightarrow> 'f local_task \<Rightarrow> ('f, 'st) worker \<Rightarrow> (('f, 'st) message + unit) \<times> ('f, 'st) worker" where
  "worker_spawn sig1 sig2 t w = worker_send sig1 sig2 (SpawnTask t) w"

definition worker_spawn_with ::
  "bool \<Rightarrow> bool \<Rightarrow> 'f \<Rightarrow> ('f, 'st) worker \<Rightarrow> (('f, 'st) message + unit) \<times> ('f, 'st) worker" where
  "worker_spawn_with sig1 sig2 f w = worker_send sig1 sig2 (TaskSpawner f) w"

definition take_join_handle :: "('f, 'st) worker \<Rightarrow> bool \<times> ('f, 'st) worker" where
  "take_join_handle w = (wk_join_handle w, w\<lparr>wk_join_handle := False\<rparr>)"

text \<open>\<open>IoSubmissionQueue::submit\<close>: the key is used up even when the message is not sent.\<close>

definition submission_queue_submit ::
  "bool \<Rightarrow> bool \<Rightarrow> 'st io_operation \<Rightarrow> waker option \<Rightarrow> ('f, 'st) worker
    \<Rightarrow> (('f, 'st) message + key) \<times> ('f, 'st) worker" where
  "submission_queue_submit sig1 sig2 op w wk =
     (let (k, n) = key_get (wk_next_key wk);
          (r, wk) = worker_send sig1 sig2 (SubmitIO \<lparr>sub_key = k, sub_op = op, sub_waker = w\<rparr>) (wk\<lparr>wk_next_key := n\<rparr>)
      in (map_ok (\<lambda>_. k) r, wk))"

section \<open>The state of the loop\<close>

record ('f, 'st) worker_loop =
  wl_state :: worker_state
  wl_executor :: "'f executor"
  wl_context :: "'st io_context"
  wl_pushed :: nat                 \<comment> \<open>entries pushed to the submission ring since the last submit\<close>
  wl_waiting :: "'st io_submission list"
  wl_inbox :: "('f, 'st) message list"
  wl_registry :: event_registry
  wl_next_task_id :: u64
  wl_message_key :: u64
  wl_io_key :: u64
  wl_signal_key :: u64
  wl_woken :: "waker list"         \<comment> \<open>wakers called, in order\<close>
  wl_notified :: "notification list"

text \<open>What the loop uses of its surroundings: how many entries the submission ring holds, how futures are
  polled, how completions are read, and what registering a repaired channel gives.\<close>

record 'f worker_env =
  we_capacity :: nat
  we_poll :: "'f \<Rightarrow> task_id \<Rightarrow> unit poll \<times> 'f"
  we_completion :: completion_env
  we_repair :: "u64 option"

definition set_state :: "worker_state \<Rightarrow> ('f, 'st) worker_loop \<Rightarrow> ('f, 'st) worker_loop" where
  "set_state s l = l\<lparr>wl_state := s\<rparr>"

definition wake_wakers :: "waker list \<Rightarrow> ('f, 'st) worker_loop \<Rightarrow> ('f, 'st) worker_loop" where
  "wake_wakers ws l = l\<lparr>wl_woken := wl_woken l @ ws\<rparr>"

definition broadcast_notification :: "notification \<Rightarrow> ('f, 'st) worker_loop \<Rightarrow> ('f, 'st) worker_loop" where
  "broadcast_notification n l = l\<lparr>wl_notified := wl_notified l @ [n]\<rparr>"

definition broadcast_event :: "i32 \<Rightarrow> ('f, 'st) worker_loop \<Rightarrow> ('f, 'st) worker_loop" where
  "broadcast_event t l =
     (let (ws, r) = broadcast_and_wake t (wl_registry l) in wake_wakers ws (l\<lparr>wl_registry := r\<rparr>))"

section \<open>Submissions\<close>

text \<open>One call of \<open>IoContext::prepare_submission\<close> in the loop; \<open>None\<close> when the entry went to the ring.\<close>

definition loop_prepare ::
  "'f worker_env \<Rightarrow> 'st io_submission \<Rightarrow> ('f, 'st) worker_loop \<Rightarrow> 'st io_submission option \<times> ('f, 'st) worker_loop" where
  "loop_prepare env s l =
     (let (r, c) = prepare_submission (we_capacity env - wl_pushed l) s (wl_context l);
          l = l\<lparr>wl_context := c\<rparr>
      in (r, if r = None then l\<lparr>wl_pushed := Suc (wl_pushed l)\<rparr> else l))"

definition prepare_io_submission ::
  "'f worker_env \<Rightarrow> 'st io_submission \<Rightarrow> ('f, 'st) worker_loop \<Rightarrow> ('f, 'st) worker_loop" where
  "prepare_io_submission env s l =
     (case loop_prepare env s l of
        (Some s, l) \<Rightarrow> l\<lparr>wl_waiting := wl_waiting l @ [s]\<rparr>
      | (None, l) \<Rightarrow> l)"

text \<open>The loop that pushes waiting submissions again, over the submissions waiting when it starts; the
  first that does not fit goes to the back of the queue and ends it. It also gives whether anything
  was pushed.\<close>

fun retry_waiting ::
  "'f worker_env \<Rightarrow> 'st io_submission list \<Rightarrow> ('f, 'st) worker_loop \<Rightarrow> bool \<times> ('f, 'st) worker_loop" where
  "retry_waiting env [] l = (False, l)"
| "retry_waiting env (s # ss) l =
     (case loop_prepare env s (l\<lparr>wl_waiting := ss\<rparr>) of
        (Some s, l) \<Rightarrow> (False, l\<lparr>wl_waiting := wl_waiting l @ [s]\<rparr>)
      | (None, l) \<Rightarrow> (let (_, l) = retry_waiting env ss l in (True, l)))"

text \<open>\<open>IoContext::submit\<close> hands the pushed entries to the kernel when it succeeds.\<close>

definition loop_submit :: "bool \<Rightarrow> ('f, 'st) worker_loop \<Rightarrow> ('f, 'st) worker_loop" where
  "loop_submit ok l = (if ok then l\<lparr>wl_pushed := 0\<rparr> else l)"

definition loop_complete ::
  "'f worker_env \<Rightarrow> (key \<times> i32) list \<Rightarrow> ('f, 'st) worker_loop \<Rightarrow> ('f, 'st) worker_loop" where
  "loop_complete env items l =
     (let (q, ws) = context_complete (we_completion env) items (ctx_queue (wl_context l))
      in wake_wakers ws (l\<lparr>wl_context := (wl_context l)\<lparr>ctx_queue := q\<rparr>\<rparr>))"

section \<open>Handling messages\<close>

text \<open>Whether the loop goes on, leaves its main part for the shutdown part, or returns.\<close>

datatype loop_result = GoOn | ShutDown | Return

definition spawn_on_loop :: "'f local_task \<Rightarrow> ('f, 'st) worker_loop \<Rightarrow> ('f, 'st) worker_loop" where
  "spawn_on_loop t l = l\<lparr>wl_executor := executor_spawn t (wl_executor l)\<rparr>"

definition spawn_future_on_loop :: "'f \<Rightarrow> ('f, 'st) worker_loop \<Rightarrow> ('f, 'st) worker_loop" where
  "spawn_future_on_loop f l =
     (let (t, n) = local_task_new f (wl_next_task_id l) in spawn_on_loop t (l\<lparr>wl_next_task_id := n\<rparr>))"

text \<open>A message in the main part: whether the loop returns, whether to submit, and the state.\<close>

fun handle_message ::
  "'f worker_env \<Rightarrow> ('f, 'st) message \<Rightarrow> ('f, 'st) worker_loop \<Rightarrow> bool \<times> bool \<times> ('f, 'st) worker_loop" where
  "handle_message env (TaskSpawner f) l = (False, False, spawn_future_on_loop f l)"
| "handle_message env (SpawnTask t) l = (False, False, spawn_on_loop t l)"
| "handle_message env (SpawnTasks ts) l = (False, False, fold spawn_on_loop ts l)"
| "handle_message env (WakeTask i) l = (False, False, l\<lparr>wl_executor := wake_task i (wl_executor l)\<rparr>)"
| "handle_message env (SubmitIO s) l = (False, True, prepare_io_submission env s l)"
| "handle_message env KillMessage l = (True, False, l)"
| "handle_message env ShutdownMessage l = (False, False, set_state Stopping l)"
| "handle_message env (ContinueWaker w) l = (False, False, wake_wakers [w] l)"
| "handle_message env RepairMessageChannel l =
     (False, False, case we_repair env of None \<Rightarrow> l | Some k \<Rightarrow> l\<lparr>wl_message_key := k\<rparr>)"

text \<open>The \<open>try_recv\<close> loop over the messages in the channel.\<close>

fun handle_messages ::
  "'f worker_env \<Rightarrow> ('f, 'st) message list \<Rightarrow> ('f, 'st) worker_loop \<Rightarrow> bool \<times> bool \<times> ('f, 'st) worker_loop" where
  "handle_messages env [] l = (False, False, l\<lparr>wl_inbox := []\<rparr>)"
| "handle_messages env (m # ms) l =
     (let (killed, submit, l) = handle_message env m (l\<lparr>wl_inbox := ms\<rparr>) in
      if killed then (True, submit, l)
      else (let (killed, submit', l) = handle_messages env ms l in (killed, submit \<or> submit', l)))"

text \<open>A message in the shutdown part: whether the loop returns, and the state.\<close>

fun handle_message_down ::
  "'f worker_env \<Rightarrow> ('f, 'st) message \<Rightarrow> ('f, 'st) worker_loop \<Rightarrow> bool \<times> ('f, 'st) worker_loop" where
  "handle_message_down env (TaskSpawner f) l = (False, spawn_future_on_loop f l)"
| "handle_message_down env (SpawnTask t) l = (False, spawn_on_loop t l)"
| "handle_message_down env (SpawnTasks ts) l = (False, fold spawn_on_loop ts l)"
| "handle_message_down env (WakeTask i) l = (False, l\<lparr>wl_executor := wake_task i (wl_executor l)\<rparr>)"
| "handle_message_down env (SubmitIO s) l = (False, prepare_io_submission env s l)"
| "handle_message_down env KillMessage l = (True, set_state Stopped l)"
| "handle_message_down env (ContinueWaker w) l = (False, wake_wakers [w] l)"
| "handle_message_down env RepairMessageChannel l = (False, l)"
| "handle_message_down env ShutdownMessage l = (False, l)"

fun handle_messages_down ::
  "'f worker_env \<Rightarrow> ('f, 'st) message list \<Rightarrow> ('f, 'st) worker_loop \<Rightarrow> bool \<times> ('f, 'st) worker_loop" where
  "handle_messages_down env [] l = (False, l\<lparr>wl_inbox := []\<rparr>)"
| "handle_messages_down env (m # ms) l =
     (let (killed, l) = handle_message_down env m (l\<lparr>wl_inbox := ms\<rparr>) in
      if killed then (True, l) else handle_messages_down env ms l)"

section \<open>Dispatching events\<close>

record dispatch =
  should_recv :: bool
  should_complete_io :: bool
  queues_to_wake :: "u64 list"

text \<open>A signal the worker read; \<open>None\<close> when the loop returns.\<close>

definition handle_signal :: "i32 \<Rightarrow> ('f, 'st) worker_loop \<Rightarrow> ('f, 'st) worker_loop option" where
  "handle_signal n l =
     (case notification_of_signal (signal_of_c_int n) of
        None \<Rightarrow> Some l
      | Some ShutdownNotice \<Rightarrow> Some (broadcast_event SHUTDOWN (set_state Stopping l))
      | Some KillNotice \<Rightarrow> None
      | Some m \<Rightarrow> Some (broadcast_notification m l))"

definition push_to_queue ::
  "event \<Rightarrow> dispatch \<Rightarrow> ('f, 'st) worker_loop \<Rightarrow> dispatch \<times> ('f, 'st) worker_loop" where
  "push_to_queue e d l =
     (let (found, r) = push_event e (wl_registry l) in
      (if found then d\<lparr>queues_to_wake := queues_to_wake d @ [event_key e]\<rparr> else d, l\<lparr>wl_registry := r\<rparr>))"

text \<open>The events of one poll, in order. \<open>read_signal\<close> is what each read of the signal descriptor gives,
  \<open>None\<close> for an error or a short read; \<open>None\<close> as a whole when the loop returns.\<close>

fun dispatch_events ::
  "i32 option list \<Rightarrow> event list \<Rightarrow> dispatch \<Rightarrow> ('f, 'st) worker_loop
    \<Rightarrow> (dispatch \<times> ('f, 'st) worker_loop) option" where
  "dispatch_events reads [] d l = Some (d, l)"
| "dispatch_events reads (e # es) d l =
     (if event_key e = wl_message_key l then dispatch_events reads es (d\<lparr>should_recv := True\<rparr>) l
      else if event_key e = wl_io_key l then dispatch_events reads es (d\<lparr>should_complete_io := True\<rparr>) l
      else if event_key e = wl_signal_key l then
        (case reads of
           Some n # reads \<Rightarrow>
             (case handle_signal n l of
                None \<Rightarrow> None
              | Some l \<Rightarrow> (let (d, l) = push_to_queue e d l in dispatch_events reads es d l))
         | _ \<Rightarrow> dispatch_events (tl reads) es d l)
      else (let (d, l) = push_to_queue e d l in dispatch_events reads es d l))"

fun wake_queues :: "u64 list \<Rightarrow> ('f, 'st) worker_loop \<Rightarrow> ('f, 'st) worker_loop" where
  "wake_queues [] l = l"
| "wake_queues (k # ks) l =
     (let (ws, r) = registry_wake k (wl_registry l) in wake_queues ks (wake_wakers ws (l\<lparr>wl_registry := r\<rparr>)))"

section \<open>The loop\<close>

definition run_ready :: "'f worker_env \<Rightarrow> ('f, 'st) worker_loop \<Rightarrow> ('f, 'st) worker_loop" where
  "run_ready env l = l\<lparr>wl_executor := run_ready_tasks (we_poll env) (wl_executor l)\<rparr>"

text \<open>What the kernel does during an iteration: the result of the poll, the reads of the signal
  descriptor, the completions in the ring, and whether the submit succeeds.\<close>

record loop_input =
  li_poll :: "os_error + (u32 \<times> u64) list"
  li_signals :: "i32 option list"
  li_completions :: "(key \<times> i32) list"
  li_submit_ok :: bool

definition complete_and_retry ::
  "'f worker_env \<Rightarrow> loop_input \<Rightarrow> ('f, 'st) worker_loop \<Rightarrow> bool \<times> ('f, 'st) worker_loop" where
  "complete_and_retry env inp l =
     (let l = loop_complete env (li_completions inp) l in retry_waiting env (wl_waiting l) l)"

text \<open>The part of the main loop after the poll.\<close>

definition process_events ::
  "'f worker_env \<Rightarrow> loop_input \<Rightarrow> event list \<Rightarrow> ('f, 'st) worker_loop \<Rightarrow> loop_result \<times> ('f, 'st) worker_loop" where
  "process_events env inp es l =
     (case dispatch_events (li_signals inp) es
             \<lparr>should_recv = False, should_complete_io = False, queues_to_wake = []\<rparr> (set_state Busy l) of
        None \<Rightarrow> (Return, set_state Busy l)
      | Some (d, l) \<Rightarrow>
          let l = wake_queues (queues_to_wake d) l;
              (submit, l) = (if should_complete_io d then complete_and_retry env inp l else (False, l));
              (killed, submit', l) = (if should_recv d then handle_messages env (wl_inbox l) l else (False, False, l))
          in if killed then (Return, l)
             else
               (let l = (if submit \<or> submit' then loop_submit (li_submit_ok inp) l else l);
                    l = run_ready env l
                in if wl_state l = Stopping
                   then (ShutDown, broadcast_notification ShutdownNotice (broadcast_event SHUTDOWN l))
                   else (GoOn, l)))"

definition main_iteration ::
  "'f worker_env \<Rightarrow> loop_input \<Rightarrow> ('f, 'st) worker_loop \<Rightarrow> loop_result \<times> ('f, 'st) worker_loop" where
  "main_iteration env inp l =
     (let l = set_state Idle l; (r, es) = poll_events (li_poll inp) in
      if r = Inl OperationInterrupted then (GoOn, l) else process_events env inp es l)"

text \<open>One round of the shutdown part; the submit blocks until the kernel has reported \<open>li_completions\<close>.\<close>

definition shutdown_round ::
  "'f worker_env \<Rightarrow> loop_input \<Rightarrow> ('f, 'st) worker_loop \<Rightarrow> loop_result \<times> ('f, 'st) worker_loop" where
  "shutdown_round env inp l =
     (let (killed, l) = handle_messages_down env (wl_inbox l) l in
      if killed then (Return, l)
      else
        (let l = run_ready env (loop_complete env (li_completions inp) (loop_submit (li_submit_ok inp) l)) in
         if has_running_tasks (wl_executor l) then (GoOn, l)
         else (Return, l\<lparr>wl_registry := []\<rparr>)))"

text \<open>What the thread does when the loop has returned.\<close>

definition thread_end :: "('f, 'st) worker_loop \<Rightarrow> ('f, 'st) worker_loop" where
  "thread_end l =
     set_state Stopped
       (if wl_state l \<noteq> Stopping then broadcast_event KILL (broadcast_notification KillNotice l) else l)"

end
