(* ===== verification/Worker_Props.thy ===== *)
theory Worker_Props
  imports Worker "HOL-Library.Multiset" "HOL-Library.Sublist"
begin

text \<open>
  Properties of the worker loop: no submission is lost or doubled by an iteration; events wake the tasks
  that wait for them; a shutdown is announced to every queue; a kill stops at once; and what the shutdown
  part leaves behind.
\<close>

section \<open>Submissions\<close>

text \<open>The keys of the submissions a worker has been sent: in its channel, waiting, or pushed to the ring.\<close>

definition submitted_keys :: "('f, 'st) message list \<Rightarrow> key list" where
  "submitted_keys ms = concat (map (\<lambda>m. case m of SubmitIO s \<Rightarrow> [sub_key s] | _ \<Rightarrow> []) ms)"

definition waiting_keys :: "('f, 'st) worker_loop \<Rightarrow> key list" where
  "waiting_keys l = map sub_key (wl_waiting l)"

definition pushed_keys :: "('f, 'st) worker_loop \<Rightarrow> key list" where
  "pushed_keys l = ctx_in_flight (wl_context l)"

definition accounted :: "('f, 'st) worker_loop \<Rightarrow> key multiset" where
  "accounted l = mset (submitted_keys (wl_inbox l)) + mset (waiting_keys l) + mset (pushed_keys l)"

named_theorems loop_defs

lemmas [loop_defs] =
  waiting_keys_def pushed_keys_def accounted_def set_state_def wake_wakers_def broadcast_notification_def
  broadcast_event_def spawn_on_loop_def spawn_future_on_loop_def loop_submit_def loop_complete_def run_ready_def

lemma submitted_keys_simps [simp]:
  "submitted_keys [] = []"
  "submitted_keys (SubmitIO s # ms) = sub_key s # submitted_keys ms"
  "(\<And>s. m \<noteq> SubmitIO s) \<Longrightarrow> submitted_keys (m # ms) = submitted_keys ms"
  by (auto simp: submitted_keys_def split: message.splits)

text \<open>Everything but a submission leaves the three places alone.\<close>

definition same_places :: "('f, 'st) worker_loop \<Rightarrow> ('f, 'st) worker_loop \<Rightarrow> bool" where
  "same_places l l' \<longleftrightarrow> wl_inbox l' = wl_inbox l \<and> wl_waiting l' = wl_waiting l \<and>
     ctx_in_flight (wl_context l') = ctx_in_flight (wl_context l)"

lemma same_places_refl [simp]: "same_places l l"
  by (simp add: same_places_def)

lemma same_places_trans: "same_places l l' \<Longrightarrow> same_places l' l'' \<Longrightarrow> same_places l l''"
  by (simp add: same_places_def)

lemma same_places_accounted: "same_places l l' \<Longrightarrow> accounted l' = accounted l"
  by (simp add: same_places_def loop_defs)

lemma same_places_simps [simp]:
  "same_places l (set_state s l') \<longleftrightarrow> same_places l l'"
  "same_places l (wake_wakers ws l') \<longleftrightarrow> same_places l l'"
  "same_places l (broadcast_notification n l') \<longleftrightarrow> same_places l l'"
  "same_places l (broadcast_event t l') \<longleftrightarrow> same_places l l'"
  "same_places l (spawn_on_loop t' l') \<longleftrightarrow> same_places l l'"
  "same_places l (spawn_future_on_loop f l') \<longleftrightarrow> same_places l l'"
  "same_places l (loop_submit ok l') \<longleftrightarrow> same_places l l'"
  "same_places l (loop_complete env items l') \<longleftrightarrow> same_places l l'"
  "same_places l (run_ready env l') \<longleftrightarrow> same_places l l'"
  "same_places l (l'\<lparr>wl_executor := ex\<rparr>) \<longleftrightarrow> same_places l l'"
  "same_places l (l'\<lparr>wl_registry := r\<rparr>) \<longleftrightarrow> same_places l l'"
  "same_places l (l'\<lparr>wl_message_key := k\<rparr>) \<longleftrightarrow> same_places l l'"
  by (simp_all add: same_places_def loop_defs split: prod.split)

lemma same_places_fold [simp]: "same_places l (fold spawn_on_loop ts l') \<longleftrightarrow> same_places l l'"
  by (induction ts arbitrary: l') auto

lemma same_places_push [simp]: "same_places l (snd (push_to_queue e d l')) \<longleftrightarrow> same_places l l'"
  "same_places (snd (push_to_queue e d l)) l' \<longleftrightarrow> same_places l l'"
  by (simp_all add: push_to_queue_def same_places_def split: prod.split)

lemma loop_prepare_cases:
  "loop_prepare env s l = (Some s, l) \<or>
   (\<exists>l'. loop_prepare env s l = (None, l') \<and> wl_inbox l' = wl_inbox l \<and> wl_waiting l' = wl_waiting l \<and>
      pushed_keys l' = pushed_keys l @ [sub_key s] \<and> wl_state l' = wl_state l \<and> wl_executor l' = wl_executor l)"
  by (simp add: loop_prepare_def prepare_submission_def submission_split_def Let_def pushed_keys_def)

lemma prepare_io_submission_accounted [simp]:
  "accounted (prepare_io_submission env s l) = add_mset (sub_key s) (accounted l)"
  "wl_inbox (prepare_io_submission env s l) = wl_inbox l"
  using loop_prepare_cases [of env s l]
  by (auto simp: prepare_io_submission_def accounted_def waiting_keys_def pushed_keys_def)

lemma handle_message_places:
  "handle_message env m l = (killed, submit, l') \<Longrightarrow> (\<And>s. m \<noteq> SubmitIO s) \<Longrightarrow> same_places l l'"
  by (cases m) (auto split: option.split)

lemma handle_message_accounted:
  assumes "handle_message env m l = (killed, submit, l')"
  shows "accounted l' = accounted l + mset (submitted_keys [m])" "wl_inbox l' = wl_inbox l"
proof -
  have "accounted l' = accounted l + mset (submitted_keys [m]) \<and> wl_inbox l' = wl_inbox l"
  proof (cases "\<exists>s. m = SubmitIO s")
    case True
    then show ?thesis using assms by auto
  next
    case False
    with handle_message_places [OF assms] have "same_places l l'" by blast
    with False show ?thesis using same_places_accounted [of l l'] by (simp add: same_places_def)
  qed
  then show "accounted l' = accounted l + mset (submitted_keys [m])" "wl_inbox l' = wl_inbox l" by auto
qed

lemma handle_message_down_accounted:
  assumes "handle_message_down env m l = (killed, l')"
  shows "accounted l' = accounted l + mset (submitted_keys [m])" "wl_inbox l' = wl_inbox l"
proof -
  have "accounted l' = accounted l + mset (submitted_keys [m]) \<and> wl_inbox l' = wl_inbox l"
  proof (cases "\<exists>s. m = SubmitIO s")
    case True
    then show ?thesis using assms by auto
  next
    case False
    then have "same_places l l'" using assms by (cases m) auto
    with False show ?thesis using same_places_accounted [of l l'] by (simp add: same_places_def)
  qed
  then show "accounted l' = accounted l + mset (submitted_keys [m])" "wl_inbox l' = wl_inbox l" by auto
qed

lemma accounted_inbox:
  "accounted (l\<lparr>wl_inbox := ms\<rparr>) + mset (submitted_keys (wl_inbox l)) = accounted l + mset (submitted_keys ms)"
  by (simp add: loop_defs)

lemma submitted_keys_Cons: "submitted_keys (m # ms) = submitted_keys [m] @ submitted_keys ms"
  by (simp add: submitted_keys_def)

lemma handle_messages_accounted:
  "wl_inbox l = ms \<Longrightarrow> handle_messages env ms l = (killed, submit, l') \<Longrightarrow> accounted l' = accounted l"
proof (induction ms arbitrary: l killed submit l')
  case Nil
  then show ?case by (auto simp: loop_defs)
next
  case (Cons m ms)
  obtain k1 s1 l1 where 1: "handle_message env m (l\<lparr>wl_inbox := ms\<rparr>) = (k1, s1, l1)" by (cases "handle_message env m (l\<lparr>wl_inbox := ms\<rparr>)")
  have a: "accounted l1 = accounted l"
    using handle_message_accounted [OF 1] accounted_inbox [where l = l and ms = ms] Cons.prems(1) submitted_keys_Cons [of m ms]
    by (simp add: ac_simps)
  show ?case
  proof (cases k1)
    case True
    with 1 a Cons.prems show ?thesis by simp
  next
    case False
    obtain k2 s2 l2 where 2: "handle_messages env ms l1 = (k2, s2, l2)" by (cases "handle_messages env ms l1")
    have "accounted l2 = accounted l1"
      using Cons.IH [OF _ 2] handle_message_accounted(2) [OF 1] by simp
    with 1 2 a False Cons.prems show ?thesis by simp
  qed
qed

lemma handle_messages_down_accounted:
  "wl_inbox l = ms \<Longrightarrow> handle_messages_down env ms l = (killed, l') \<Longrightarrow> accounted l' = accounted l"
proof (induction ms arbitrary: l killed l')
  case Nil
  then show ?case by (auto simp: loop_defs)
next
  case (Cons m ms)
  obtain k1 l1 where 1: "handle_message_down env m (l\<lparr>wl_inbox := ms\<rparr>) = (k1, l1)" by fastforce
  have a: "accounted l1 = accounted l"
    using handle_message_down_accounted [OF 1] accounted_inbox [where l = l and ms = ms] Cons.prems(1) submitted_keys_Cons [of m ms]
    by (simp add: ac_simps)
  then show ?case
    using Cons.IH [of l1 killed l'] handle_message_down_accounted(2) [OF 1] 1 Cons.prems by (cases k1) auto
qed

lemma retry_waiting_accounted:
  "wl_waiting l = ss \<Longrightarrow> retry_waiting env ss l = (submit, l') \<Longrightarrow> accounted l' = accounted l"
proof (induction ss arbitrary: l submit l')
  case (Cons s ss)
  let ?l = "l\<lparr>wl_waiting := ss\<rparr>"
  show ?case
  proof (cases "loop_prepare env s ?l = (Some s, ?l)")
    case True
    with Cons.prems show ?thesis by (auto simp: loop_defs)
  next
    case False
    with loop_prepare_cases [of env s ?l] obtain l1 where
      1: "loop_prepare env s ?l = (None, l1)" "wl_inbox l1 = wl_inbox l" "wl_waiting l1 = ss"
        "pushed_keys l1 = pushed_keys l @ [sub_key s]"
      by (auto simp: pushed_keys_def)
    obtain s2 l2 where 2: "retry_waiting env ss l1 = (s2, l2)" by fastforce
    with Cons.IH [OF 1(3) 2] Cons.prems 1 show ?thesis by (auto simp: accounted_def waiting_keys_def)
  qed
qed simp

lemma handle_signal_places: "handle_signal n l = Some l' \<Longrightarrow> same_places l l'"
  by (auto simp: handle_signal_def split: option.splits notification.splits)

lemma dispatch_places: "dispatch_events reads es d l = Some (d', l') \<Longrightarrow> same_places l l'"
proof (induction es arbitrary: reads d l)
  case (Cons e es)
  show ?case
    using Cons.prems
    by (auto simp: split_beta split: if_splits list.splits option.splits
        dest!: Cons.IH handle_signal_places intro: same_places_trans)
qed simp

lemma wake_queues_places [simp]: "same_places l (wake_queues ks l') \<longleftrightarrow> same_places l l'"
  by (induction ks arbitrary: l') (auto simp: split_beta)

lemma complete_and_retry_accounted:
  "complete_and_retry env inp l = (submit, l') \<Longrightarrow> accounted l' = accounted l"
  using retry_waiting_accounted [of "loop_complete env (li_completions inp) l" _ env submit l']
    same_places_accounted [of l "loop_complete env (li_completions inp) l"]
  by (simp add: complete_and_retry_def Let_def)

lemma process_events_accounted:
  "process_events env inp es l = (r, l') \<Longrightarrow> accounted l' = accounted l"
proof -
  assume p: "process_events env inp es l = (r, l')"
  let ?d = "\<lparr>should_recv = False, should_complete_io = False, queues_to_wake = []\<rparr>"
  show ?thesis
  proof (cases "dispatch_events (li_signals inp) es ?d (set_state Busy l)")
    case None
    with p show ?thesis by (auto simp: process_events_def intro!: same_places_accounted)
  next
    case (Some dl)
    obtain d l0 where dl: "dl = (d, l0)" by fastforce
    define l1 where "l1 = wake_queues (queues_to_wake d) l0"
    have 1: "accounted l1 = accounted l"
      using same_places_trans [OF _ dispatch_places [OF Some [unfolded dl]], of l]
      by (simp add: l1_def same_places_accounted)
    obtain submit l2 where 2: "(if should_complete_io d then complete_and_retry env inp l1 else (False, l1)) = (submit, l2)"
      by fastforce
    have a2: "accounted l2 = accounted l1"
      using 2 complete_and_retry_accounted by (auto split: if_splits)
    obtain killed submit' l3 where
      3: "(if should_recv d then handle_messages env (wl_inbox l2) l2 else (False, False, l2)) = (killed, submit', l3)"
      by (cases "if should_recv d then handle_messages env (wl_inbox l2) l2 else (False, False, l2)")
    have a3: "accounted l3 = accounted l2"
      using 3 by (auto split: if_splits dest: handle_messages_accounted [OF refl])
    have "accounted l' = accounted l3"
      using p Some dl 2 3 unfolding process_events_def
      by (auto simp: l1_def [symmetric] Let_def split: if_splits intro!: same_places_accounted)
    with 1 a2 a3 show ?thesis by simp
  qed
qed

text \<open>C5. No submission is lost or doubled by the loop: an iteration of the main part and a round of the
  shutdown part leave, whatever events, signals and completions the kernel reports and whether or not
  submits succeed, the same keys in the channel, among the waiting submissions and in the ring taken
  together.\<close>

theorem submissions_conserved:
  "accounted (snd (main_iteration env inp l)) = accounted l \<and>
   accounted (snd (shutdown_round env inp l)) = accounted l"
proof
  have "accounted (set_state Idle l) = accounted l"
    by (rule same_places_accounted) simp
  then show "accounted (snd (main_iteration env inp l)) = accounted l"
    using process_events_accounted [of env inp _ "set_state Idle l"]
    by (auto simp: main_iteration_def Let_def split_beta intro: surjective_pairing)
next
  obtain killed l1 where 1: "handle_messages_down env (wl_inbox l) l = (killed, l1)" by fastforce
  have "accounted (snd (shutdown_round env inp l)) = accounted l1"
    using 1 by (auto simp: shutdown_round_def Let_def same_places_def loop_defs split: prod.split
        intro!: same_places_accounted)
  then show "accounted (snd (shutdown_round env inp l)) = accounted l"
    using handle_messages_down_accounted [OF refl 1] by simp
qed

section \<open>Events wake the tasks that wait for them\<close>

text \<open>The wakers \<open>ws\<close> that waited on the queue of \<open>k\<close> are called or still there.\<close>

definition called_or_waiting :: "u64 \<Rightarrow> waker set \<Rightarrow> ('f, 'st) worker_loop \<Rightarrow> bool" where
  "called_or_waiting k ws l \<longleftrightarrow>
     (\<exists>q. map_of (wl_registry l) k = Some q \<and> ws \<subseteq> set (wl_woken l) \<union> set (eq_wakers q))"

lemma broadcast_and_wake_wakes:
  "map_of r k = Some q \<Longrightarrow> set (eq_wakers q) \<subseteq> set (fst (broadcast_and_wake t r))"
  by (induction r) (auto simp: split_beta queue_wake_def queue_push_def split: if_splits)

lemma called_or_waiting_broadcast:
  "called_or_waiting k ws l \<Longrightarrow> called_or_waiting k ws (broadcast_event t l)"
  using broadcast_and_wake_wakes [of "wl_registry l" k]
  by (fastforce simp: called_or_waiting_def broadcast_event_def wake_wakers_def split_beta map_of_broadcast_and_wake)

lemma called_or_waiting_simps [simp]:
  "called_or_waiting k ws (set_state s l) \<longleftrightarrow> called_or_waiting k ws l"
  "called_or_waiting k ws (broadcast_notification n l) \<longleftrightarrow> called_or_waiting k ws l"
  by (simp_all add: called_or_waiting_def loop_defs)

lemma called_or_waiting_signal:
  "handle_signal n l = Some l' \<Longrightarrow> called_or_waiting k ws l \<Longrightarrow> called_or_waiting k ws l'"
  by (auto simp: handle_signal_def called_or_waiting_broadcast split: option.splits notification.splits)

lemma called_or_waiting_push:
  "called_or_waiting k ws l \<Longrightarrow> called_or_waiting k ws (snd (push_to_queue e d l))"
  by (auto simp: called_or_waiting_def push_to_queue_def push_event_def queue_push_def AList.update_conv'
      split: prod.splits option.splits)

lemma called_or_waiting_wake:
  assumes "called_or_waiting k ws l"
  shows "called_or_waiting k ws (wake_queues ks l) \<and> (k \<in> set ks \<longrightarrow> ws \<subseteq> set (wl_woken (wake_queues ks l)))"
  using assms
proof (induction ks arbitrary: l)
  case (Cons j ks)
  let ?l = "wake_wakers (fst (registry_wake j (wl_registry l))) (l\<lparr>wl_registry := snd (registry_wake j (wl_registry l))\<rparr>)"
  have step: "called_or_waiting k ws ?l"
    using Cons.prems by (auto simp: called_or_waiting_def registry_wake_def queue_wake_def wake_wakers_def
        AList.update_conv' split: option.split)
  have mono: "set (wl_woken l) \<subseteq> set (wl_woken (wake_queues ks l))" for l :: "('a, 'b) worker_loop"
  proof (induction ks arbitrary: l)
    case (Cons i ks)
    from Cons [of "wake_wakers (fst (registry_wake i (wl_registry l))) (l\<lparr>wl_registry := snd (registry_wake i (wl_registry l))\<rparr>)"]
    show ?case by (auto simp: split_beta wake_wakers_def)
  qed simp
  have "ws \<subseteq> set (wl_woken ?l)" if "j = k"
    using that Cons.prems by (auto simp: called_or_waiting_def registry_wake_def queue_wake_def wake_wakers_def)
  with Cons.IH [OF step] mono [of ?l] show ?case by (auto simp: split_beta)
qed simp

definition special_keys :: "('f, 'st) worker_loop \<Rightarrow> u64 set" where
  "special_keys l = {wl_message_key l, wl_io_key l, wl_signal_key l}"

lemma special_keys_signal: "handle_signal n l = Some l' \<Longrightarrow> special_keys l' = special_keys l"
  by (auto simp: handle_signal_def special_keys_def loop_defs split: option.splits notification.splits prod.splits)

lemma special_keys_push [simp]: "special_keys (snd (push_to_queue e d l)) = special_keys l"
  by (simp add: push_to_queue_def special_keys_def split: prod.split)

lemma queues_to_wake_push:
  "queues_to_wake (fst (push_to_queue e d l)) =
     queues_to_wake d @ (if map_of (wl_registry l) (event_key e) = None then [] else [event_key e])"
  by (simp add: push_to_queue_def push_event_def split: option.split)

lemma dispatch_wakers:
  assumes "dispatch_events reads es d l = Some (d', l')" "called_or_waiting k ws l" "k \<notin> special_keys l"
  shows "called_or_waiting k ws l' \<and> set (queues_to_wake d) \<subseteq> set (queues_to_wake d') \<and>
    (k \<in> event_key ` set es \<longrightarrow> k \<in> set (queues_to_wake d'))"
  using assms
proof (induction es arbitrary: reads d l)
  case (Cons e es)
  have found: "map_of (wl_registry l) k \<noteq> None" if "called_or_waiting k ws l" for l :: "('a, 'b) worker_loop"
    using that by (auto simp: called_or_waiting_def)
  have step: ?case
    if "dispatch_events reads' es d1 l1 = Some (d', l')" "called_or_waiting k ws l1" "special_keys l1 = special_keys l"
      "set (queues_to_wake d) \<subseteq> set (queues_to_wake d1)" "event_key e = k \<longrightarrow> k \<in> set (queues_to_wake d1)"
    for reads' d1 l1
    using Cons.IH [OF that(1,2)] that Cons.prems(3) by auto
  have push: ?case
    if "dispatch_events reads' es (fst (push_to_queue e d l1)) (snd (push_to_queue e d l1)) = Some (d', l')"
      "called_or_waiting k ws l1" "special_keys l1 = special_keys l" for reads' l1
    by (rule step [OF that(1)]) (use that found [of l1] in \<open>auto simp: called_or_waiting_push queues_to_wake_push\<close>)
  consider (msg) "event_key e = wl_message_key l" | (io) "event_key e \<noteq> wl_message_key l" "event_key e = wl_io_key l"
    | (sig) "event_key e \<noteq> wl_message_key l" "event_key e \<noteq> wl_io_key l" "event_key e = wl_signal_key l"
    | (queue) "event_key e \<noteq> wl_message_key l" "event_key e \<noteq> wl_io_key l" "event_key e \<noteq> wl_signal_key l"
    by blast
  then show ?case
  proof cases
    case msg
    with Cons.prems step [of reads "d\<lparr>should_recv := True\<rparr>" l] show ?thesis by (auto simp: special_keys_def)
  next
    case io
    with Cons.prems step [of reads "d\<lparr>should_complete_io := True\<rparr>" l] show ?thesis by (auto simp: special_keys_def)
  next
    case sig
    then have k: "event_key e \<noteq> k" using Cons.prems(3) by (auto simp: special_keys_def)
    consider (skip) "dispatch_events (tl reads) es d l = Some (d', l')"
      | (read) n reads' l1 where "handle_signal n l = Some l1"
          "dispatch_events reads' es (fst (push_to_queue e d l1)) (snd (push_to_queue e d l1)) = Some (d', l')"
      using sig Cons.prems(1) by (auto simp: split_beta split: list.splits option.splits)
    then show ?thesis
    proof cases
      case skip
      with k Cons.prems step [of "tl reads" d l] show ?thesis by simp
    next
      case read
      show ?thesis
        using push [OF read(2) called_or_waiting_signal [OF read(1) Cons.prems(2)] special_keys_signal [OF read(1)]] .
    qed
  next
    case queue
    with Cons.prems push [of reads l] show ?thesis by (simp add: split_beta)
  qed
qed simp

text \<open>C40. An event is never left lying beside a task that waits for it: of the tasks that waited on the
  queue of a key when the worker's poll returned an event for it, every one is woken by the dispatch of
  that poll's events, whatever else was polled with it.\<close>

theorem events_wake_receivers:
  assumes "dispatch_events reads es d l = Some (d', l')" "map_of (wl_registry l) k = Some q"
    "k \<notin> special_keys l" "k \<in> event_key ` set es"
  shows "set (eq_wakers q) \<subseteq> set (wl_woken (wake_queues (queues_to_wake d') l'))"
proof -
  have "called_or_waiting k (set (eq_wakers q)) l" using assms(2) by (auto simp: called_or_waiting_def)
  from dispatch_wakers [OF assms(1) this assms(3)] assms(4) show ?thesis
    using called_or_waiting_wake by blast
qed

definition idle_loop :: "(unit, unit) worker_loop" where
  "idle_loop = \<lparr>wl_state = Idle, wl_executor = executor_new, wl_context = \<lparr>ctx_queue = [], ctx_in_flight = []\<rparr>,
     wl_pushed = 0, wl_waiting = [], wl_inbox = [],
     wl_registry = [(103, \<lparr>eq_events = [], eq_wakers = [5]\<rparr>)],
     wl_next_task_id = 0, wl_message_key = 100, wl_io_key = 101, wl_signal_key = 102, wl_woken = [], wl_notified = []\<rparr>"

theorem events_wake_receivers_witness:
  "\<exists>d l. dispatch_events [Some SIGCHLD]
       [\<lparr>event_type = EPOLLIN, event_key = 102\<rparr>, \<lparr>event_type = EPOLLIN, event_key = 103\<rparr>]
       \<lparr>should_recv = False, should_complete_io = False, queues_to_wake = []\<rparr> idle_loop = Some (d, l) \<and>
     5 \<in> set (wl_woken (wake_queues (queues_to_wake d) l))"
proof -
  let ?es = "[\<lparr>event_type = EPOLLIN, event_key = 102\<rparr>, \<lparr>event_type = EPOLLIN, event_key = 103\<rparr>]"
  let ?d = "\<lparr>should_recv = False, should_complete_io = False, queues_to_wake = []\<rparr>"
  obtain d l where d: "dispatch_events [Some SIGCHLD] ?es ?d idle_loop = Some (d, l)"
    by (simp add: idle_loop_def handle_signal_def signal_of_c_int_def broadcast_notification_def push_to_queue_def
        push_event_def)
  show ?thesis
    using events_wake_receivers [OF d, of 103 "\<lparr>eq_events = [], eq_wakers = [5]\<rparr>"] d
    by (auto simp: idle_loop_def special_keys_def)
qed

section \<open>Stopping\<close>

lemma handle_message_state:
  "handle_message env m l = (killed, submit, l') \<Longrightarrow>
     wl_state l' = (if m = ShutdownMessage then Stopping else wl_state l) \<and> (killed \<longleftrightarrow> m = KillMessage)"
proof -
  have fold: "wl_state (fold spawn_on_loop ts l) = wl_state l" for ts and l :: "('a, 'b) worker_loop"
    by (induction ts arbitrary: l) (auto simp: spawn_on_loop_def)
  have prep: "wl_state (prepare_io_submission env s l) = wl_state l" for s
    using loop_prepare_cases [of env s l] by (auto simp: prepare_io_submission_def)
  show "handle_message env m l = (killed, submit, l') \<Longrightarrow>
     wl_state l' = (if m = ShutdownMessage then Stopping else wl_state l) \<and> (killed \<longleftrightarrow> m = KillMessage)"
    by (cases m) (auto simp: fold prep loop_defs split: option.split prod.split)
qed

lemma handle_messages_state:
  "handle_messages env ms l = (killed, submit, l') \<Longrightarrow> KillMessage \<notin> set ms \<Longrightarrow>
     \<not> killed \<and> wl_state l' = (if ShutdownMessage \<in> set ms then Stopping else wl_state l)"
proof (induction ms arbitrary: l killed submit l')
  case (Cons m ms)
  obtain k1 s1 l1 where 1: "handle_message env m (l\<lparr>wl_inbox := ms\<rparr>) = (k1, s1, l1)"
    by (cases "handle_message env m (l\<lparr>wl_inbox := ms\<rparr>)")
  obtain k2 s2 l2 where 2: "handle_messages env ms l1 = (k2, s2, l2)" by (cases "handle_messages env ms l1")
  show ?case
    using Cons.IH [OF 2] Cons.prems 1 2 handle_message_state [OF 1] by auto
qed auto

lemma handle_messages_kill:
  "KillMessage \<notin> set ms \<Longrightarrow> handle_messages env (ms @ KillMessage # rest) l = (killed, submit, l') \<Longrightarrow>
     killed \<and> wl_inbox l' = rest \<and> wl_state l' = (if ShutdownMessage \<in> set ms then Stopping else wl_state l)"
proof (induction ms arbitrary: l killed submit l')
  case (Cons m ms)
  let ?ms = "ms @ KillMessage # rest"
  obtain k1 s1 l1 where 1: "handle_message env m (l\<lparr>wl_inbox := ?ms\<rparr>) = (k1, s1, l1)"
    by (cases "handle_message env m (l\<lparr>wl_inbox := ?ms\<rparr>)")
  obtain k2 s2 l2 where 2: "handle_messages env ?ms l1 = (k2, s2, l2)" by (cases "handle_messages env ?ms l1")
  show ?case
    using Cons.IH [OF _ 2] Cons.prems 1 2 handle_message_state [OF 1] by auto
qed auto

text \<open>Every queue ends with the event \<open>t\<close> for its key, and nobody waits.\<close>

definition announced :: "i32 \<Rightarrow> ('f, 'st) worker_loop \<Rightarrow> bool" where
  "announced t l \<longleftrightarrow>
     (\<forall>(k, q) \<in> set (wl_registry l). eq_wakers q = [] \<and>
        (\<exists>es. eq_events q = es @ [\<lparr>event_type = t, event_key = k\<rparr>]))"

lemma announced_broadcast: "announced t (broadcast_event t l)"
proof -
  have "\<forall>(k, q) \<in> set (snd (broadcast_and_wake t r)). eq_wakers q = [] \<and>
      (\<exists>es. eq_events q = es @ [\<lparr>event_type = t, event_key = k\<rparr>])" for r
    by (induction r) (auto simp: split_beta queue_wake_def queue_push_def)
  from this [of "wl_registry l"] show ?thesis
    by (simp add: announced_def broadcast_event_def wake_wakers_def split_beta)
qed

definition message_event :: "('f, 'st) worker_loop \<Rightarrow> loop_input \<Rightarrow> bool" where
  "message_event l inp \<longleftrightarrow> li_poll inp = Inr [(EPOLLIN, wl_message_key l)]"

text \<open>An iteration on nothing but a signal of the message channel.\<close>

lemma iteration_on_messages:
  assumes "message_event l inp"
    "handle_messages env (wl_inbox l) (set_state Busy (set_state Idle l)) = (killed, submit, l1)"
  shows "main_iteration env inp l =
    (if killed then (Return, l1)
     else (let l2 = run_ready env (if submit then loop_submit (li_submit_ok inp) l1 else l1) in
           if wl_state l2 = Stopping
           then (ShutDown, broadcast_notification ShutdownNotice (broadcast_event SHUTDOWN l2))
           else (GoOn, l2)))"
  using assms
  by (simp add: main_iteration_def poll_events_def message_event_def event_of_epoll_def process_events_def
      set_state_def Let_def)

text \<open>A worker that finds a shutdown message, and no kill message, in its channel leaves the main part
  of its loop in this iteration, whatever else is in the channel, with its state at \<open>Stopping\<close>: every
  event queue then ends with the shutdown event and all tasks waiting on one have been woken, and
  subscribers are notified.\<close>

theorem shutdown_announced:
  assumes "message_event l inp" "ShutdownMessage \<in> set (wl_inbox l)" "KillMessage \<notin> set (wl_inbox l)"
  shows "let (r, l') = main_iteration env inp l in
    r = ShutDown \<and> wl_state l' = Stopping \<and> announced SHUTDOWN l' \<and>
    (\<exists>ns. wl_notified l' = ns @ [ShutdownNotice]) \<and> wl_state (thread_end l') = Stopped"
proof -
  obtain killed submit l1 where
    1: "handle_messages env (wl_inbox l) (set_state Busy (set_state Idle l)) = (killed, submit, l1)"
    by (cases "handle_messages env (wl_inbox l) (set_state Busy (set_state Idle l))")
  have "\<not> killed \<and> wl_state l1 = Stopping" using handle_messages_state [OF 1 assms(3)] assms(2) by simp
  moreover have "announced SHUTDOWN (broadcast_notification n l) = announced SHUTDOWN l" for n and l :: "('a, 'b) worker_loop"
    by (simp add: announced_def broadcast_notification_def)
  ultimately show ?thesis
    unfolding iteration_on_messages [OF assms(1) 1]
    by (simp add: announced_broadcast run_ready_def loop_submit_def Let_def thread_end_def set_state_def)
      (simp add: broadcast_notification_def broadcast_event_def wake_wakers_def split_beta)
qed

theorem shutdown_announced_witness:
  "fst (main_iteration \<lparr>we_capacity = 256, we_poll = \<lambda>_ _. (PollPending, ()),
        we_completion = \<lparr>env_grow = \<lambda>_. [0], env_parse_msghdr = \<lambda>_. Inr []\<rparr>, we_repair = None\<rparr>
      \<lparr>li_poll = Inr [(EPOLLIN, 100)], li_signals = [], li_completions = [], li_submit_ok = True\<rparr>
      (idle_loop\<lparr>wl_inbox := [TaskSpawner (), ShutdownMessage]\<rparr>)) = ShutDown"
  using shutdown_announced [of "idle_loop\<lparr>wl_inbox := [TaskSpawner (), ShutdownMessage]\<rparr>"
      "\<lparr>li_poll = Inr [(EPOLLIN, 100)], li_signals = [], li_completions = [], li_submit_ok = True\<rparr>"
      "\<lparr>we_capacity = 256, we_poll = \<lambda>_ _. (PollPending, ()),
        we_completion = \<lparr>env_grow = \<lambda>_. [0], env_parse_msghdr = \<lambda>_. Inr []\<rparr>, we_repair = None\<rparr>"]
  by (simp add: message_event_def idle_loop_def split_beta)

text \<open>A kill message ends the loop at once: what is behind it in the channel stays there, and when no
  shutdown was under way the thread announces the kill to every event queue, with the tasks waiting there
  woken, and to the subscribers, and is stopped.\<close>

theorem kill_stops_at_once:
  assumes "message_event l inp" "wl_inbox l = ms @ KillMessage # rest"
    "KillMessage \<notin> set ms" "ShutdownMessage \<notin> set ms"
  shows "let (r, l') = main_iteration env inp l in
    r = Return \<and> wl_inbox l' = rest \<and> announced KILL (thread_end l') \<and>
    wl_notified (thread_end l') = wl_notified l' @ [KillNotice] \<and> wl_state (thread_end l') = Stopped"
proof -
  obtain killed submit l1 where
    1: "handle_messages env (wl_inbox l) (set_state Busy (set_state Idle l)) = (killed, submit, l1)"
    by (cases "handle_messages env (wl_inbox l) (set_state Busy (set_state Idle l))")
  have "killed \<and> wl_inbox l1 = rest \<and> wl_state l1 = Busy"
    using handle_messages_kill [OF assms(3) 1 [unfolded assms(2)]] assms(4) by (simp add: set_state_def)
  moreover have "announced KILL (set_state s (broadcast_event KILL l))" for s and l :: "('a, 'b) worker_loop"
    using announced_broadcast [of KILL l] by (simp add: announced_def set_state_def)
  ultimately show ?thesis
    unfolding iteration_on_messages [OF assms(1) 1] by (simp add: thread_end_def)
      (simp add: set_state_def broadcast_notification_def broadcast_event_def wake_wakers_def split_beta)
qed

theorem kill_stops_at_once_witness:
  "wl_inbox (snd (main_iteration \<lparr>we_capacity = 256, we_poll = \<lambda>_ _. (PollPending, ()),
        we_completion = \<lparr>env_grow = \<lambda>_. [0], env_parse_msghdr = \<lambda>_. Inr []\<rparr>, we_repair = None\<rparr>
      \<lparr>li_poll = Inr [(EPOLLIN, 100)], li_signals = [], li_completions = [], li_submit_ok = True\<rparr>
      (idle_loop\<lparr>wl_inbox := [TaskSpawner (), KillMessage, WakeTask 0]\<rparr>))) = [WakeTask 0]"
  using kill_stops_at_once [of "idle_loop\<lparr>wl_inbox := [TaskSpawner (), KillMessage, WakeTask 0]\<rparr>"
      "\<lparr>li_poll = Inr [(EPOLLIN, 100)], li_signals = [], li_completions = [], li_submit_ok = True\<rparr>"
      "[TaskSpawner ()]" "[WakeTask 0]"
      "\<lparr>we_capacity = 256, we_poll = \<lambda>_ _. (PollPending, ()),
        we_completion = \<lparr>env_grow = \<lambda>_. [0], env_parse_msghdr = \<lambda>_. Inr []\<rparr>, we_repair = None\<rparr>"]
  by (simp add: message_event_def idle_loop_def split_beta)

section \<open>What the shutdown part leaves waiting\<close>

text \<open>Rounds of the shutdown part, with the messages that arrive before each and what the kernel does.\<close>

fun shutdown_rounds ::
  "'f worker_env \<Rightarrow> (('f, 'st) message list \<times> loop_input) list \<Rightarrow> ('f, 'st) worker_loop
    \<Rightarrow> ('f, 'st) worker_loop option" where
  "shutdown_rounds env [] l = Some l"
| "shutdown_rounds env ((ms, inp) # rs) l =
     (case shutdown_round env inp (l\<lparr>wl_inbox := wl_inbox l @ ms\<rparr>) of
        (GoOn, l) \<Rightarrow> shutdown_rounds env rs l
      | _ \<Rightarrow> None)"

definition parked_on :: "('f, 'st) worker_loop \<Rightarrow> task_id \<Rightarrow> ('f, 'st) worker_loop \<Rightarrow> bool" where
  "parked_on l i l' \<longleftrightarrow> i \<in> set (running_ids (wl_executor l')) \<and> prefix (wl_waiting l) (wl_waiting l')"

lemma run_tasks_keeps_running:
  "i \<in> set (running_ids ex) \<Longrightarrow> i \<in> set (running_ids (run_tasks poll ts ex))"
proof (induction ts arbitrary: ex)
  case (Cons t ts)
  have "i \<in> set (running_ids (run_task poll t (ex\<lparr>ready_tasks := ts\<rparr>)))"
    using Cons.prems by (auto simp: run_task_def running_ids_def Let_def AList.dom_update [unfolded dom_map_of_conv_image_fst]
        AList.update_keys split: prod.split poll.split)
  then show ?case by (simp add: Cons.IH)
qed simp

lemma parked_on_simps [simp]:
  "parked_on l i (spawn_on_loop t l') \<longleftrightarrow> parked_on l i l'"
  "parked_on l i (spawn_future_on_loop f l') \<longleftrightarrow> parked_on l i l'"
  "parked_on l i (wake_wakers ws l') \<longleftrightarrow> parked_on l i l'"
  "parked_on l i (loop_submit ok l') \<longleftrightarrow> parked_on l i l'"
  "parked_on l i (loop_complete env items l') \<longleftrightarrow> parked_on l i l'"
  "parked_on l i (l'\<lparr>wl_inbox := ms\<rparr>) \<longleftrightarrow> parked_on l i l'"
  by (simp_all add: parked_on_def loop_defs split: prod.split)

lemma parked_on_fold [simp]: "parked_on l i (fold spawn_on_loop ts l') \<longleftrightarrow> parked_on l i l'"
  by (induction ts arbitrary: l') auto

lemma parked_on_prepare: "parked_on l i l' \<Longrightarrow> parked_on l i (prepare_io_submission env s l')"
  using loop_prepare_cases [of env s l'] by (auto simp: prepare_io_submission_def parked_on_def)

lemma parked_on_run_ready: "parked_on l i l' \<Longrightarrow> parked_on l i (run_ready env l')"
  by (auto simp: parked_on_def run_ready_def run_ready_tasks_def run_tasks_keeps_running)

lemma parked_on_wake: "parked_on l i l' \<Longrightarrow> j \<noteq> i \<Longrightarrow> parked_on l i (l'\<lparr>wl_executor := wake_task j (wl_executor l')\<rparr>)"
  by (auto simp: parked_on_def wake_task_def running_ids_def keys_delete dom_delete split: option.split)

lemma parked_on_message:
  "parked_on l i l' \<Longrightarrow> handle_message_down env m l' = (killed, l'') \<Longrightarrow> m \<noteq> KillMessage \<Longrightarrow> m \<noteq> WakeTask i \<Longrightarrow>
     \<not> killed \<and> parked_on l i l''"
  by (cases m) (auto simp: parked_on_prepare parked_on_wake)

lemma parked_on_messages:
  "parked_on l i l' \<Longrightarrow> handle_messages_down env ms l' = (killed, l'') \<Longrightarrow>
     KillMessage \<notin> set ms \<Longrightarrow> WakeTask i \<notin> set ms \<Longrightarrow> \<not> killed \<and> parked_on l i l'' \<and> wl_inbox l'' = []"
proof (induction ms arbitrary: l')
  case (Cons m ms)
  obtain k1 l1 where 1: "handle_message_down env m (l'\<lparr>wl_inbox := ms\<rparr>) = (k1, l1)" by fastforce
  have "\<not> k1 \<and> parked_on l i l1" using parked_on_message [OF _ 1, of l i] Cons.prems by auto
  with Cons.IH [of l1] Cons.prems 1 show ?case by auto
qed auto

lemma parked_on_round:
  assumes "parked_on l i l'" "KillMessage \<notin> set (wl_inbox l')" "WakeTask i \<notin> set (wl_inbox l')"
  shows "\<exists>l''. shutdown_round env inp l' = (GoOn, l'') \<and> parked_on l i l'' \<and> wl_inbox l'' = []"
proof -
  obtain killed l1 where 1: "handle_messages_down env (wl_inbox l') l' = (killed, l1)" by fastforce
  have p: "\<not> killed" "parked_on l i l1" "wl_inbox l1 = []" using parked_on_messages [OF assms(1) 1] assms(2,3) by auto
  let ?l2 = "run_ready env (loop_complete env (li_completions inp) (loop_submit (li_submit_ok inp) l1))"
  have 2: "parked_on l i ?l2" using p(2) by (intro parked_on_run_ready) simp
  then have "has_running_tasks (wl_executor ?l2)" by (auto simp: parked_on_def has_running_tasks_def running_ids_def)
  moreover have "wl_inbox ?l2 = []" using p(3) by (simp add: loop_defs split: prod.split)
  ultimately show ?thesis using 1 2 p(1) by (simp add: shutdown_round_def)
qed

text \<open>C9. The shutdown part never tries waiting submissions again. A submission that is waiting for room in
  the ring when it begins is still waiting after any number of rounds, whatever the kernel completes; so
  a task that is parked until that submission completes, and that nothing else wakes, stays parked, and
  no round ends the loop: a graceful shutdown hangs.\<close>

theorem shutdown_strands_waiting:
  assumes "i \<in> set (running_ids (wl_executor l))"
    "\<forall>ms \<in> insert (wl_inbox l) (fst ` set rs). KillMessage \<notin> set ms \<and> WakeTask i \<notin> set ms"
  shows "\<exists>l'. shutdown_rounds env rs l = Some l' \<and> i \<in> set (running_ids (wl_executor l')) \<and>
    prefix (wl_waiting l) (wl_waiting l')"
proof -
  have "\<exists>l'. shutdown_rounds env rs l0 = Some l' \<and> parked_on l i l'"
    if "parked_on l i l0" "\<forall>ms \<in> insert (wl_inbox l0) (fst ` set rs). KillMessage \<notin> set ms \<and> WakeTask i \<notin> set ms"
    for l0 using that
  proof (induction rs arbitrary: l0)
    case (Cons r rs)
    obtain ms inp where r: "r = (ms, inp)" by fastforce
    obtain l1 where 1: "shutdown_round env inp (l0\<lparr>wl_inbox := wl_inbox l0 @ ms\<rparr>) = (GoOn, l1)"
      "parked_on l i l1" "wl_inbox l1 = []"
      using parked_on_round [of l i "l0\<lparr>wl_inbox := wl_inbox l0 @ ms\<rparr>" env inp] Cons.prems r by auto
    with Cons.IH [of l1] Cons.prems r show ?case by auto
  qed simp
  from this [of l] assms show ?thesis by (auto simp: parked_on_def)
qed

definition stranded_loop :: "(unit, unit) worker_loop" where
  "stranded_loop = idle_loop\<lparr>
     wl_executor := \<lparr>ready_tasks = [], running_tasks = [(0, \<lparr>task_future = (), task_id = 0\<rparr>)], waker_cache = [(0, 0)]\<rparr>,
     wl_waiting := [\<lparr>sub_key = 7, sub_op = op_accept 3, sub_waker = Some 0\<rparr>]\<rparr>"

theorem shutdown_strands_waiting_witness:
  "\<exists>l. shutdown_rounds \<lparr>we_capacity = 256, we_poll = \<lambda>_ _. (PollPending, ()),
        we_completion = \<lparr>env_grow = \<lambda>_. [0], env_parse_msghdr = \<lambda>_. Inr []\<rparr>, we_repair = None\<rparr>
      (replicate 3 ([], \<lparr>li_poll = Inr [], li_signals = [], li_completions = [], li_submit_ok = True\<rparr>))
      stranded_loop = Some l \<and> 0 \<in> set (running_ids (wl_executor l)) \<and>
      prefix [\<lparr>sub_key = 7, sub_op = op_accept 3, sub_waker = Some 0\<rparr>] (wl_waiting l)"
  using shutdown_strands_waiting [of 0 stranded_loop
      "replicate 3 ([], \<lparr>li_poll = Inr [], li_signals = [], li_completions = [], li_submit_ok = True\<rparr>)"
      "\<lparr>we_capacity = 256, we_poll = \<lambda>_ _. (PollPending, ()),
        we_completion = \<lparr>env_grow = \<lambda>_. [0], env_parse_msghdr = \<lambda>_. Inr []\<rparr>, we_repair = None\<rparr>"]
  by (simp add: stranded_loop_def idle_loop_def running_ids_def)

end
