(* ===== verification/Pool.thy ===== *)
theory Pool
  imports Worker
begin

text \<open>
  The pool of workers (\<open>src/pool.rs\<close>, the calls of \<open>src/lib.rs\<close> into it): round-robin choice of a worker,
  tasks and I/O operations handed to it, starting, stopping and joining, and the handles of submitted
  operations (\<open>WorkerIoSubmissionHandle\<close>). The static counter is part of the state; a \<open>usize\<close> index is
  the word. The two tries to signal a worker succeed or not as the arguments say.
\<close>

section \<open>The pool\<close>

record ('f, 'st) pool =
  n_threads :: usize
  workers :: "('f, 'st) worker list"
  next_id :: usize          \<comment> \<open>the static \<open>NEXT_ID\<close>\<close>

definition pool_new :: "usize \<Rightarrow> usize \<Rightarrow> ('f, 'st) pool" where
  "pool_new n counter = \<lparr>n_threads = n, workers = [], next_id = counter\<rparr>"

text \<open>\<open>next_worker_id\<close>; the remainder by zero panics, after the counter was increased.\<close>

definition next_worker_id :: "('f, 'st) pool \<Rightarrow> usize option \<times> ('f, 'st) pool" where
  "next_worker_id p =
     (let i = next_id p; p = p\<lparr>next_id := i + 1\<rparr> in
      (if n_threads p = 0 then None else Some (i mod n_threads p), p))"

definition available :: "('f, 'st) worker \<Rightarrow> bool" where
  "available w \<longleftrightarrow> wk_state w \<notin> {NotStarted, Stopped, Stopping}"

datatype next_worker_error = NextWorkerError

text \<open>The \<open>for\<close> loop of \<open>get_next_worker\<close> with the turns left: the index of the worker it chooses.\<close>

fun try_workers :: "nat \<Rightarrow> ('f, 'st) pool \<Rightarrow> (next_worker_error + nat) \<times> ('f, 'st) pool" where
  "try_workers 0 p = (Inl NextWorkerError, p)"
| "try_workers (Suc n) p =
     (case next_worker_id p of
        (None, p) \<Rightarrow> (Inl NextWorkerError, p)
      | (Some i, p) \<Rightarrow>
          (if unat i < length (workers p) then
             (if available (workers p ! unat i) then (Inr (unat i), p) else try_workers n p)
           else (Inl NextWorkerError, p)))"

definition get_next_worker :: "('f, 'st) pool \<Rightarrow> (next_worker_error + nat) \<times> ('f, 'st) pool" where
  "get_next_worker p = try_workers (unat (n_threads p)) p"

definition set_worker :: "nat \<Rightarrow> ('f, 'st) worker \<Rightarrow> ('f, 'st) pool \<Rightarrow> ('f, 'st) pool" where
  "set_worker i w p = p\<lparr>workers := (workers p)[i := w]\<rparr>"

section \<open>Handing out work\<close>

datatype spawn_error_kind = FailedToGetWorker | FailedToSendTask

text \<open>\<open>spawn\<close>: an error carries the task back; \<open>None\<close> is the branch marked unreachable.\<close>

definition pool_spawn ::
  "bool \<Rightarrow> bool \<Rightarrow> 'f local_task \<Rightarrow> ('f, 'st) pool
    \<Rightarrow> ('f local_task \<times> spawn_error_kind + unit) option \<times> ('f, 'st) pool" where
  "pool_spawn sig1 sig2 t p =
     (case get_next_worker p of
        (Inl _, p) \<Rightarrow> (Some (Inl (t, FailedToGetWorker)), p)
      | (Inr i, p) \<Rightarrow>
          (let (r, w) = worker_spawn sig1 sig2 t (workers p ! i); p = set_worker i w p in
           case r of
             Inr _ \<Rightarrow> (Some (Inr ()), p)
           | Inl (SpawnTask t) \<Rightarrow> (Some (Inl (t, FailedToSendTask)), p)
           | Inl _ \<Rightarrow> (None, p)))"

definition pool_spawn_with ::
  "bool \<Rightarrow> bool \<Rightarrow> 'f \<Rightarrow> ('f, 'st) pool \<Rightarrow> ('f \<times> spawn_error_kind + unit) option \<times> ('f, 'st) pool" where
  "pool_spawn_with sig1 sig2 f p =
     (case get_next_worker p of
        (Inl _, p) \<Rightarrow> (Some (Inl (f, FailedToGetWorker)), p)
      | (Inr i, p) \<Rightarrow>
          (let (r, w) = worker_spawn_with sig1 sig2 f (workers p ! i); p = set_worker i w p in
           case r of
             Inr _ \<Rightarrow> (Some (Inr ()), p)
           | Inl (TaskSpawner f) \<Rightarrow> (Some (Inl (f, FailedToSendTask)), p)
           | Inl _ \<Rightarrow> (None, p)))"

datatype ('f, 'st, 'p) dispatch_error = FailedToFindWorker 'p | FailedToSendMessage "('f, 'st) message"

text \<open>\<open>WorkerIoSubmissionHandle\<close>: the key, and the completion queue it is polled in, known by its worker.\<close>

record submission_handle =
  sh_key :: key
  sh_worker :: nat

definition pool_submit_io ::
  "bool \<Rightarrow> bool \<Rightarrow> 'st io_operation \<Rightarrow> waker option \<Rightarrow> ('f, 'st) pool
    \<Rightarrow> (('f, 'st, 'st io_operation) dispatch_error + submission_handle) \<times> ('f, 'st) pool" where
  "pool_submit_io sig1 sig2 op w p =
     (case get_next_worker p of
        (Inl _, p) \<Rightarrow> (Inl (FailedToFindWorker op), p)
      | (Inr i, p) \<Rightarrow>
          (let (r, wk) = submission_queue_submit sig1 sig2 op w (workers p ! i) in
           (case r of Inl m \<Rightarrow> Inl (FailedToSendMessage m) | Inr k \<Rightarrow> Inr \<lparr>sh_key = k, sh_worker = i\<rparr>,
            set_worker i wk p)))"

text \<open>\<open>WorkerIoSubmissionHandle::cancel\<close>.\<close>

definition handle_cancel ::
  "bool \<Rightarrow> bool \<Rightarrow> submission_handle \<Rightarrow> ('f, 'st) pool
    \<Rightarrow> (('f, 'st, 'st io_operation) dispatch_error + unit) \<times> ('f, 'st) pool" where
  "handle_cancel sig1 sig2 h p =
     (let (r, p) = pool_submit_io sig1 sig2 (op_cancel (sh_key h) Zero) None p in (map_ok (\<lambda>_. ()) r, p))"

section \<open>Starting and stopping\<close>

text \<open>\<open>start\<close>: workers \<open>i\<close> and on, until one cannot be started; \<open>create\<close> is whether the worker's channel,
  poller and ring can be created.\<close>

datatype pool_start_error = WorkerInitError | WorkerStartFailed worker_start_error

fun start_workers ::
  "(nat \<Rightarrow> bool) \<Rightarrow> nat list \<Rightarrow> ('f, 'st) worker list \<Rightarrow> pool_start_error + ('f, 'st) worker list" where
  "start_workers create [] ws = Inr ws"
| "start_workers create (i # is) ws =
     (if \<not> create i then Inl WorkerInitError
      else (case worker_start (worker_new i) of
              (Inl e, _) \<Rightarrow> Inl (WorkerStartFailed e)
            | (Inr _, w) \<Rightarrow> start_workers create is (take i ws @ [w] @ drop i ws)))"

definition pool_start ::
  "(nat \<Rightarrow> bool) \<Rightarrow> ('f, 'st) pool \<Rightarrow> pool_start_error + ('f, 'st) pool" where
  "pool_start create p =
     map_ok (\<lambda>ws. p\<lparr>workers := ws\<rparr>) (start_workers create [0..<unat (n_threads p)] (workers p))"

definition pool_kill :: "bool \<Rightarrow> bool \<Rightarrow> ('f, 'st) pool \<Rightarrow> ('f, 'st) pool" where
  "pool_kill sig1 sig2 p = p\<lparr>workers := map (\<lambda>w. snd (worker_kill sig1 sig2 w)) (workers p)\<rparr>"

text \<open>\<open>join\<close>: the threads it waits for, and the handles are gone.\<close>

definition join_single :: "nat \<Rightarrow> ('f, 'st) pool \<Rightarrow> nat list \<times> ('f, 'st) pool" where
  "join_single i p =
     (if i < length (workers p) then
        (let (h, w) = take_join_handle (workers p ! i) in (if h then [i] else [], set_worker i w p))
      else ([], p))"

fun join_workers :: "nat list \<Rightarrow> ('f, 'st) pool \<Rightarrow> nat list \<times> ('f, 'st) pool" where
  "join_workers [] p = ([], p)"
| "join_workers (i # is) p =
     (let (j, p) = join_single i p; (js, p) = join_workers is p in (j @ js, p))"

definition pool_join :: "('f, 'st) pool \<Rightarrow> nat list \<times> ('f, 'st) pool" where
  "pool_join p = join_workers [0..<unat (n_threads p)] p"

definition pool_shutdown :: "bool \<Rightarrow> bool \<Rightarrow> ('f, 'st) pool \<Rightarrow> nat list \<times> ('f, 'st) pool" where
  "pool_shutdown sig1 sig2 p =
     pool_join (p\<lparr>workers := map (\<lambda>w. snd (worker_shutdown sig1 sig2 w)) (workers p)\<rparr>)"

text \<open>\<open>lib.rs\<close>: \<open>init\<close> over the static pool, which panics when the pool cannot be started.\<close>

datatype init_error = AlreadyInitialized

definition init :: "(nat \<Rightarrow> bool) \<Rightarrow> usize \<Rightarrow> usize \<Rightarrow> ('f, 'st) pool option 
    \<Rightarrow> (init_error failure + unit) \<times> ('f, 'st) pool option" where
  "init create n counter pool =
     (case pool of
        Some p \<Rightarrow> (Inl (Fail AlreadyInitialized), pool)
      | None \<Rightarrow>
          (case pool_start create (pool_new n counter) of
             Inl e \<Rightarrow> (Inl Panic, None)
           | Inr p \<Rightarrow> (Inr (), Some p)))"

section \<open>Choosing a worker\<close>

text \<open>The pool as it runs: as many workers as threads, at least one.\<close>

definition pool_wf :: "('f, 'st) pool \<Rightarrow> bool" where
  "pool_wf p \<longleftrightarrow> unat (n_threads p) = length (workers p) \<and> workers p \<noteq> []"

lemma find_upt_Suc: "find P [0..<Suc n] = (if P 0 then Some 0 else map_option Suc (find (\<lambda>i. P (Suc i)) [0..<n]))"
proof -
  have "[0..<Suc n] = 0 # map Suc [0..<n]" by (simp add: map_Suc_upt upt_conv_Cons)
  moreover have "find P (map Suc xs) = map_option Suc (find (\<lambda>i. P (Suc i)) xs)" for xs
    by (induction xs) auto
  ultimately show ?thesis by simp
qed

lemma next_worker_id_index:
  assumes "pool_wf p"
  shows "next_worker_id p = (Some (next_id p mod n_threads p), p\<lparr>next_id := next_id p + 1\<rparr>)"
    and "unat (next_id p mod n_threads p) = unat (next_id p) mod length (workers p)"
    and "unat (next_id p) mod length (workers p) < length (workers p)"
  using assms by (auto simp: next_worker_id_def pool_wf_def unat_mod unat_eq_0 Let_def)

lemma try_workers_find:
  assumes "pool_wf p" "unat (next_id p) + k < 2 ^ 64"
  shows "try_workers k p =
    (case find (\<lambda>j. available (workers p ! ((unat (next_id p) + j) mod length (workers p)))) [0..<k] of
       None \<Rightarrow> (Inl NextWorkerError, p\<lparr>next_id := next_id p + of_nat k\<rparr>)
     | Some j \<Rightarrow> (Inr ((unat (next_id p) + j) mod length (workers p)), p\<lparr>next_id := next_id p + of_nat (Suc j)\<rparr>))"
  using assms
proof (induction k arbitrary: p)
  case (Suc k)
  let ?p = "p\<lparr>next_id := next_id p + 1\<rparr>"
  note idx = next_worker_id_index [OF Suc.prems(1)]
  have c: "unat (next_id p + 1) = Suc (unat (next_id p))"
    using Suc.prems(2) by (simp add: unat_word_ariths(1))
  have "pool_wf ?p" "unat (next_id ?p) + k < 2 ^ 64" using Suc.prems c by (simp_all add: pool_wf_def)
  from Suc.IH [OF this] show ?case
    using idx c by (simp add: find_upt_Suc del: upt_Suc split: option.split)
qed simp

text \<open>C15. The choice of a worker is the round-robin search: from where the counter stands, the workers are
  looked at in cyclic order, each once, and the first that takes work is chosen; when none does, the error
  says so. The counter moves past the workers looked at.\<close>

theorem get_next_worker_round_robin:
  assumes "pool_wf p" "unat (next_id p) + length (workers p) < 2 ^ 64"
  shows "get_next_worker p =
    (case find (\<lambda>j. available (workers p ! ((unat (next_id p) + j) mod length (workers p)))) [0..<length (workers p)] of
       None \<Rightarrow> (Inl NextWorkerError, p\<lparr>next_id := next_id p + of_nat (length (workers p))\<rparr>)
     | Some j \<Rightarrow> (Inr ((unat (next_id p) + j) mod length (workers p)), p\<lparr>next_id := next_id p + of_nat (Suc j)\<rparr>))"
  using try_workers_find [OF assms(1), of "length (workers p)"] assms
  by (simp add: get_next_worker_def pool_wf_def)

definition demo_pool :: "(unit, unit) pool" where
  "demo_pool = \<lparr>n_threads = 3, workers = [(worker_new 0)\<lparr>wk_state := Idle\<rparr>, (worker_new 1)\<lparr>wk_state := Stopping\<rparr>,
     (worker_new 2)\<lparr>wk_state := Busy\<rparr>], next_id = 4\<rparr>"

theorem get_next_worker_round_robin_witness: "fst (get_next_worker demo_pool) = Inr 2"
  using get_next_worker_round_robin [of demo_pool]
  by (simp add: demo_pool_def pool_wf_def available_def upt_rec worker_new_def)

lemma get_next_worker_available:
  assumes "pool_wf p" "unat (next_id p) < 2 ^ 64 - length (workers p)" "\<forall>w \<in> set (workers p). available w"
  shows "get_next_worker p =
    (Inr (unat (next_id p) mod length (workers p)), p\<lparr>next_id := next_id p + 1\<rparr>)"
proof -
  have "find (\<lambda>j. available (workers p ! ((unat (next_id p) + j) mod length (workers p)))) [0..<length (workers p)] = Some 0"
    using assms by (cases "length (workers p)") (auto simp: pool_wf_def find_upt_Suc simp del: upt_Suc)
  with try_workers_find [OF assms(1), of "length (workers p)"] assms show ?thesis
    by (simp add: get_next_worker_def pool_wf_def)
qed

text \<open>The workers that the next calls choose.\<close>

fun choices :: "nat \<Rightarrow> ('f, 'st) pool \<Rightarrow> (next_worker_error + nat) list" where
  "choices 0 p = []"
| "choices (Suc k) p = (let (r, p) = get_next_worker p in r # choices k p)"

text \<open>While all workers take work, they take turns: the next calls choose them in cyclic order, so any
  \<open>n\<close> calls in a row of a pool of \<open>n\<close> choose each worker exactly once.\<close>

theorem workers_take_turns:
  assumes "pool_wf p" "\<forall>w \<in> set (workers p). available w" "unat (next_id p) + k < 2 ^ 64 - length (workers p)"
  shows "choices k p = map (\<lambda>j. Inr ((unat (next_id p) + j) mod length (workers p))) [0..<k] \<and>
    (k = length (workers p) \<longrightarrow> distinct (choices k p) \<and> set (choices k p) = Inr ` {0..<k})"
proof
  show c: "choices k p = map (\<lambda>j. Inr ((unat (next_id p) + j) mod length (workers p))) [0..<k]"
    using assms
  proof (induction k arbitrary: p)
    case (Suc k)
    let ?p = "p\<lparr>next_id := next_id p + 1\<rparr>"
    have "unat (next_id p + 1) = Suc (unat (next_id p))"
      using Suc.prems(3) by (simp add: unat_word_ariths(1))
    with Suc.IH [of ?p] Suc.prems get_next_worker_available [OF Suc.prems(1)] show ?case
      by (simp add: pool_wf_def upt_conv_Cons map_Suc_upt [symmetric] comp_def del: upt_Suc)
  qed simp
  show "k = length (workers p) \<longrightarrow> distinct (choices k p) \<and> set (choices k p) = Inr ` {0..<k}"
  proof
    assume k: "k = length (workers p)"
    let ?f = "\<lambda>j. (unat (next_id p) + j) mod k"
    have inj: "inj_on ?f {0..<k}"
    proof (rule inj_onI)
      fix i j assume ij: "i \<in> {0..<k}" "j \<in> {0..<k}" "?f i = ?f j"
      then have "i mod k = j mod k" unfolding nat_mod_eq_iff by auto
      with ij show "i = j" by simp
    qed
    have "?f ` {0..<k} = {0..<k}"
      using inj assms(1) k by (intro endo_inj_surj) (auto simp: pool_wf_def)
    moreover have m: "choices k p = map Inr (map ?f [0..<k])" using c by (simp add: k comp_def)
    ultimately have "set (choices k p) = Inr ` {0..<k}" by (metis atLeastLessThan_upt image_set)
    moreover have "distinct (map ?f [0..<k])" using inj by (simp add: distinct_map)
    then have "distinct (map (Inr :: nat \<Rightarrow> next_worker_error + nat) (map ?f [0..<k]))"
      by (subst distinct_map) (simp del: map_map add: inj_on_def)
    then have "distinct (choices k p)" unfolding m .
    ultimately show "distinct (choices k p) \<and> set (choices k p) = Inr ` {0..<k}" by (intro conjI)
  qed
qed

definition two_workers :: "(unit, unit) pool" where
  "two_workers = \<lparr>n_threads = 2, workers = [(worker_new 0)\<lparr>wk_state := Idle\<rparr>, (worker_new 1)\<lparr>wk_state := Busy\<rparr>], next_id = 7\<rparr>"

lemma two_workers_facts:
  "pool_wf two_workers" "length (workers two_workers) = 2" "unat (next_id two_workers) = 7"
  "\<forall>w \<in> set (workers two_workers). available w \<and> ch_connected (wk_channel w)"
  by (auto simp: two_workers_def pool_wf_def available_def worker_new_def)

theorem workers_take_turns_witness: "choices 2 two_workers = [Inr 1, Inr 0]"
  using workers_take_turns [OF two_workers_facts(1), of 2] two_workers_facts
  by (simp add: numeral_2_eq_2 [THEN arg_cong, of "\<lambda>n. [0..<n]"])

section \<open>Submitting and cancelling\<close>

lemma pool_submit_io_available:
  assumes "pool_wf p" "unat (next_id p) < 2 ^ 64 - length (workers p)" "\<forall>w \<in> set (workers p). available w"
    "\<forall>w \<in> set (workers p). ch_connected (wk_channel w)"
  shows "let i = unat (next_id p) mod length (workers p); wk = workers p ! i in
    pool_submit_io True sig2 op w p =
      (Inr \<lparr>sh_key = wk_next_key wk, sh_worker = i\<rparr>,
       p\<lparr>next_id := next_id p + 1,
         workers := (workers p)[i := wk\<lparr>wk_next_key := wk_next_key wk + 1,
           wk_channel := (wk_channel wk)\<lparr>ch_messages := ch_messages (wk_channel wk) @
             [SubmitIO \<lparr>sub_key = wk_next_key wk, sub_op = op, sub_waker = w\<rparr>]\<rparr>\<rparr>]\<rparr>)"
proof -
  let ?i = "unat (next_id p) mod length (workers p)"
  have "?i < length (workers p)" using next_worker_id_index(3) [OF assms(1)] .
  then have "ch_connected (wk_channel (workers p ! ?i))" using assms(4) by simp
  then show ?thesis
    by (simp add: pool_submit_io_def get_next_worker_available [OF assms(1-3)] submission_queue_submit_def key_get_def
        worker_send_def send_message_to_def set_worker_def Let_def)
qed

text \<open>C16. A cancellation does not go where the operation went. In a pool of two or more workers that all
  take work, cancelling an operation right after submitting it sends the cancel request to the next worker
  in turn, under the key the operation has with its own worker; the operation's own worker is not told.
  Keys are counted per worker, so there that key names another operation, or none.\<close>

theorem cancel_misses_its_operation:
  assumes "pool_wf p" "2 \<le> length (workers p)" "unat (next_id p) + 1 < 2 ^ 64 - length (workers p)"
    "\<forall>w \<in> set (workers p). available w \<and> ch_connected (wk_channel w)"
    "pool_submit_io True sig2 op w p = (Inr h, p1)"
  shows "let j = (sh_worker h + 1) mod length (workers p); (r, p2) = handle_cancel True sig2 h p1 in
    r = Inr () \<and> j \<noteq> sh_worker h \<and> workers p2 ! sh_worker h = workers p1 ! sh_worker h \<and>
    ch_messages (wk_channel (workers p2 ! j)) = ch_messages (wk_channel (workers p ! j)) @
      [SubmitIO \<lparr>sub_key = wk_next_key (workers p ! j), sub_op = op_cancel (sh_key h) Zero, sub_waker = None\<rparr>]"
proof -
  let ?n = "length (workers p)"
  let ?i = "unat (next_id p) mod ?n"
  let ?j = "(?i + 1) mod ?n"
  have avail: "\<forall>w \<in> set (workers p). available w" "\<forall>w \<in> set (workers p). ch_connected (wk_channel w)"
    using assms(4) by auto
  note s = pool_submit_io_available [OF assms(1) _ avail, of sig2 op w, unfolded Let_def]
  have h: "h = \<lparr>sh_key = wk_next_key (workers p ! ?i), sh_worker = ?i\<rparr>" and
    p1: "p1 = p\<lparr>next_id := next_id p + 1, workers := (workers p)[?i := (workers p ! ?i)
        \<lparr>wk_next_key := wk_next_key (workers p ! ?i) + 1,
         wk_channel := (wk_channel (workers p ! ?i))\<lparr>ch_messages := ch_messages (wk_channel (workers p ! ?i)) @
           [SubmitIO \<lparr>sub_key = wk_next_key (workers p ! ?i), sub_op = op, sub_waker = w\<rparr>]\<rparr>\<rparr>]\<rparr>"
    using s assms(3,5) by auto
  have i: "?i < ?n" using next_worker_id_index(3) [OF assms(1)] .
  have ij: "?j \<noteq> ?i"
  proof
    assume "?j = ?i"
    then have "(?i + 1) mod ?n = (?i + 0) mod ?n" using i by simp
    then have "1 mod ?n = 0 mod ?n" unfolding nat_mod_eq_iff by auto
    with assms(2) show False by simp
  qed
  have j: "?j < ?n" using assms(2) by (intro mod_less_divisor) linarith
  have w1: "pool_wf p1" "length (workers p1) = ?n" using assms(1) by (auto simp: p1 pool_wf_def)
  have c: "unat (next_id p1) = unat (next_id p) + 1" using assms(3) by (simp add: p1 unat_word_ariths(1))
  have idx: "unat (next_id p1) mod length (workers p1) = ?j" using c w1 by (simp add: mod_Suc_eq)
  have av1: "\<forall>w \<in> set (workers p1). available w" "\<forall>w \<in> set (workers p1). ch_connected (wk_channel w)"
    using avail i by (auto simp: p1 available_def dest!: set_update_subset_insert [THEN subsetD])
  have "unat (next_id p1) < 2 ^ 64 - length (workers p1)" using assms(3) c w1 by simp
  from pool_submit_io_available [OF w1(1) this av1, of sig2 "op_cancel (sh_key h) Zero" None, unfolded Let_def idx]
  show ?thesis
    using ij i j by (auto simp: handle_cancel_def h p1 Let_def)
qed

theorem cancel_misses_its_operation_witness:
  "\<exists>h p1. pool_submit_io True True (op_accept 5) (Some 0) two_workers = (Inr h, p1) \<and> sh_worker h = 1 \<and>
     ch_messages (wk_channel (workers (snd (handle_cancel True True h p1)) ! 0)) =
       [SubmitIO \<lparr>sub_key = 0, sub_op = op_cancel 0 Zero, sub_waker = None\<rparr>]"
proof -
  note wf = two_workers_facts
  have key: "wk_next_key (workers two_workers ! 1) = 0" by (simp add: two_workers_def worker_new_def)
  obtain h p1 where h: "pool_submit_io True True (op_accept 5) (Some 0) two_workers = (Inr h, p1)"
    "h = \<lparr>sh_key = 0, sh_worker = 1\<rparr>"
    using pool_submit_io_available [OF wf(1), of True "op_accept 5" "Some 0"] wf key
    by (simp add: Let_def)
  have "ch_messages (wk_channel (workers two_workers ! 0)) = []" "wk_next_key (workers two_workers ! 0) = 0"
    by (simp_all add: two_workers_def worker_new_def)
  with cancel_misses_its_operation [OF wf(1) _ _ wf(4) h(1)] have
    "ch_messages (wk_channel (workers (snd (handle_cancel True True h p1)) ! 0)) =
       [SubmitIO \<lparr>sub_key = 0, sub_op = op_cancel 0 Zero, sub_waker = None\<rparr>]"
    by (simp add: Let_def split_beta wf(2,3) h(2))
  then show ?thesis by (intro exI [of _ h] exI [of _ p1]) (simp add: h)
qed

section \<open>Starting\<close>

definition started :: "nat \<Rightarrow> ('f, 'st) worker" where
  "started i = (worker_new i)\<lparr>wk_state := Starting, wk_temp_data := False, wk_join_handle := True\<rparr>"

lemma start_workers_all:
  "\<forall>j < n. create (i + j) \<Longrightarrow> length ws = i \<Longrightarrow>
     start_workers create [i..<i + n] ws = Inr (ws @ map started [i..<i + n])"
proof (induction n arbitrary: i ws)
  case (Suc n)
  have up: "[i..<i + Suc n] = i # [Suc i..<Suc i + n]" by (simp add: upt_conv_Cons)
  have c: "create i" "\<forall>j < n. create (Suc i + j)" using Suc.prems(1) by (metis add_0_right zero_less_Suc, metis Suc_less_eq add_Suc_shift)
  show ?case
    unfolding up using c Suc.IH [of "Suc i" "ws @ [started i]"] Suc.prems(2)
    by (simp add: worker_start_def worker_new_def started_def)
qed simp

lemma join_threads: "n_threads (snd (join_workers is p)) = n_threads p"
  by (induction "is" arbitrary: p)
    (auto simp: split_beta join_single_def set_worker_def)

text \<open>Starting a fresh pool starts its workers in order, each once, under the index it is found by; a
  worker that was started cannot be started again; joining then waits for each thread once, and joining
  again for none.\<close>

theorem pool_starts_all_workers:
  assumes "\<forall>i < unat n. create i"
  shows "\<exists>p. pool_start create (pool_new n c) = Inr p \<and> workers p = map started [0..<unat n] \<and>
    (\<forall>w \<in> set (workers p). fst (worker_start w) = Inl (AlreadyRunning (wk_id w))) \<and>
    fst (pool_join p) = [0..<unat n] \<and> fst (pool_join (snd (pool_join p))) = []"
proof -
  have all: "start_workers create [0..<unat n] [] = Inr (map started [0..<unat n] :: ('a, 'b) worker list)"
    using start_workers_all [of "unat n" create 0 "[]"] assms by simp
  have join: "fst (join_workers is p) = filter (\<lambda>i. i < length (workers p) \<and> wk_join_handle (workers p ! i)) is \<and>
      length (workers (snd (join_workers is p))) = length (workers p) \<and>
      (\<forall>i < length (workers p). wk_join_handle (workers (snd (join_workers is p)) ! i) \<longleftrightarrow>
         i \<notin> set is \<and> wk_join_handle (workers p ! i))"
    if "distinct is" for "is" and p :: "('a, 'b) pool"
    using that
  proof (induction "is" arbitrary: p)
    case (Cons i "is")
    let ?p = "snd (join_single i p)"
    have len: "length (workers ?p) = length (workers p)" by (simp add: join_single_def set_worker_def Let_def split_beta)
    have h: "wk_join_handle (workers ?p ! j) \<longleftrightarrow> j \<noteq> i \<and> wk_join_handle (workers p ! j)" if "j < length (workers p)" for j
      using that by (simp add: join_single_def set_worker_def take_join_handle_def nth_list_update)
    have "filter (\<lambda>j. j < length (workers ?p) \<and> wk_join_handle (workers ?p ! j)) is =
        filter (\<lambda>j. j < length (workers p) \<and> wk_join_handle (workers p ! j)) is"
      using Cons.prems h len by (intro filter_cong) auto
    with Cons.IH [of ?p] Cons.prems len h show ?case
      by (auto simp: split_beta join_single_def take_join_handle_def)
  qed simp
  let ?p = "(pool_new n c :: ('a, 'b) pool)\<lparr>workers := map started [0..<unat n]\<rparr>"
  let ?q = "snd (join_workers [0..<unat n] ?p)"
  note first = join [OF distinct_upt, of 0 "unat n" ?p]
  have q: "length (workers ?q) = unat n" "\<forall>i < unat n. \<not> wk_join_handle (workers ?q ! i)"
    using first by auto
  have "fst (pool_join ?p) = [0..<unat n]"
    using first by (simp add: pool_join_def pool_new_def started_def)
  moreover have "n_threads ?q = n" by (simp add: join_threads pool_new_def)
  then have "fst (pool_join (snd (pool_join ?p))) = []"
    using join [OF distinct_upt, of 0 "unat n" ?q] q by (simp add: pool_join_def pool_new_def filter_empty_conv)
  moreover have "pool_start create (pool_new n c) = Inr ?p"
    using all by (simp add: pool_start_def pool_new_def)
  moreover have "fst (worker_start w) = Inl (AlreadyRunning (wk_id w))" if "w \<in> set (workers ?p)" for w
    using that by (auto simp: pool_new_def worker_start_def started_def)
  ultimately show ?thesis by (intro exI [of _ ?p]) (simp add: pool_new_def)
qed

theorem pool_starts_all_workers_witness:
  "\<exists>p. pool_start (\<lambda>_. True) (pool_new 4 0) = Inr (p :: (unit, unit) pool) \<and> length (workers p) = 4"
  using pool_starts_all_workers [where create = "\<lambda>_. True" and n = 4 and c = 0] by auto

end
