(* ===== verification/Io_Recovery.thy ===== *)
theory Io_Recovery
  imports Pool
begin

text \<open>
  Taking buffers back from operations and errors (\<open>src/io/mod.rs\<close>, \<open>src/io/operation/mod.rs\<close>,
  \<open>src/io/operation/data/\<close>): the traits \<open>IoBytesMutRecovery\<close>, \<open>IoBytesMutVecRecovery\<close> and
  \<open>IoRecvMessageRecovery\<close>. The accessor by reference and the one by value give the same buffer and are one
  definition (\<open>into_\<close>); the one that takes a buffer out also gives what it leaves.
\<close>

section \<open>Operations\<close>

text \<open>Taking from a pending \<open>recvmsg\<close>.\<close>

definition recv_msg_take_bytes_mut :: "pending_message option \<Rightarrow> bytes_mut option \<times> pending_message option" where
  [simp]: "recv_msg_take_bytes_mut m =
     (Option.bind m (\<lambda>p. rb_control (pm_buffers p)),
      map_option (\<lambda>p. p\<lparr>pm_buffers := (pm_buffers p)\<lparr>rb_control := None\<rparr>\<rparr>) m)"

definition recv_msg_take_vec :: "pending_message option \<Rightarrow> bytes_mut list option \<times> pending_message option" where
  [simp]: "recv_msg_take_vec m =
     (Option.bind m (\<lambda>p. rb_data (pm_buffers p)),
      map_option (\<lambda>p. p\<lparr>pm_buffers := (pm_buffers p)\<lparr>rb_data := None\<rparr>\<rparr>) m)"

definition recv_msg_take_recvmsg_buffers :: "pending_message option \<Rightarrow> recv_msg_buffers option \<times> pending_message option" where
  [simp]: "recv_msg_take_recvmsg_buffers m =
     (map_option pm_buffers m, map_option (\<lambda>p. p\<lparr>pm_buffers := recv_buffers_default\<rparr>) m)"

fun take_bytes_mut :: "'st io_type \<Rightarrow> bytes_mut option \<times> 'st io_type" where
  "take_bytes_mut (IoRead b off) = (b, IoRead None off)"
| "take_bytes_mut (IoRecv b fl) = (b, IoRecv None fl)"
| "take_bytes_mut (IoRecvMsg m fl) = (let (b, m) = recv_msg_take_bytes_mut m in (b, IoRecvMsg m fl))"
| "take_bytes_mut t = (None, t)"

fun take_vec :: "'st io_type \<Rightarrow> bytes_mut list option \<times> 'st io_type" where
  "take_vec (IoReadv bs off) = (bs, IoReadv None off)"
| "take_vec (IoRecvMsg m fl) = (let (b, m) = recv_msg_take_vec m in (b, IoRecvMsg m fl))"
| "take_vec t = (None, t)"

fun take_recvmsg_buffers :: "'st io_type \<Rightarrow> recv_msg_buffers option \<times> 'st io_type" where
  "take_recvmsg_buffers (IoRecvMsg m fl) = (let (b, m) = recv_msg_take_recvmsg_buffers m in (b, IoRecvMsg m fl))"
| "take_recvmsg_buffers t = (None, t)"

definition op_take_bytes_mut :: "'st io_operation \<Rightarrow> bytes_mut option \<times> 'st io_operation" where
  "op_take_bytes_mut op = (let (b, t) = take_bytes_mut (op_type op) in (b, op\<lparr>op_type := t\<rparr>))"

definition op_take_vec :: "'st io_operation \<Rightarrow> bytes_mut list option \<times> 'st io_operation" where
  "op_take_vec op = (let (b, t) = take_vec (op_type op) in (b, op\<lparr>op_type := t\<rparr>))"

definition op_take_recvmsg_buffers :: "'st io_operation \<Rightarrow> recv_msg_buffers option \<times> 'st io_operation" where
  "op_take_recvmsg_buffers op = (let (b, t) = take_recvmsg_buffers (op_type op) in (b, op\<lparr>op_type := t\<rparr>))"

section \<open>Operations that were not dispatched\<close>

type_synonym ('f, 'st) dispatch_failure = "('f, 'st, 'st io_operation) dispatch_error"
type_synonym ('f, 'st) submit_error = "('f, 'st) dispatch_failure io_submission_error"

text \<open>The operation an error of the dispatch carries, and the error with a changed operation.\<close>

fun dispatch_op :: "('f, 'st) dispatch_failure \<Rightarrow> 'st io_operation option" where
  "dispatch_op (FailedToFindWorker op) = Some op"
| "dispatch_op (FailedToSendMessage (SubmitIO s)) = Some (sub_op s)"
| "dispatch_op (FailedToSendMessage m) = None"

fun take_from_dispatch ::
  "('st io_operation \<Rightarrow> 'b option \<times> 'st io_operation) \<Rightarrow> ('f, 'st) dispatch_failure
    \<Rightarrow> 'b option \<times> ('f, 'st) dispatch_failure" where
  "take_from_dispatch f (FailedToFindWorker op) = (let (b, op) = f op in (b, FailedToFindWorker op))"
| "take_from_dispatch f (FailedToSendMessage (SubmitIO s)) =
     (let (b, op) = f (sub_op s) in (b, FailedToSendMessage (SubmitIO (s\<lparr>sub_op := op\<rparr>))))"
| "take_from_dispatch f (FailedToSendMessage m) = (None, FailedToSendMessage m)"

section \<open>Errors before the kernel\<close>

fun submission_into_bytes_mut :: "('f, 'st) submit_error \<Rightarrow> bytes_mut option" where
  "submission_into_bytes_mut (FailedToDispatchOperation e) =
     Option.bind (dispatch_op e) (\<lambda>op. into_bytes_mut (op_type op))"
| "submission_into_bytes_mut (OutputBufferSubmission e) = Some (output_error_into_buffer e)"
| "submission_into_bytes_mut (RecvMsgBuffersSubmission e) = rb_control (rse_buffers e)"
| "submission_into_bytes_mut _ = None"

text \<open>Taking from an error of an output buffer leaves an empty buffer behind, not none.\<close>

fun submission_take_bytes_mut :: "('f, 'st) submit_error \<Rightarrow> bytes_mut option \<times> ('f, 'st) submit_error" where
  "submission_take_bytes_mut (FailedToDispatchOperation e) =
     (let (b, e) = take_from_dispatch op_take_bytes_mut e in (b, FailedToDispatchOperation e))"
| "submission_take_bytes_mut (OutputBufferSubmission (InvalidOutputBuffer b)) =
     (Some b, OutputBufferSubmission (InvalidOutputBuffer bytes_mut_new))"
| "submission_take_bytes_mut (OutputBufferSubmission (InvalidOutputIoVec b i)) =
     (Some b, OutputBufferSubmission (InvalidOutputIoVec bytes_mut_new i))"
| "submission_take_bytes_mut (RecvMsgBuffersSubmission e) =
     (let (b, r) = take_control (rse_buffers e) in (b, RecvMsgBuffersSubmission (e\<lparr>rse_buffers := r\<rparr>)))"
| "submission_take_bytes_mut e = (None, e)"

fun submission_into_vec :: "('f, 'st) submit_error \<Rightarrow> bytes_mut list option" where
  "submission_into_vec (FailedToDispatchOperation e) =
     Option.bind (dispatch_op e) (\<lambda>op. into_vec (op_type op))"
| "submission_into_vec (OutputBufferVecSubmission e) = Some (output_vec_error_into_buffers e)"
| "submission_into_vec (RecvMsgBuffersSubmission e) = rb_data (rse_buffers e)"
| "submission_into_vec _ = None"

fun submission_take_vec :: "('f, 'st) submit_error \<Rightarrow> bytes_mut list option \<times> ('f, 'st) submit_error" where
  "submission_take_vec (FailedToDispatchOperation e) =
     (let (b, e) = take_from_dispatch op_take_vec e in (b, FailedToDispatchOperation e))"
| "submission_take_vec (OutputBufferVecSubmission (InvalidOutputVecIoVec bs i)) =
     (Some bs, OutputBufferVecSubmission (InvalidOutputVecIoVec [] i))"
| "submission_take_vec (OutputBufferVecSubmission (InvalidOutputBuffers bs)) =
     (Some bs, OutputBufferVecSubmission (InvalidOutputBuffers []))"
| "submission_take_vec (RecvMsgBuffersSubmission e) =
     (let (b, r) = take_data (rse_buffers e) in (b, RecvMsgBuffersSubmission (e\<lparr>rse_buffers := r\<rparr>)))"
| "submission_take_vec e = (None, e)"

fun submission_into_recvmsg_buffers :: "('f, 'st) submit_error \<Rightarrow> recv_msg_buffers option" where
  "submission_into_recvmsg_buffers (FailedToDispatchOperation e) =
     Option.bind (dispatch_op e) (\<lambda>op. into_recvmsg_buffers (op_type op))"
| "submission_into_recvmsg_buffers (RecvMsgBuffersSubmission e) = Some (rse_buffers e)"
| "submission_into_recvmsg_buffers _ = None"

fun submission_take_recvmsg_buffers ::
  "('f, 'st) submit_error \<Rightarrow> recv_msg_buffers option \<times> ('f, 'st) submit_error" where
  "submission_take_recvmsg_buffers (FailedToDispatchOperation e) =
     (let (b, e) = take_from_dispatch op_take_recvmsg_buffers e in (b, FailedToDispatchOperation e))"
| "submission_take_recvmsg_buffers (RecvMsgBuffersSubmission e) =
     (Some (rse_buffers e), RecvMsgBuffersSubmission (e\<lparr>rse_buffers := recv_buffers_default\<rparr>))"
| "submission_take_recvmsg_buffers e = (None, e)"

section \<open>Errors of operations\<close>

fun failure_take_bytes_mut :: "io_failure \<Rightarrow> bytes_mut option \<times> io_failure" where
  "failure_take_bytes_mut (ReadFailure b) = (Some b, ReadFailure bytes_mut_new)"
| "failure_take_bytes_mut f = (None, f)"

fun failure_take_vec :: "io_failure \<Rightarrow> bytes_mut list option \<times> io_failure" where
  "failure_take_vec (MultiReadFailure bs) = (Some bs, MultiReadFailure [])"
| "failure_take_vec f = (None, f)"

fun failure_take_recvmsg_buffers :: "io_failure \<Rightarrow> recv_msg_buffers option \<times> io_failure" where
  "failure_take_recvmsg_buffers (MsgFailure r) = (Some r, MsgFailure recv_buffers_default)"
| "failure_take_recvmsg_buffers f = (None, f)"

section \<open>All errors\<close>

datatype io_processing_error = UnexpectedCompletionResult string

datatype ('f, 'st) io_error =
    SubmissionError "('f, 'st) submit_error"
  | OperationError io_operation_error
  | ProcessingError io_processing_error

definition io_error_of_os :: "os_error \<Rightarrow> ('f, 'st) io_error" where
  "io_error_of_os e = OperationError \<lparr>failure_of = GenericFailure, os_error_of = e\<rparr>"

fun io_into_os_error :: "('f, 'st) io_error \<Rightarrow> os_error option" where
  "io_into_os_error (OperationError e) = Some (os_error_of e)"
| "io_into_os_error _ = None"

fun io_into_bytes_mut :: "('f, 'st) io_error \<Rightarrow> bytes_mut option" where
  "io_into_bytes_mut (SubmissionError e) = submission_into_bytes_mut e"
| "io_into_bytes_mut (OperationError e) = failure_into_bytes_mut (failure_of e)"
| "io_into_bytes_mut (ProcessingError _) = None"

fun io_take_bytes_mut :: "('f, 'st) io_error \<Rightarrow> bytes_mut option \<times> ('f, 'st) io_error" where
  "io_take_bytes_mut (SubmissionError e) = map_prod id SubmissionError (submission_take_bytes_mut e)"
| "io_take_bytes_mut (OperationError e) =
     map_prod id (\<lambda>f. OperationError (e\<lparr>failure_of := f\<rparr>)) (failure_take_bytes_mut (failure_of e))"
| "io_take_bytes_mut (ProcessingError e) = (None, ProcessingError e)"

fun io_into_vec :: "('f, 'st) io_error \<Rightarrow> bytes_mut list option" where
  "io_into_vec (SubmissionError e) = submission_into_vec e"
| "io_into_vec (OperationError e) = failure_into_vec (failure_of e)"
| "io_into_vec (ProcessingError _) = None"

fun io_take_vec :: "('f, 'st) io_error \<Rightarrow> bytes_mut list option \<times> ('f, 'st) io_error" where
  "io_take_vec (SubmissionError e) = map_prod id SubmissionError (submission_take_vec e)"
| "io_take_vec (OperationError e) =
     map_prod id (\<lambda>f. OperationError (e\<lparr>failure_of := f\<rparr>)) (failure_take_vec (failure_of e))"
| "io_take_vec (ProcessingError e) = (None, ProcessingError e)"

fun io_into_recvmsg_buffers :: "('f, 'st) io_error \<Rightarrow> recv_msg_buffers option" where
  "io_into_recvmsg_buffers (SubmissionError e) = submission_into_recvmsg_buffers e"
| "io_into_recvmsg_buffers (OperationError e) = failure_into_recvmsg_buffers (failure_of e)"
| "io_into_recvmsg_buffers (ProcessingError _) = None"

fun io_take_recvmsg_buffers :: "('f, 'st) io_error \<Rightarrow> recv_msg_buffers option \<times> ('f, 'st) io_error" where
  "io_take_recvmsg_buffers (SubmissionError e) = map_prod id SubmissionError (submission_take_recvmsg_buffers e)"
| "io_take_recvmsg_buffers (OperationError e) =
     map_prod id (\<lambda>f. OperationError (e\<lparr>failure_of := f\<rparr>)) (failure_take_recvmsg_buffers (failure_of e))"
| "io_take_recvmsg_buffers (ProcessingError e) = (None, ProcessingError e)"

section \<open>Properties\<close>

text \<open>What every error gives back: one buffer, a list, or the buffers of a message.\<close>

definition recovered :: "('f, 'st) io_error \<Rightarrow> bytes_mut option \<times> bytes_mut list option \<times> recv_msg_buffers option" where
  "recovered e = (io_into_bytes_mut e, io_into_vec e, io_into_recvmsg_buffers e)"

definition op_recovered :: "'st io_operation \<Rightarrow> bytes_mut option \<times> bytes_mut list option \<times> recv_msg_buffers option" where
  "op_recovered op = (into_bytes_mut (op_type op), into_vec (op_type op), into_recvmsg_buffers (op_type op))"

lemma recovered_dispatch:
  "dispatch_op e = Some op \<Longrightarrow> recovered (SubmissionError (FailedToDispatchOperation e)) = op_recovered op"
  by (simp add: recovered_def op_recovered_def)

lemma try_workers_keeps: "workers (snd (try_workers n p)) = workers p"
  by (induction n arbitrary: p)
    (auto simp: next_worker_id_def Let_def split: option.splits if_splits)

lemma get_next_worker_keeps: "get_next_worker p = (r, p') \<Longrightarrow> workers p' = workers p"
  using try_workers_keeps [of "unat (n_threads p)" p] by (simp add: get_next_worker_def)

lemma send_refused:
  "worker_send sig1 sig2 m w = (Inl m', w') \<Longrightarrow> m' = m \<and> wk_channel w' = wk_channel w"
  by (auto simp: worker_send_def send_message_to_def Let_def split: if_splits)

text \<open>When the pool cannot dispatch an operation, because no worker takes work or because the chosen
  worker's channel is closed, nothing was sent to any worker and the error gives back exactly the buffers the
  operation owns, in each of the three ways of asking for them.\<close>

theorem rejected_operation_returns_buffers:
  "case pool_submit_io sig1 sig2 op w p of
     (Inl e, p') \<Rightarrow>
       recovered (SubmissionError (FailedToDispatchOperation e)) = op_recovered op \<and>
       map wk_channel (workers p') = map wk_channel (workers p)
   | (Inr _, _) \<Rightarrow> True"
proof -
  obtain r p1 where 1: "get_next_worker p = (r, p1)" by fastforce
  note k = get_next_worker_keeps [OF 1]
  show ?thesis
  proof (cases r)
    case (Inl e)
    then show ?thesis using 1 k by (simp add: pool_submit_io_def recovered_dispatch)
  next
    case (Inr i)
    let ?s = "\<lparr>sub_key = wk_next_key (workers p ! i), sub_op = op, sub_waker = w\<rparr>"
    obtain r2 wk where 2: "worker_send sig1 sig2 (SubmitIO ?s)
        ((workers p ! i)\<lparr>wk_next_key := wk_next_key (workers p ! i) + 1\<rparr>) = (r2, wk)" by fastforce
    show ?thesis
    proof (cases r2)
      case (Inl m)
      have "m = SubmitIO ?s" "wk_channel wk = wk_channel (workers p ! i)"
        using send_refused [OF 2 [unfolded Inl]] by auto
      moreover have "(map wk_channel (workers p))[i := wk_channel (workers p ! i)] = map wk_channel (workers p)"
        by (cases "i < length (workers p)") (simp_all add: list_eq_iff_nth_eq nth_list_update)
      ultimately show ?thesis
        using 1 2 Inl Inr k
        by (simp add: pool_submit_io_def submission_queue_submit_def key_get_def recovered_dispatch set_worker_def
            map_update)
    next
      case (Inr _)
      then show ?thesis
        using 1 2 \<open>r = Inr i\<close> k by (simp add: pool_submit_io_def submission_queue_submit_def key_get_def)
    qed
  qed
qed

lemma take_is_into:
  "fst (take_bytes_mut t) = into_bytes_mut t \<and> into_bytes_mut (snd (take_bytes_mut t)) = None"
  by (induction t rule: take_bytes_mut.induct) (auto split: option.splits)

lemma take_vec_is_into: "fst (take_vec t) = into_vec t \<and> into_vec (snd (take_vec t)) = None"
  by (induction t rule: take_vec.induct) (auto split: option.splits)

lemma take_message_is_into:
  "fst (take_recvmsg_buffers t) = into_recvmsg_buffers t \<and>
   into_recvmsg_buffers (snd (take_recvmsg_buffers t)) \<in> {None, Some recv_buffers_default}"
proof (cases t)
  case (IoRecvMsg m fl)
  then show ?thesis by (cases m) simp_all
qed simp_all

lemma op_take [simp]:
  "fst (op_take_bytes_mut op) = into_bytes_mut (op_type op)"
  "into_bytes_mut (op_type (snd (op_take_bytes_mut op))) = None"
  "fst (op_take_vec op) = into_vec (op_type op)"
  "into_vec (op_type (snd (op_take_vec op))) = None"
  "fst (op_take_recvmsg_buffers op) = into_recvmsg_buffers (op_type op)"
  "into_recvmsg_buffers (op_type (snd (op_take_recvmsg_buffers op))) = None \<or>
   into_recvmsg_buffers (op_type (snd (op_take_recvmsg_buffers op))) = Some recv_buffers_default"
  using take_is_into [of "op_type op"] take_vec_is_into [of "op_type op"] take_message_is_into [of "op_type op"]
  by (simp_all add: op_take_bytes_mut_def op_take_vec_def op_take_recvmsg_buffers_def split_beta)

lemma take_from_dispatch:
  "fst (take_from_dispatch f d) = Option.bind (dispatch_op d) (fst \<circ> f) \<and>
   dispatch_op (snd (take_from_dispatch f d)) = map_option (snd \<circ> f) (dispatch_op d)"
  by (induction d rule: dispatch_op.induct) (simp_all add: split_beta)

lemma submission_take_bytes_mut:
  "fst (submission_take_bytes_mut e) = submission_into_bytes_mut e \<and>
   submission_into_bytes_mut (snd (submission_take_bytes_mut e)) \<in> {None, Some bytes_mut_new}"
proof (cases e rule: submission_take_bytes_mut.cases)
  case (1 d)
  then show ?thesis using take_from_dispatch [of op_take_bytes_mut d] by (cases "dispatch_op d") (simp_all add: split_beta)
qed (simp_all add: take_control_def)

lemma submission_take_vec:
  "fst (submission_take_vec e) = submission_into_vec e \<and>
   submission_into_vec (snd (submission_take_vec e)) \<in> {None, Some []}"
proof (cases e rule: submission_take_vec.cases)
  case (1 d)
  then show ?thesis using take_from_dispatch [of op_take_vec d] by (cases "dispatch_op d") (simp_all add: split_beta)
qed (simp_all add: take_data_def)

lemma submission_take_recvmsg_buffers:
  "fst (submission_take_recvmsg_buffers e) = submission_into_recvmsg_buffers e \<and>
   submission_into_recvmsg_buffers (snd (submission_take_recvmsg_buffers e)) \<in> {None, Some recv_buffers_default}"
proof (cases e rule: submission_take_recvmsg_buffers.cases)
  case (1 d)
  then show ?thesis
    using take_from_dispatch [of op_take_recvmsg_buffers d] op_take(6) [of "the (dispatch_op d)"]
    by (cases "dispatch_op d") (simp_all add: split_beta)
qed simp_all

lemma failure_take:
  "fst (failure_take_bytes_mut f) = failure_into_bytes_mut f \<and>
   failure_into_bytes_mut (snd (failure_take_bytes_mut f)) \<in> {None, Some bytes_mut_new} \<and>
   fst (failure_take_vec f) = failure_into_vec f \<and>
   failure_into_vec (snd (failure_take_vec f)) \<in> {None, Some []} \<and>
   fst (failure_take_recvmsg_buffers f) = failure_into_recvmsg_buffers f \<and>
   failure_into_recvmsg_buffers (snd (failure_take_recvmsg_buffers f)) \<in> {None, Some recv_buffers_default}"
  by (cases f) simp_all

text \<open>Taking a buffer out of an error gives what turning the error into the buffer gives, for every error
  and each way of asking; a second try finds nothing, or an empty buffer.\<close>

theorem take_gives_what_into_gives:
  "fst (io_take_bytes_mut e) = io_into_bytes_mut e \<and>
   fst (io_take_vec e) = io_into_vec e \<and>
   fst (io_take_recvmsg_buffers e) = io_into_recvmsg_buffers e \<and>
   io_into_bytes_mut (snd (io_take_bytes_mut e)) \<in> {None, Some bytes_mut_new} \<and>
   io_into_vec (snd (io_take_vec e)) \<in> {None, Some []} \<and>
   io_into_recvmsg_buffers (snd (io_take_recvmsg_buffers e)) \<in> {None, Some recv_buffers_default}"
proof (cases e)
  case (SubmissionError e')
  then show ?thesis
    using submission_take_bytes_mut [of e'] submission_take_vec [of e'] submission_take_recvmsg_buffers [of e']
    by simp
next
  case (OperationError e')
  then show ?thesis using failure_take [of "failure_of e'"] by simp
qed simp

end
