(* ===== verification/Io_Future.thy ===== *)
theory Io_Future
  imports Io_Recovery Worker_Props Io_Completion_Props
begin

text \<open>
  The future of an I/O operation (\<open>src/io/operation/future.rs\<close>) and descriptors closed when dropped
  (\<open>src/io/owned_fd_async.rs\<close>), over the pool and the loops of its workers: a worker's channel is read by its
  loop, its state word is the loop's, and the completion queue of a submission handle is the one the loop fills.
\<close>

section \<open>The pool with its loops\<close>

record ('f, 'st) io_world =
  io_pool :: "('f, 'st) pool"
  io_loops :: "nat \<Rightarrow> ('f, 'st) worker_loop"

definition world_queue :: "('f, 'st) io_world \<Rightarrow> nat \<Rightarrow> 'st queue" where
  "world_queue w i = ctx_queue (wl_context (io_loops w i))"

definition set_world_queue :: "nat \<Rightarrow> 'st queue \<Rightarrow> ('f, 'st) io_world \<Rightarrow> ('f, 'st) io_world" where
  "set_world_queue i q w =
     w\<lparr>io_loops := (io_loops w)(i := (io_loops w i)\<lparr>wl_context := (wl_context (io_loops w i))\<lparr>ctx_queue := q\<rparr>\<rparr>)\<rparr>"

text \<open>One iteration of the main loop of worker \<open>i\<close>.\<close>

definition worker_turn ::
  "'f worker_env \<Rightarrow> loop_input \<Rightarrow> nat \<Rightarrow> ('f, 'st) io_world \<Rightarrow> loop_result \<times> ('f, 'st) io_world" where
  "worker_turn env inp i w =
     (let wk = workers (io_pool w) ! i;
          (r, l) = main_iteration env inp ((io_loops w i)\<lparr>wl_inbox := ch_messages (wk_channel wk)\<rparr>);
          wk = wk\<lparr>wk_state := wl_state l, wk_channel := (wk_channel wk)\<lparr>ch_messages := wl_inbox l\<rparr>\<rparr>
      in (r, w\<lparr>io_pool := set_worker i wk (io_pool w), io_loops := (io_loops w)(i := l)\<rparr>))"

section \<open>Futures\<close>

record 'st io_future =
  fut_operation :: "'st io_operation option"
  fut_handle :: "submission_handle option"

definition io_future_new :: "'st io_operation \<Rightarrow> 'st io_future" where
  "io_future_new op = \<lparr>fut_operation = Some op, fut_handle = None\<rparr>"

text \<open>\<open>WorkerIoSubmissionHandle::poll\<close>.\<close>

definition handle_poll ::
  "submission_handle \<Rightarrow> waker \<Rightarrow> ('f, 'st) io_world
    \<Rightarrow> 'st io_completion_result option poll \<times> ('f, 'st) io_world" where
  "handle_poll h wkr w =
     (let (p, q) = queue_poll (world_queue w (sh_worker h)) (sh_key h) wkr in (p, set_world_queue (sh_worker h) q w))"

text \<open>\<open>IoOperationFuture::poll\<close>; \<open>conv\<close> is the conversion to the type it waits for. \<open>None\<close> is the panic of
  the unwrap, when an earlier poll could not submit the operation.\<close>

definition io_future_poll ::
  "('st io_completion \<Rightarrow> 'a option) \<Rightarrow> bool \<Rightarrow> bool \<Rightarrow> waker \<Rightarrow> ('f, 'st) io_world \<Rightarrow> 'st io_future
    \<Rightarrow> (('f, 'st) io_error + 'a) poll option \<times> 'st io_future \<times> ('f, 'st) io_world" where
  "io_future_poll conv sig1 sig2 wkr w f =
     (case fut_handle f of
        None \<Rightarrow>
          (case fut_operation f of
             None \<Rightarrow> (None, f, w)
           | Some op \<Rightarrow>
               (let (r, p) = pool_submit_io sig1 sig2 op (Some wkr) (io_pool w);
                    f = f\<lparr>fut_operation := None\<rparr>; w = w\<lparr>io_pool := p\<rparr>
                in case r of
                     Inl e \<Rightarrow> (Some (PollReady (Inl (SubmissionError (FailedToDispatchOperation e)))), f, w)
                   | Inr h \<Rightarrow> (Some PollPending, f\<lparr>fut_handle := Some h\<rparr>, w)))
      | Some h \<Rightarrow>
          (let (p, w) = handle_poll h wkr w in
           (Some (case p of
              PollReady (Some (Inr c)) \<Rightarrow>
                (case conv c of
                   None \<Rightarrow> PollReady (Inl (ProcessingError (UnexpectedCompletionResult
                             ''Io operation future got unexpected completion type'')))
                 | Some x \<Rightarrow> PollReady (Inr x))
            | PollReady (Some (Inl e)) \<Rightarrow> PollReady (Inl (OperationError e))
            | PollPending \<Rightarrow> PollPending
            | PollReady None \<Rightarrow>
                PollReady (Inl (ProcessingError (UnexpectedCompletionResult
                  ''Poll returned ready but no data was found'')))), f, w)))"

text \<open>\<open>Drop\<close>: a failed cancellation is only logged.\<close>

definition io_future_drop ::
  "bool \<Rightarrow> bool \<Rightarrow> 'st io_future \<Rightarrow> ('f, 'st) io_world \<Rightarrow> ('f, 'st) io_world" where
  "io_future_drop sig1 sig2 f w =
     (case fut_handle f of
        None \<Rightarrow> w
      | Some h \<Rightarrow> w\<lparr>io_pool := snd (handle_cancel sig1 sig2 h (io_pool w))\<rparr>)"

text \<open>\<open>OwnedFdAsync\<close>: dropping submits a forgotten close; when that is refused the descriptor is closed at
  once. The result is whether it was.\<close>

definition owned_fd_drop :: "bool \<Rightarrow> bool \<Rightarrow> raw_fd \<Rightarrow> ('f, 'st) pool \<Rightarrow> bool \<times> ('f, 'st) pool" where
  "owned_fd_drop sig1 sig2 fd p =
     (let (r, p) = pool_submit_io sig1 sig2 (op_close fd Zero) None p in (\<not> is_ok r, p))"

section \<open>What a loop does with one submission and one completion\<close>

lemma run_ready_fields [simp]:
  "wl_inbox (run_ready env l) = wl_inbox l" "wl_context (run_ready env l) = wl_context l"
  "wl_waiting (run_ready env l) = wl_waiting l" "wl_state (run_ready env l) = wl_state l"
  "wl_woken (run_ready env l) = wl_woken l" "wl_io_key (run_ready env l) = wl_io_key l"
  "wl_message_key (run_ready env l) = wl_message_key l"
  by (simp_all add: run_ready_def)

lemma loop_takes_submission:
  assumes "message_event l inp" "wl_inbox l = [SubmitIO s]" "wl_pushed l < we_capacity env"
  shows "\<exists>l'. main_iteration env inp l = (GoOn, l') \<and> wl_inbox l' = [] \<and> wl_state l' = Busy \<and>
    ctx_queue (wl_context l') = queue_add_entry (ctx_queue (wl_context l)) (sub_key s)
      \<lparr>entry_op = sub_op s, entry_key = sub_key s\<rparr> (sub_waker s) \<and>
    wl_waiting l' = wl_waiting l \<and> wl_woken l' = wl_woken l \<and> wl_io_key l' = wl_io_key l \<and>
    wl_message_key l' = wl_message_key l"
proof -
  obtain l1 where 1: "handle_messages env (wl_inbox l) (set_state Busy (set_state Idle l)) = (False, True, l1)"
    "wl_inbox l1 = []" "wl_state l1 = Busy" "wl_waiting l1 = wl_waiting l" "wl_woken l1 = wl_woken l"
    "wl_io_key l1 = wl_io_key l" "wl_message_key l1 = wl_message_key l"
    "ctx_queue (wl_context l1) = queue_add_entry (ctx_queue (wl_context l)) (sub_key s)
      \<lparr>entry_op = sub_op s, entry_key = sub_key s\<rparr> (sub_waker s)"
    using assms(2,3)
    by (simp add: prepare_io_submission_def loop_prepare_def prepare_submission_def submission_split_def set_state_def)
  show ?thesis
    unfolding iteration_on_messages [OF assms(1) 1(1)] using 1(2-) by (simp add: loop_submit_def Let_def)
qed

lemma loop_takes_completion:
  assumes "li_poll inp = Inr [(EPOLLIN, wl_io_key l)]" "wl_io_key l \<noteq> wl_message_key l"
    "li_completions inp = [(k, r)]" "wl_waiting l = []"
  shows "\<exists>l'. main_iteration env inp l = (GoOn, l') \<and> wl_inbox l' = wl_inbox l \<and> wl_state l' = Busy \<and>
    ctx_queue (wl_context l') = fst (snd (queue_complete (we_completion env) (ctx_queue (wl_context l)) k r)) \<and>
    set (wl_woken l') = set (wl_woken l) \<union>
      set_option (snd (snd (queue_complete (we_completion env) (ctx_queue (wl_context l)) k r)))"
  using assms
  by (auto simp: main_iteration_def poll_events_def event_of_epoll_def process_events_def complete_and_retry_def
      loop_complete_def wake_wakers_def set_state_def split_beta Let_def split: option.splits)

text \<open>The worker \<open>i\<close> whose turn it is has nothing in its channel and room in its ring.\<close>

definition idle_world :: "'f worker_env \<Rightarrow> nat \<Rightarrow> ('f, 'st) io_world \<Rightarrow> bool" where
  "idle_world env i w \<longleftrightarrow>
     pool_wf (io_pool w) \<and> unat (next_id (io_pool w)) < 2 ^ 64 - length (workers (io_pool w)) \<and>
     (\<forall>wk \<in> set (workers (io_pool w)). available wk \<and> ch_connected (wk_channel wk)) \<and>
     i = unat (next_id (io_pool w)) mod length (workers (io_pool w)) \<and>
     ch_messages (wk_channel (workers (io_pool w) ! i)) = [] \<and>
     wl_waiting (io_loops w i) = [] \<and> wl_pushed (io_loops w i) < we_capacity env \<and>
     wl_io_key (io_loops w i) \<noteq> wl_message_key (io_loops w i)"

text \<open>The key the worker gives out next, and the inputs of the two iterations.\<close>

definition next_key :: "nat \<Rightarrow> ('f, 'st) io_world \<Rightarrow> key" where
  "next_key i w = wk_next_key (workers (io_pool w) ! i)"

definition on_message :: "nat \<Rightarrow> ('f, 'st) io_world \<Rightarrow> loop_input" where
  "on_message i w = \<lparr>li_poll = Inr [(EPOLLIN, wl_message_key (io_loops w i))], li_signals = [],
     li_completions = [], li_submit_ok = True\<rparr>"

definition on_completion :: "nat \<Rightarrow> key \<Rightarrow> i32 \<Rightarrow> ('f, 'st) io_world \<Rightarrow> loop_input" where
  "on_completion i k r w = \<lparr>li_poll = Inr [(EPOLLIN, wl_io_key (io_loops w i))], li_signals = [],
     li_completions = [(k, r)], li_submit_ok = True\<rparr>"

text \<open>An operation submitted to an idle worker and served by it: submit, take the message, complete.\<close>

definition serve ::
  "'f worker_env \<Rightarrow> nat \<Rightarrow> i32 \<Rightarrow> ('f, 'st) io_world \<Rightarrow> ('f, 'st) pool \<Rightarrow> ('f, 'st) io_world" where
  "serve env i r w p =
     (let w1 = w\<lparr>io_pool := p\<rparr>; (_, w2) = worker_turn env (on_message i w) i w1;
          (_, w3) = worker_turn env (on_completion i (next_key i w) r w) i w2
      in w3)"

lemma submit_to_idle:
  assumes "idle_world env i w"
  shows "\<exists>p. pool_submit_io True sig2 op wkr (io_pool w) = (Inr \<lparr>sh_key = next_key i w, sh_worker = i\<rparr>, p) \<and>
    i < length (workers p) \<and>
    ch_messages (wk_channel (workers p ! i)) = [SubmitIO \<lparr>sub_key = next_key i w, sub_op = op, sub_waker = wkr\<rparr>]"
proof -
  have i: "i < length (workers (io_pool w))"
    using assms next_worker_id_index(3) [of "io_pool w"] by (simp add: idle_world_def)
  have av: "\<forall>wk \<in> set (workers (io_pool w)). available wk" "\<forall>wk \<in> set (workers (io_pool w)). ch_connected (wk_channel wk)"
    using assms by (auto simp: idle_world_def)
  show ?thesis
    using pool_submit_io_available [OF _ _ av, of sig2 op wkr] assms i
    by (auto simp: idle_world_def next_key_def Let_def)
qed

lemma serve_queue:
  assumes "idle_world env i w"
    "pool_submit_io True sig2 op wkr (io_pool w) = (Inr h, p)"
  shows "let q1 = queue_add_entry (world_queue w i) (next_key i w) \<lparr>entry_op = op, entry_key = next_key i w\<rparr> wkr;
      (_, q2, woken) = queue_complete (we_completion env) q1 (next_key i w) r
    in world_queue (serve env i r w p) i = q2 \<and>
       set (wl_woken (io_loops (serve env i r w p) i)) = set (wl_woken (io_loops w i)) \<union> set_option woken"
proof -
  let ?k = "next_key i w" and ?s = "\<lparr>sub_key = next_key i w, sub_op = op, sub_waker = wkr\<rparr>"
  have p: "i < length (workers p)" "ch_messages (wk_channel (workers p ! i)) = [SubmitIO ?s]"
    using submit_to_idle [OF assms(1), of sig2 op wkr] assms(2) by auto
  let ?l = "(io_loops w i)\<lparr>wl_inbox := [SubmitIO ?s]\<rparr>"
  obtain l1 where 1: "main_iteration env (on_message i w) ?l = (GoOn, l1)" "wl_inbox l1 = []"
    "ctx_queue (wl_context l1) = queue_add_entry (world_queue w i) ?k \<lparr>entry_op = op, entry_key = ?k\<rparr> wkr"
    "wl_waiting l1 = []" "wl_woken l1 = wl_woken (io_loops w i)" "wl_io_key l1 = wl_io_key (io_loops w i)"
    "wl_message_key l1 = wl_message_key (io_loops w i)"
    using loop_takes_submission [of ?l "on_message i w" ?s env] assms(1)
    by (auto simp: message_event_def on_message_def idle_world_def world_queue_def)
  have l1: "l1\<lparr>wl_inbox := []\<rparr> = l1" using 1(2) by simp
  obtain l2 where 2: "main_iteration env (on_completion i ?k r w) l1 = (GoOn, l2)"
    "ctx_queue (wl_context l2) = fst (snd (queue_complete (we_completion env) (ctx_queue (wl_context l1)) ?k r))"
    "set (wl_woken l2) = set (wl_woken l1) \<union>
       set_option (snd (snd (queue_complete (we_completion env) (ctx_queue (wl_context l1)) ?k r)))"
    using loop_takes_completion [of "on_completion i ?k r w" l1 ?k r env] 1 assms(1)
    by (auto simp: on_completion_def idle_world_def)
  show ?thesis
    using p 1 2 by (simp add: serve_def worker_turn_def set_worker_def world_queue_def split_beta Let_def l1)
qed

section \<open>Properties\<close>

lemma queue_complete_added:
  "map_of (fst (snd (queue_complete env (queue_add_entry q k e wkr) k r))) =
     (map_of q)(k \<mapsto> \<lparr>slot_state = Some (entry_complete env e r), slot_waker = wkr\<rparr>)"
  "snd (snd (queue_complete env (queue_add_entry q k e wkr) k r)) = wkr"
  using queue_complete_slot [of env "queue_add_entry q k e wkr" k r]
    queue_complete_woken [of env "queue_add_entry q k e wkr" k r]
  by (simp_all add: map_of_add_entry slot_report_def slot_new_def)

lemma entry_complete_duration:
  "op_duration (entry_op e) = Zero \<Longrightarrow> entry_complete env e r = Completed"
  "op_duration (entry_op e) = SingleShot \<Longrightarrow> entry_complete env e r = SingleResult (fst (op_complete env (entry_op e) r))"
  by (simp_all add: entry_complete_def split_beta op_complete_duration)

text \<open>C1. An operation awaited through its future, from end to end: the first poll submits it to the worker
  whose turn it is and is pending; that worker takes it from its channel into its ring; when the kernel reports
  the result code, the task that polled is woken, and its next poll gives what the operation makes of that
  code, converted to the awaited type, or the operation's error; the slot is gone then.\<close>

theorem future_delivers_result:
  assumes "idle_world env i w" "op_duration op = SingleShot"
  shows "let (p1, f1, w1) = io_future_poll conv True sig2 wkr w (io_future_new op);
      w3 = serve env i r w (io_pool w1);
      (p2, f2, w4) = io_future_poll conv sig3 sig4 wkr2 w3 f1
    in p1 = Some PollPending \<and> wkr \<in> set (wl_woken (io_loops w3 i)) \<and>
       p2 = Some (PollReady (case fst (op_complete (we_completion env) op r) of
         Inl e \<Rightarrow> Inl (OperationError e)
       | Inr c \<Rightarrow> ok_or (ProcessingError (UnexpectedCompletionResult
                     ''Io operation future got unexpected completion type'')) (conv c))) \<and>
       map_of (world_queue w4 i) (next_key i w) = None"
proof -
  let ?k = "next_key i w" and ?e = "\<lparr>entry_op = op, entry_key = next_key i w\<rparr>"
  obtain p where 1: "pool_submit_io True sig2 op (Some wkr) (io_pool w) = (Inr \<lparr>sh_key = ?k, sh_worker = i\<rparr>, p)"
    using submit_to_idle [OF assms(1)] by blast
  let ?w3 = "serve env i r w p"
  let ?res = "fst (op_complete (we_completion env) op r)"
  have ec: "entry_complete (we_completion env) ?e r = SingleResult ?res"
    using entry_complete_duration(2) [of ?e "we_completion env" r] assms(2) by simp
  have q: "map_of (world_queue ?w3 i) = (map_of (world_queue w i))(?k \<mapsto>
        \<lparr>slot_state = Some (SingleResult ?res), slot_waker = Some wkr\<rparr>)"
    "wkr \<in> set (wl_woken (io_loops ?w3 i))"
    using serve_queue [OF assms(1) 1, of r] by (simp_all add: split_beta Let_def queue_complete_added ec)
  have "fst (queue_poll (world_queue ?w3 i) ?k wkr2) = PollReady (Some ?res)"
    "map_of (snd (queue_poll (world_queue ?w3 i) ?k wkr2)) ?k = None"
    using queue_poll_slot [of "world_queue ?w3 i" ?k wkr2] by (simp_all add: q slot_poll_def)
  with 1 q(2) show ?thesis
    by (auto simp: io_future_poll_def io_future_new_def handle_poll_def set_world_queue_def world_queue_def split_beta
        ok_or_def split: sum.split option.split)
qed

definition demo_world :: "(unit, unit) io_world" where
  "demo_world = \<lparr>io_pool = two_workers, io_loops = \<lambda>_. idle_loop\<rparr>"

definition demo_env :: "unit worker_env" where
  "demo_env = \<lparr>we_capacity = 256, we_poll = \<lambda>_ _. (PollPending, ()),
     we_completion = \<lparr>env_grow = \<lambda>_. [0], env_parse_msghdr = \<lambda>_. Inr []\<rparr>, we_repair = None\<rparr>"

lemma demo_world_idle:
  "idle_world demo_env (Suc 0) demo_world" "next_key (Suc 0) demo_world = 0" "world_queue demo_world (Suc 0) = []"
  using two_workers_facts
  by (auto simp: idle_world_def demo_world_def demo_env_def next_key_def idle_loop_def world_queue_def)
    (simp_all add: two_workers_def worker_new_def)

theorem future_delivers_result_witness:
  "let (p1, f1, w1) = io_future_poll usize_of_completion True True 4 demo_world (io_future_new (op_write_at 3 0 [1, 2]));
      (p2, f2, w4) = io_future_poll usize_of_completion True True 4 (serve demo_env (Suc 0) 2 demo_world (io_pool w1)) f1
    in p1 = Some PollPending \<and> p2 = Some (PollReady (Inr 2))"
  using future_delivers_result [OF demo_world_idle(1), where op = "op_write_at 3 0 [1, 2]" and
      conv = usize_of_completion and r = 2 and wkr = 4 and ?wkr2.0 = 4 and ?sig2.0 = True and ?sig3.0 = True and ?sig4.0 = True]
  by (simp add: op_write_at_def op_complete_def Let_def split_beta ok_or_def)

text \<open>A future polled again too early fails. After the first poll has submitted the operation, and before
  the worker has taken it from its channel, a second poll does not stay pending: it gives the error of an
  unexpected completion, although the operation is on its way and its result is then never given.\<close>

theorem early_poll_fails:
  assumes "idle_world env i w" "map_of (world_queue w i) (next_key i w) = None"
  shows "let (p1, f1, w1) = io_future_poll conv True sig2 wkr w (io_future_new op);
      (p2, f2, w2) = io_future_poll conv sig3 sig4 wkr2 w1 f1
    in p1 = Some PollPending \<and>
       p2 = Some (PollReady (Inl (ProcessingError (UnexpectedCompletionResult
              ''Poll returned ready but no data was found'')))) \<and>
       ch_messages (wk_channel (workers (io_pool w2) ! i)) =
         [SubmitIO \<lparr>sub_key = next_key i w, sub_op = op, sub_waker = Some wkr\<rparr>]"
proof -
  obtain p where 1: "pool_submit_io True sig2 op (Some wkr) (io_pool w) =
      (Inr \<lparr>sh_key = next_key i w, sh_worker = i\<rparr>, p)"
    "ch_messages (wk_channel (workers p ! i)) = [SubmitIO \<lparr>sub_key = next_key i w, sub_op = op, sub_waker = Some wkr\<rparr>]"
    using submit_to_idle [OF assms(1)] by blast
  with assms(2) show ?thesis
    by (simp add: io_future_poll_def io_future_new_def handle_poll_def set_world_queue_def world_queue_def queue_poll_def)
qed

theorem early_poll_fails_witness:
  "let (p1, f1, w1) = io_future_poll usize_of_completion True True 4 demo_world (io_future_new (op_write_at 3 0 [1, 2]));
      (p2, f2, w2) = io_future_poll usize_of_completion True True 4 w1 f1
    in p1 = Some PollPending \<and> p2 \<noteq> Some PollPending"
  using early_poll_fails [OF demo_world_idle(1), where op = "op_write_at 3 0 [1, 2]" and
      conv = usize_of_completion and wkr = 4 and ?wkr2.0 = 4 and ?sig2.0 = True and ?sig3.0 = True and ?sig4.0 = True]
  by (simp add: demo_world_idle(2,3) split_beta Let_def)

text \<open>Every future that was polled leaves a slot behind when it is dropped, even one that has given its
  result: the drop submits a forgotten cancellation, and once the worker whose turn it is has submitted that
  and the kernel has reported it, whatever it reports, the queue of this worker holds one slot more than
  before. The shutdown of the worker waits for one completion per slot.\<close>

theorem dropped_future_leaves_slot:
  assumes "idle_world env i w" "fut_handle f = Some h" "map_of (world_queue w i) (next_key i w) = None"
  shows "let w3 = serve env i r w (io_pool (io_future_drop True sig2 f w)) in
    map_option slot_state (map_of (world_queue w3 i) (next_key i w)) = Some (Some Completed) \<and>
    blocking_submit_wants (wl_context (io_loops w3 i)) = Suc (blocking_submit_wants (wl_context (io_loops w i)))"
proof -
  let ?k = "next_key i w" and ?op = "op_cancel (sh_key h) Zero :: 'b io_operation" and ?q = "world_queue w i"
  let ?e = "\<lparr>entry_op = ?op, entry_key = next_key i w\<rparr>"
  obtain p where 1: "pool_submit_io True sig2 ?op None (io_pool w) = (Inr \<lparr>sh_key = ?k, sh_worker = i\<rparr>, p)"
    using submit_to_idle [OF assms(1)] by blast
  have p: "io_pool (io_future_drop True sig2 f w) = p"
    using 1 assms(2) by (simp add: io_future_drop_def handle_cancel_def)
  have ec: "entry_complete (we_completion env) ?e r = Completed"
    by (rule entry_complete_duration) (simp add: op_cancel_def)
  have q: "world_queue (serve env i r w p) i = fst (snd (queue_complete (we_completion env) (queue_add_entry ?q ?k ?e None) ?k r))"
    using serve_queue [OF assms(1) 1, of r] by (simp add: split_beta Let_def)
  have "queue_add_entry ?q ?k ?e None = ?q @ [(?k, slot_new ?e None)]"
    using assms(3) by (simp add: queue_add_entry_def update_fresh map_of_None_key)
  moreover have "fst (snd (queue_complete (we_completion env) (?q @ [(?k, slot_new ?e None)]) ?k r)) =
      AList.update ?k \<lparr>slot_state = Some Completed, slot_waker = None\<rparr> (?q @ [(?k, slot_new ?e None)])"
    using assms(3) ec by (simp add: queue_complete_def slot_complete_def slot_new_def map_add_def)
  moreover have "length (AList.update ?k s (q @ [(?k, s')])) = Suc (length q)" for s s' :: "'b slot" and q
    by (induction q) auto
  ultimately show ?thesis
    using q queue_complete_added(1) [of "we_completion env" ?q ?k ?e None r]
    by (simp add: p ec blocking_submit_wants_def queue_len_def world_queue_def Let_def)
qed

theorem dropped_future_leaves_slot_witness:
  "blocking_submit_wants (wl_context (io_loops
      (serve demo_env (Suc 0) 0 demo_world
        (io_pool (io_future_drop True True \<lparr>fut_operation = None, fut_handle = Some \<lparr>sh_key = 9, sh_worker = 0\<rparr>\<rparr> demo_world))) (Suc 0))) = 1"
  using dropped_future_leaves_slot [OF demo_world_idle(1), where
      f = "\<lparr>fut_operation = None, fut_handle = Some \<lparr>sh_key = 9, sh_worker = 0\<rparr>\<rparr>" and r = 0 and ?sig2.0 = True]
    demo_world_idle(3)
  by (simp add: demo_world_idle(2) blocking_submit_wants_def queue_len_def world_queue_def Let_def)

end
