(* ===== verification/Io_Async.thy ===== *)
theory Io_Async
  imports Io_Recovery
begin

text \<open>
  The remaining constructors of operations (\<open>src/io/operation/mod.rs\<close>) and the async methods on descriptors
  (the traits and macros of \<open>src/io/operation/future.rs\<close>): a method either is refused with an error at once or
  awaits the future of the operation given here. \<open>alloc\<close> is the memory of a new buffer of some capacity.
\<close>

section \<open>Constructors\<close>

definition op_read :: "(nat \<Rightarrow> u8 list) \<Rightarrow> raw_fd \<Rightarrow> nat \<Rightarrow> 'st io_operation" where
  "op_read alloc fd len = op_read_into fd (with_capacity (alloc len))"

definition op_read_at :: "(nat \<Rightarrow> u8 list) \<Rightarrow> raw_fd \<Rightarrow> nat \<Rightarrow> nat \<Rightarrow> 'st io_operation" where
  "op_read_at alloc fd offset len = op_read_at_into fd offset (with_capacity (alloc len))"

definition op_recv :: "(nat \<Rightarrow> u8 list) \<Rightarrow> raw_fd \<Rightarrow> nat \<Rightarrow> i32 \<Rightarrow> 'st io_operation" where
  "op_recv alloc fd len flags = op_recv_into fd (with_capacity (alloc len)) flags"

definition op_readv_at ::
  "(nat \<Rightarrow> u8 list) \<Rightarrow> nat \<Rightarrow> raw_fd \<Rightarrow> nat \<Rightarrow> nat list \<Rightarrow> 'd io_submission_error + 'st io_operation" where
  "op_readv_at alloc iov_max fd offset lengths =
     bind_result
       (map_err (\<lambda>bs. OutputBufferVecSubmission (InvalidOutputBuffers bs))
         (iovec_output_new (map (with_capacity \<circ> alloc) lengths)))
       (op_readv_at_into iov_max fd offset)"

definition op_readv ::
  "(nat \<Rightarrow> u8 list) \<Rightarrow> nat \<Rightarrow> raw_fd \<Rightarrow> nat list \<Rightarrow> 'd io_submission_error + 'st io_operation" where
  "op_readv alloc iov_max fd lengths = op_readv_at alloc iov_max fd 0 lengths"

definition op_readv_into ::
  "nat \<Rightarrow> raw_fd \<Rightarrow> bytes_mut list \<Rightarrow> 'd io_submission_error + 'st io_operation" where
  "op_readv_into iov_max fd bs = op_readv_at_into iov_max fd 0 bs"

definition op_recv_msg ::
  "(nat \<Rightarrow> u8 list) \<Rightarrow> nat \<Rightarrow> raw_fd \<Rightarrow> nat list \<Rightarrow> nat \<Rightarrow> i32 \<Rightarrow> 'd io_submission_error + 'st io_operation" where
  "op_recv_msg alloc iov_max fd lengths control_length flags =
     bind_result
       (if 0 < length lengths then
          map_ok Some (map_err (\<lambda>bs. OutputBufferVecSubmission (InvalidOutputBuffers bs))
            (iovec_output_new (map (with_capacity \<circ> alloc) lengths)))
        else Inr None)
       (\<lambda>data. op_recv_msg_into iov_max fd
          \<lparr>rb_data = data, rb_control = (if 0 < control_length then Some (with_capacity (alloc control_length)) else None)\<rparr>
          flags)"

definition op_write :: "raw_fd \<Rightarrow> u8 list \<Rightarrow> 'st io_operation" where
  "op_write fd b = op_write_at fd 0 b"

definition op_writev :: "nat \<Rightarrow> raw_fd \<Rightarrow> iovec_input_source \<Rightarrow> 'd io_submission_error + 'st io_operation" where
  "op_writev iov_max fd src = op_writev_at iov_max fd src 0"

definition op_shutdown_read :: "raw_fd \<Rightarrow> 'st io_operation" where
  "op_shutdown_read fd = op_shutdown fd ShutRead SingleShot"

definition op_shutdown_read_forget :: "raw_fd \<Rightarrow> 'st io_operation" where
  "op_shutdown_read_forget fd = op_shutdown fd ShutRead Zero"

definition op_shutdown_write :: "raw_fd \<Rightarrow> 'st io_operation" where
  "op_shutdown_write fd = op_shutdown fd ShutWrite SingleShot"

definition op_shutdown_write_forget :: "raw_fd \<Rightarrow> 'st io_operation" where
  "op_shutdown_write_forget fd = op_shutdown fd ShutWrite Zero"

definition op_shutdown_both :: "raw_fd \<Rightarrow> 'st io_operation" where
  "op_shutdown_both fd = op_shutdown fd ShutBoth SingleShot"

definition op_shutdown_forget :: "raw_fd \<Rightarrow> 'st io_operation" where
  "op_shutdown_forget fd = op_shutdown fd ShutBoth Zero"

definition op_open :: "u8 list \<Rightarrow> open_settings \<Rightarrow> 'd io_submission_error + 'st io_operation" where
  "op_open path settings = op_open_at AT_FDCWD path settings"

section \<open>Reading\<close>

type_synonym ('f, 'st) async_call = "('f, 'st) io_error + 'st io_operation"

definition submission :: "('f, 'st) submit_error + 'a \<Rightarrow> ('f, 'st) io_error + 'a" where
  "submission r = map_err SubmissionError r"

definition output_buffer :: "bytes_mut \<Rightarrow> ('f, 'st) submit_error + bytes_mut" where
  "output_buffer b = map_err (\<lambda>e. OutputBufferSubmission (InvalidOutputBuffer e)) (io_output_buffer_new b)"

definition output_buffers :: "bytes_mut list \<Rightarrow> ('f, 'st) submit_error + bytes_mut list" where
  "output_buffers bs = map_err (\<lambda>e. OutputBufferVecSubmission (InvalidOutputBuffers e)) (iovec_output_new bs)"

definition async_read :: "(nat \<Rightarrow> u8 list) \<Rightarrow> raw_fd \<Rightarrow> nat \<Rightarrow> ('f, 'st) async_call" where
  "async_read alloc fd len = Inr (op_read alloc fd len)"

definition async_read_into :: "raw_fd \<Rightarrow> bytes_mut \<Rightarrow> ('f, 'st) async_call" where
  "async_read_into fd b = submission (map_ok (op_read_into fd) (output_buffer b))"

definition async_read_at :: "(nat \<Rightarrow> u8 list) \<Rightarrow> raw_fd \<Rightarrow> nat \<Rightarrow> nat \<Rightarrow> ('f, 'st) async_call" where
  "async_read_at alloc fd offset len = Inr (op_read_at alloc fd offset len)"

definition async_read_at_into :: "raw_fd \<Rightarrow> nat \<Rightarrow> bytes_mut \<Rightarrow> ('f, 'st) async_call" where
  "async_read_at_into fd offset b = submission (map_ok (op_read_at_into fd offset) (output_buffer b))"

definition async_readv :: "(nat \<Rightarrow> u8 list) \<Rightarrow> nat \<Rightarrow> raw_fd \<Rightarrow> nat list \<Rightarrow> ('f, 'st) async_call" where
  "async_readv alloc iov_max fd lengths = submission (op_readv alloc iov_max fd lengths)"

definition async_readv_into :: "nat \<Rightarrow> raw_fd \<Rightarrow> bytes_mut list \<Rightarrow> ('f, 'st) async_call" where
  "async_readv_into iov_max fd bs = submission (bind_result (output_buffers bs) (op_readv_into iov_max fd))"

definition async_readv_at :: "(nat \<Rightarrow> u8 list) \<Rightarrow> nat \<Rightarrow> raw_fd \<Rightarrow> nat \<Rightarrow> nat list \<Rightarrow> ('f, 'st) async_call" where
  "async_readv_at alloc iov_max fd offset lengths = submission (op_readv_at alloc iov_max fd offset lengths)"

definition async_readv_at_into :: "nat \<Rightarrow> raw_fd \<Rightarrow> nat \<Rightarrow> bytes_mut list \<Rightarrow> ('f, 'st) async_call" where
  "async_readv_at_into iov_max fd offset bs =
     submission (bind_result (output_buffers bs) (op_readv_at_into iov_max fd offset))"

definition async_recv :: "(nat \<Rightarrow> u8 list) \<Rightarrow> raw_fd \<Rightarrow> nat \<Rightarrow> i32 \<Rightarrow> ('f, 'st) async_call" where
  "async_recv alloc fd len flags = Inr (op_recv alloc fd len flags)"

definition async_recv_into :: "raw_fd \<Rightarrow> bytes_mut \<Rightarrow> i32 \<Rightarrow> ('f, 'st) async_call" where
  "async_recv_into fd b flags = submission (map_ok (\<lambda>b. op_recv_into fd b flags) (output_buffer b))"

definition async_recv_msg ::
  "(nat \<Rightarrow> u8 list) \<Rightarrow> nat \<Rightarrow> raw_fd \<Rightarrow> nat list \<Rightarrow> nat \<Rightarrow> i32 \<Rightarrow> ('f, 'st) async_call" where
  "async_recv_msg alloc iov_max fd lengths control_length flags =
     submission (op_recv_msg alloc iov_max fd lengths control_length flags)"

definition async_recv_msg_into ::
  "nat \<Rightarrow> raw_fd \<Rightarrow> bytes_mut list option \<Rightarrow> bytes_mut option \<Rightarrow> i32 \<Rightarrow> ('f, 'st) async_call" where
  "async_recv_msg_into iov_max fd buffers control flags =
     submission (bind_result
       (map_err RecvMsgBuffersSubmission (recv_prepare \<lparr>rb_data = buffers, rb_control = control\<rparr>))
       (\<lambda>prepared. op_recv_msg_into iov_max fd prepared flags))"

section \<open>Writing\<close>

text \<open>What \<open>write\<close> and \<open>write_at\<close> do when the buffer is not in one piece: write it as a vector.\<close>

definition write_as_vector ::
  "(iovec_input_source \<Rightarrow> ('f, 'st) submit_error + 'st io_operation) \<Rightarrow> u8 list \<Rightarrow> ('f, 'st) async_call" where
  "write_as_vector mk b =
     submission (bind_result (map_err (\<lambda>e. InputBufferSubmission (InvalidIoVecInputBuffer e)) (iovec_input_new_single b)) mk)"

definition input_refused :: "invalid_input_error \<Rightarrow> ('f, 'st) async_call" where
  "input_refused e = Inl (SubmissionError (InputBufferSubmission (InvalidInputBuffer e)))"

definition async_write_at :: "nat \<Rightarrow> raw_fd \<Rightarrow> nat \<Rightarrow> u8 list \<Rightarrow> ('f, 'st) async_call" where
  "async_write_at iov_max fd offset buffer =
     (case io_input_buffer_new buffer of
        Inr b \<Rightarrow> Inr (op_write_at fd offset b)
      | Inl (InvalidIoInputBufferError b NonContiguousInputBuffer) \<Rightarrow>
          write_as_vector (\<lambda>src. op_writev_at iov_max fd src offset) b
      | Inl e \<Rightarrow> input_refused e)"

definition async_write :: "nat \<Rightarrow> raw_fd \<Rightarrow> u8 list \<Rightarrow> ('f, 'st) async_call" where
  "async_write iov_max fd buffer =
     (case io_input_buffer_new buffer of
        Inr b \<Rightarrow> Inr (op_write fd b)
      | Inl (InvalidIoInputBufferError b NonContiguousInputBuffer) \<Rightarrow>
          write_as_vector (op_writev iov_max fd) b
      | Inl e \<Rightarrow> input_refused e)"

definition async_writev_at :: "nat \<Rightarrow> raw_fd \<Rightarrow> nat \<Rightarrow> u8 list list \<Rightarrow> ('f, 'st) async_call" where
  "async_writev_at iov_max fd offset buffers =
     submission (bind_result
       (map_err (\<lambda>_. InputBufferVecSubmission InvalidIoVecInputBuffers) (iovec_input_new_multiple buffers))
       (\<lambda>src. op_writev_at iov_max fd src offset))"

definition async_writev :: "nat \<Rightarrow> raw_fd \<Rightarrow> u8 list list \<Rightarrow> ('f, 'st) async_call" where
  "async_writev iov_max fd buffers =
     submission (bind_result
       (map_err (\<lambda>_. InputBufferVecSubmission InvalidIoVecInputBuffers) (iovec_input_new_multiple buffers))
       (op_writev iov_max fd))"

definition async_send_msg :: "nat \<Rightarrow> (nat \<Rightarrow> u8) \<Rightarrow> raw_fd \<Rightarrow> send_message \<Rightarrow> i32 \<Rightarrow> ('f, 'st) async_call" where
  "async_send_msg iov_max fresh fd m flags = submission (op_send_msg iov_max fresh fd m flags)"

definition async_send :: "nat \<Rightarrow> (nat \<Rightarrow> u8) \<Rightarrow> raw_fd \<Rightarrow> u8 list \<Rightarrow> i32 \<Rightarrow> ('f, 'st) async_call" where
  "async_send iov_max fresh fd buffer flags =
     (case io_input_buffer_new buffer of
        Inr b \<Rightarrow> Inr (op_send fd b flags)
      | Inl (InvalidIoInputBufferError b NonContiguousInputBuffer) \<Rightarrow>
          async_send_msg iov_max fresh fd \<lparr>sm_data = Some (Single b), sm_control = None, sm_address = None\<rparr> flags
      | Inl e \<Rightarrow> input_refused e)"

section \<open>Properties\<close>

lemmas async_defs = submission_def output_buffer_def output_buffers_def async_read_into_def async_read_at_into_def
  async_readv_into_def async_readv_at_into_def async_recv_into_def async_recv_msg_into_def op_readv_into_def
  op_readv_at_into_def op_recv_msg_into_def io_output_buffer_new_def iovec_output_new_def

text \<open>What happens to the caller's buffers when a read into them is refused: the single-buffer reads and
  \<open>recv_msg_into\<close> give them back in the error, as they were. The vectored reads do not, unless there were none:
  a list of full buffers, or one of too many, is lost with the call.\<close>

theorem refused_read_buffers:
  "(case async_read_at_into fd offset b of Inl e \<Rightarrow> io_into_bytes_mut e = Some b | Inr _ \<Rightarrow> 0 < capacity b) \<and>
   (case async_recv_into fd b flags of Inl e \<Rightarrow> io_into_bytes_mut e = Some b | Inr _ \<Rightarrow> 0 < capacity b) \<and>
   (case async_recv_msg_into iov_max fd buffers control flags of
      Inl e \<Rightarrow> io_into_recvmsg_buffers e = Some \<lparr>rb_data = buffers, rb_control = control\<rparr>
    | Inr op \<Rightarrow> into_recvmsg_buffers (op_type op) = Some \<lparr>rb_data = buffers, rb_control = control\<rparr>) \<and>
   (case async_readv_at_into iov_max fd offset bs of
      Inl e \<Rightarrow> (if bs = [] then io_into_vec e = Some [] else io_into_vec e = None)
    | Inr op \<Rightarrow> into_vec (op_type op) = Some bs)"
proof (intro conjI)
  show "case async_recv_msg_into iov_max fd buffers control flags of
      Inl e \<Rightarrow> io_into_recvmsg_buffers e = Some \<lparr>rb_data = buffers, rb_control = control\<rparr>
    | Inr op \<Rightarrow> into_recvmsg_buffers (op_type op) = Some \<lparr>rb_data = buffers, rb_control = control\<rparr>"
    by (auto simp: async_defs recv_prepare_def pending_message_new_def split: option.split sum.split)
  show "case async_readv_at_into iov_max fd offset bs of
      Inl e \<Rightarrow> (if bs = [] then io_into_vec e = Some [] else io_into_vec e = None)
    | Inr op \<Rightarrow> into_vec (op_type op) = Some bs"
    by (cases "generate_iovecs_output iov_max bs") (auto simp: async_defs)
qed (auto simp: async_defs op_read_at_into_def op_recv_into_def)

text \<open>The bytes a write or a send hands to the kernel are the caller's: an empty buffer is refused, with the
  buffer in the error, any other makes an operation on the same descriptor whose memory is the buffer; a
  vectored write hands over the buffers it was given, in order.\<close>

theorem write_hands_over_bytes:
  "(case async_write_at iov_max fd offset b of
      Inl e \<Rightarrow> b = [] \<and> (\<exists>k. e = SubmissionError (InputBufferSubmission (InvalidInputBuffer (InvalidIoInputBufferError b k))))
    | Inr op \<Rightarrow> b \<noteq> [] \<and> op_fd op = fd \<and> op_type op = IoWrite b offset) \<and>
   (case async_send iov_max fresh fd b flags of
      Inl e \<Rightarrow> b = [] \<and> (\<exists>k. e = SubmissionError (InputBufferSubmission (InvalidInputBuffer (InvalidIoInputBufferError b k))))
    | Inr op \<Rightarrow> b \<noteq> [] \<and> op_fd op = fd \<and> op_type op = IoSend b flags) \<and>
   (case async_writev_at iov_max fd offset bs of
      Inl e \<Rightarrow> concat bs = [] \<or> iov_max < length (filter (\<lambda>b. b \<noteq> []) bs)
    | Inr op \<Rightarrow> concat bs \<noteq> [] \<and> op_fd op = fd \<and> op_type op = IoWritev (Multiple bs) offset)"
proof (intro conjI)
  show "case async_writev_at iov_max fd offset bs of
      Inl e \<Rightarrow> concat bs = [] \<or> iov_max < length (filter (\<lambda>b. b \<noteq> []) bs)
    | Inr op \<Rightarrow> concat bs \<noteq> [] \<and> op_fd op = fd \<and> op_type op = IoWritev (Multiple bs) offset"
    using singles_Nil_iff [of bs] singles_length [of bs]
    by (auto simp: async_writev_at_def submission_def iovec_input_new_multiple_def op_writev_at_def
        generate_iovecs_vec_def assert_iovecs_valid_def Let_def split: if_splits)
qed (auto simp: async_write_at_def async_send_def io_input_buffer_new_def input_refused_def op_write_at_def op_send_def)

end
