(* ===== verification/Uring_Entry.thy ===== *)
theory Uring_Entry
  imports Io_Completion_Props
begin

text \<open>
  The entries of the submission ring (the \<open>as_uring_entry\<close> of \<open>src/io/operation/data/\<close> and
  \<open>src/io/entry.rs\<close>): what each operation asks the kernel for. A pointer of an entry is the memory it points
  to: for a read the spare memory of the buffer, which \<open>chunk_mut\<close> has grown first when there was none. The
  entry builders of the ring library are constructors.
\<close>

section \<open>Entries\<close>

datatype 'st uring_op =
    UringRead raw_fd "u8 list" u32 u64                \<comment> \<open>descriptor, memory, length, offset\<close>
  | UringWrite raw_fd "u8 list" u32 u64
  | UringRecv raw_fd "u8 list" u32 i32
  | UringSend raw_fd "u8 list" u32 i32
  | UringReadv raw_fd "out_iovec list" u32 u64
  | UringWritev raw_fd "u8 list list" u32 u64
  | UringRecvMsg raw_fd pending_message u32
  | UringSendMsg raw_fd msghdr u32
  | UringAccept raw_fd sockaddr_storage nat
  | UringAcceptMulti raw_fd
  | UringConnect raw_fd sockaddr_storage nat
  | UringShutdown raw_fd i32
  | UringClose raw_fd
  | UringOpenAt2 raw_fd "u8 list" u64 u64 u64         \<comment> \<open>path, flags, resolve, mode\<close>
  | UringStatx raw_fd "u8 list" i32 u32
  | UringUnlinkAt raw_fd "u8 list"
  | UringRenameAt raw_fd "u8 list" raw_fd "u8 list"
  | UringMkDirAt raw_fd "u8 list" u32
  | UringAsyncCancel u64
  | UringSplice raw_fd i64 raw_fd i64 u32 u32
  | UringFsync raw_fd bool                            \<comment> \<open>whether only the data\<close>
  | UringTimeout i64 i64

record 'st uring_entry =
  ue_op :: "'st uring_op"
  ue_user_data :: u64

fun shutdown_how :: "shutdown_type \<Rightarrow> i32" where
  "shutdown_how ShutRead = 0"
| "shutdown_how ShutWrite = 1"
| "shutdown_how ShutBoth = 2"

text \<open>Each operation's entry, with the operation as it is left; \<open>None\<close> is the panic of an unwrap. The slices of
  vectored operations are those their constructors made, from buffers that have not changed since.\<close>

type_synonym 'st entry_result = "('st uring_op \<times> 'st io_type) option"

definition read_uring_entry ::
  "(bytes_mut \<Rightarrow> u8 list) \<Rightarrow> raw_fd \<Rightarrow> bytes_mut option \<Rightarrow> nat \<Rightarrow> 'st entry_result" where
  "read_uring_entry grow fd b off =
     (case b of
        None \<Rightarrow> None
      | Some b \<Rightarrow>
          (let b = chunk_mut grow b in
           Some (UringRead fd (spare b) (of_nat (length (spare b))) (of_nat off), IoRead (Some b) off)))"

definition recv_uring_entry ::
  "(bytes_mut \<Rightarrow> u8 list) \<Rightarrow> raw_fd \<Rightarrow> bytes_mut option \<Rightarrow> i32 \<Rightarrow> 'st entry_result" where
  "recv_uring_entry grow fd b flags =
     (case b of
        None \<Rightarrow> None
      | Some b \<Rightarrow>
          (let b = chunk_mut grow b in
           Some (UringRecv fd (spare b) (of_nat (length (spare b))) flags, IoRecv (Some b) flags)))"

definition write_uring_entry :: "raw_fd \<Rightarrow> u8 list \<Rightarrow> nat \<Rightarrow> 'st entry_result" where
  "write_uring_entry fd b off = Some (UringWrite fd b (of_nat (length b)) (of_nat off), IoWrite b off)"

definition send_uring_entry :: "raw_fd \<Rightarrow> u8 list \<Rightarrow> i32 \<Rightarrow> 'st entry_result" where
  "send_uring_entry fd b flags = Some (UringSend fd b (of_nat (length b)) flags, IoSend b flags)"

definition readv_uring_entry :: "raw_fd \<Rightarrow> bytes_mut list option \<Rightarrow> nat \<Rightarrow> 'st entry_result" where
  "readv_uring_entry fd bs off =
     (let v = output_iovecs_from 0 (case bs of None \<Rightarrow> [] | Some bs \<Rightarrow> bs) in
      Some (UringReadv fd v (of_nat (length v)) (of_nat off), IoReadv bs off))"

definition writev_uring_entry :: "raw_fd \<Rightarrow> iovec_input_source \<Rightarrow> nat \<Rightarrow> 'st entry_result" where
  "writev_uring_entry fd src off =
     (let v = concat (map generate_iovecs_single (source_buffers src)) in
      Some (UringWritev fd v (of_nat (length v)) (of_nat off), IoWritev src off))"

definition recv_msg_uring_entry :: "raw_fd \<Rightarrow> pending_message option \<Rightarrow> i32 \<Rightarrow> 'st entry_result" where
  "recv_msg_uring_entry fd m flags =
     (case m of None \<Rightarrow> None | Some p \<Rightarrow> Some (UringRecvMsg fd p (ucast flags), IoRecvMsg m flags))"

definition send_msg_uring_entry :: "raw_fd \<Rightarrow> msghdr \<Rightarrow> i32 \<Rightarrow> 'st entry_result" where
  "send_msg_uring_entry fd m flags = Some (UringSendMsg fd m (ucast flags), IoSendMsg m flags)"

definition accept_uring_entry :: "raw_fd \<Rightarrow> sockaddr_storage \<Rightarrow> nat \<Rightarrow> 'st entry_result" where
  "accept_uring_entry fd addr len = Some (UringAccept fd addr len, IoAccept addr len)"

definition connect_uring_entry :: "raw_fd \<Rightarrow> sockaddr_storage \<Rightarrow> nat \<Rightarrow> 'st entry_result" where
  "connect_uring_entry fd addr len = Some (UringConnect fd addr len, IoConnect addr len)"

definition open_at_uring_entry :: "raw_fd \<Rightarrow> u8 list option \<Rightarrow> open_settings \<Rightarrow> 'st entry_result" where
  "open_at_uring_entry fd path s =
     (case path of
        None \<Rightarrow> None
      | Some p \<Rightarrow>
          Some (UringOpenAt2 fd p (scast (as_flags s)) (os_resolve_flags s) (ucast (mode_value s)), IoOpenAt path s))"

definition statx_uring_entry :: "raw_fd \<Rightarrow> 'st statx_data \<Rightarrow> 'st entry_result" where
  "statx_uring_entry fd d = Some (UringStatx fd (sx_path d) (sx_flags d) (sx_mask d), IoStatx d)"

definition mkdir_uring_entry :: "raw_fd \<Rightarrow> u8 list \<Rightarrow> file_mode \<Rightarrow> 'st entry_result" where
  "mkdir_uring_entry fd p mode = Some (UringMkDirAt fd p (mode_t_of_file_mode mode), IoMkDir p mode)"

definition rename_uring_entry :: "raw_fd \<Rightarrow> u8 list \<Rightarrow> u8 list \<Rightarrow> 'st entry_result" where
  "rename_uring_entry fd p q = Some (UringRenameAt fd p fd q, IoRename p q)"

definition splice_uring_entry :: "raw_fd \<Rightarrow> raw_fd \<Rightarrow> nat \<Rightarrow> nat \<Rightarrow> nat \<Rightarrow> u32 \<Rightarrow> 'st entry_result" where
  "splice_uring_entry fd fd_out i j n flags =
     Some (UringSplice fd (of_nat i) fd_out (of_nat j) (of_nat n) flags, IoSplice fd_out i j n flags)"

definition accept_multi_uring_entry :: "raw_fd \<Rightarrow> 'st entry_result" where
  "accept_multi_uring_entry fd = Some (UringAcceptMulti fd, IoAcceptMulti)"

definition shutdown_uring_entry :: "raw_fd \<Rightarrow> shutdown_type \<Rightarrow> 'st entry_result" where
  "shutdown_uring_entry fd how = Some (UringShutdown fd (shutdown_how how), IoShutdown how)"

definition close_uring_entry :: "raw_fd \<Rightarrow> 'st entry_result" where
  "close_uring_entry fd = Some (UringClose fd, IoClose)"

definition unlink_uring_entry :: "raw_fd \<Rightarrow> u8 list \<Rightarrow> 'st entry_result" where
  "unlink_uring_entry fd p = Some (UringUnlinkAt fd p, IoUnlink p)"

definition cancel_uring_entry :: "u64 \<Rightarrow> 'st entry_result" where
  "cancel_uring_entry key = Some (UringAsyncCancel key, IoCancel key)"

definition fsync_uring_entry :: "raw_fd \<Rightarrow> 'st entry_result" where
  "fsync_uring_entry fd = Some (UringFsync fd False, IoFSync)"

definition fdatasync_uring_entry :: "raw_fd \<Rightarrow> 'st entry_result" where
  "fdatasync_uring_entry fd = Some (UringFsync fd True, IoFdatasync)"

definition timeout_uring_entry :: "i64 \<Rightarrow> i64 \<Rightarrow> 'st entry_result" where
  "timeout_uring_entry s ns = Some (UringTimeout s ns, IoTimeout s ns)"

fun as_uring_entry :: "(bytes_mut \<Rightarrow> u8 list) \<Rightarrow> raw_fd \<Rightarrow> 'st io_type \<Rightarrow> 'st entry_result" where
  "as_uring_entry grow fd (IoRead b off) = read_uring_entry grow fd b off"
| "as_uring_entry grow fd (IoRecv b flags) = recv_uring_entry grow fd b flags"
| "as_uring_entry grow fd (IoWrite b off) = write_uring_entry fd b off"
| "as_uring_entry grow fd (IoSend b flags) = send_uring_entry fd b flags"
| "as_uring_entry grow fd (IoReadv bs off) = readv_uring_entry fd bs off"
| "as_uring_entry grow fd (IoWritev src off) = writev_uring_entry fd src off"
| "as_uring_entry grow fd (IoRecvMsg m flags) = recv_msg_uring_entry fd m flags"
| "as_uring_entry grow fd (IoSendMsg m flags) = send_msg_uring_entry fd m flags"
| "as_uring_entry grow fd (IoAccept addr len) = accept_uring_entry fd addr len"
| "as_uring_entry grow fd IoAcceptMulti = accept_multi_uring_entry fd"
| "as_uring_entry grow fd (IoConnect addr len) = connect_uring_entry fd addr len"
| "as_uring_entry grow fd (IoShutdown how) = shutdown_uring_entry fd how"
| "as_uring_entry grow fd IoClose = close_uring_entry fd"
| "as_uring_entry grow fd (IoOpenAt path s) = open_at_uring_entry fd path s"
| "as_uring_entry grow fd (IoStatx d) = statx_uring_entry fd d"
| "as_uring_entry grow fd (IoUnlink p) = unlink_uring_entry fd p"
| "as_uring_entry grow fd (IoRename p q) = rename_uring_entry fd p q"
| "as_uring_entry grow fd (IoMkDir p mode) = mkdir_uring_entry fd p mode"
| "as_uring_entry grow fd (IoCancel key) = cancel_uring_entry key"
| "as_uring_entry grow fd (IoSplice fd_out i j n flags) = splice_uring_entry fd fd_out i j n flags"
| "as_uring_entry grow fd IoFSync = fsync_uring_entry fd"
| "as_uring_entry grow fd IoFdatasync = fdatasync_uring_entry fd"
| "as_uring_entry grow fd (IoTimeout s ns) = timeout_uring_entry s ns"

lemmas uring_entry_defs = read_uring_entry_def recv_uring_entry_def write_uring_entry_def send_uring_entry_def
  readv_uring_entry_def writev_uring_entry_def recv_msg_uring_entry_def send_msg_uring_entry_def
  accept_uring_entry_def connect_uring_entry_def open_at_uring_entry_def statx_uring_entry_def
  mkdir_uring_entry_def rename_uring_entry_def splice_uring_entry_def accept_multi_uring_entry_def
  shutdown_uring_entry_def close_uring_entry_def unlink_uring_entry_def cancel_uring_entry_def fsync_uring_entry_def
  fdatasync_uring_entry_def timeout_uring_entry_def

text \<open>\<open>IoEntry::as_uring_entry\<close> and \<open>IoOperation::as_uring_entry\<close>.\<close>

definition entry_as_uring_entry ::
  "(bytes_mut \<Rightarrow> u8 list) \<Rightarrow> 'st io_entry \<Rightarrow> ('st uring_entry \<times> 'st io_entry) option" where
  "entry_as_uring_entry grow e =
     (case as_uring_entry grow (op_fd (entry_op e)) (op_type (entry_op e)) of
        None \<Rightarrow> None
      | Some (u, t) \<Rightarrow> Some (\<lparr>ue_op = u, ue_user_data = entry_key e\<rparr>, e\<lparr>entry_op := (entry_op e)\<lparr>op_type := t\<rparr>\<rparr>))"

section \<open>Properties\<close>

text \<open>The kernel writes data to the spare memory of a buffer.\<close>

definition fill :: "u8 list \<Rightarrow> bytes_mut \<Rightarrow> bytes_mut" where
  "fill data b = b\<lparr>spare := data @ drop (length data) (spare b)\<rparr>"

lemma read_completion_fill:
  assumes "length data \<le> length (spare b)" "spare b \<noteq> []"
  shows "\<exists>b'. read_completion env (Some (fill data b)) (length data) = ReadDone b' (length data) \<and>
    contents b' = contents b @ data \<and> capacity b' = capacity b"
  using assms
  by (auto simp: read_completion_def io_output_into_bytes_def chunk_mut_def fill_def advance_mut_def capacity_def Let_def)

text \<open>C38. A buffer handed to a read or a receive gets exactly the data, whatever it held and however much room
  it had. The entry names its spare memory, which is not empty, and the length of that memory; when the kernel
  has written up to that many bytes there and reports how many, the completion's buffer holds what it held
  before and then the data, and its capacity has not changed since the submission.\<close>

theorem read_buffer_gets_data:
  assumes "\<And>b. grow b \<noteq> []" "length (spare (chunk_mut grow b)) < 2 ^ 31"
    "mk \<in> {\<lambda>b. IoRead (Some b) off, \<lambda>b. IoRecv (Some b) flags}"
  shows "\<exists>u b'. entry_as_uring_entry grow \<lparr>entry_op = op\<lparr>op_type := mk b\<rparr>, entry_key = k\<rparr> =
        Some (u, \<lparr>entry_op = op\<lparr>op_type := mk b'\<rparr>, entry_key = k\<rparr>) \<and>
      ue_user_data u = k \<and> spare b' \<noteq> [] \<and>
      ue_op u \<in> {UringRead (op_fd op) (spare b') (of_nat (length (spare b'))) (of_nat off),
                  UringRecv (op_fd op) (spare b') (of_nat (length (spare b'))) flags} \<and>
      (\<forall>data. length data \<le> length (spare b') \<longrightarrow>
        (\<exists>c. fst (op_complete env (op\<lparr>op_type := mk (fill data b')\<rparr>) (of_nat (length data))) =
              Inr (ReadDone c (length data)) \<and>
            contents c = contents b @ data \<and> capacity c = capacity b'))"
proof -
  let ?b = "chunk_mut grow b"
  have b: "spare ?b \<noteq> []" "contents ?b = contents b" using assms(1) by (auto simp: chunk_mut_def)
  have fit: "unat (of_nat (length data) :: u32) = length data" "\<not> sint (of_nat (length data) :: i32) < 0"
    if "length data \<le> length (spare ?b)" for data :: "u8 list"
  proof -
    have "length data < 2 ^ 31" using that assms(2) by simp
    then show "unat (of_nat (length data) :: u32) = length data" by (simp add: unat_of_nat take_bit_nat_eq_self)
    show "\<not> sint (of_nat (length data) :: i32) < 0"
      using sint_sbintrunc' [where 'a = 32, of "int (length data)"] \<open>length data < 2 ^ 31\<close>
      by (simp add: signed_take_bit_int_eq_self)
  qed
  have "\<exists>c. read_completion env (Some (fill data ?b)) (length data) = ReadDone c (length data) \<and>
      contents c = contents b @ data \<and> capacity c = capacity ?b"
    if "length data \<le> length (spare ?b)" for data and env
    using read_completion_fill [OF that b(1), of env] b(2) by simp
  then have "\<exists>c. fst (op_complete env (op\<lparr>op_type := mk (fill data ?b)\<rparr>) (of_nat (length data))) = Inr (ReadDone c (length data)) \<and>
      contents c = contents b @ data \<and> capacity c = capacity ?b"
    if "length data \<le> length (spare ?b)" for data
    using that fit [OF that] assms(3) by (auto simp: op_complete_def)
  with assms(3) b(1) show ?thesis
    unfolding entry_as_uring_entry_def by (intro exI [where x = "the (map_option fst (entry_as_uring_entry grow \<lparr>entry_op = op\<lparr>op_type := mk b\<rparr>, entry_key = k\<rparr>))"] exI [where x = ?b]) (auto simp: Let_def entry_as_uring_entry_def uring_entry_defs)
qed

theorem read_buffer_gets_data_witness:
  "\<exists>u b'. entry_as_uring_entry (\<lambda>_. [0, 0]) \<lparr>entry_op = op_read_into 3 \<lparr>contents = [9], spare = []\<rparr> :: unit io_operation, entry_key = 7\<rparr> =
      Some (u, \<lparr>entry_op = op_read_into 3 b', entry_key = 7\<rparr>) \<and> ue_user_data u = 7 \<and> spare b' \<noteq> []"
  using read_buffer_gets_data [where grow = "\<lambda>_. [0, 0]" and b = "\<lparr>contents = [9], spare = []\<rparr>" and
      mk = "\<lambda>b. IoRead (Some b) 0" and off = 0 and op = "op_read_into 3 bytes_mut_new :: unit io_operation" and k = 7]
  unfolding op_read_into_def op_read_at_into_def by (simp add: chunk_mut_def) blast

text \<open>Every entry carries the key of its operation, by which its completion is found; making it fails only
  for an operation whose buffer or path was taken, and leaves the operation complete again: one that owns
  its buffers owns them still.\<close>

theorem uring_entry_keyed:
  "case entry_as_uring_entry grow e of
     None \<Rightarrow> \<not> armed (op_type (entry_op e)) \<or> (\<exists>s. op_type (entry_op e) = IoOpenAt None s)
   | Some (u, e') \<Rightarrow> ue_user_data u = entry_key e \<and> entry_key e' = entry_key e \<and>
       op_fd (entry_op e') = op_fd (entry_op e) \<and> op_duration (entry_op e') = op_duration (entry_op e) \<and>
       (armed (op_type (entry_op e)) \<longrightarrow> armed (op_type (entry_op e')))"
  by (cases "op_type (entry_op e)") (auto simp: entry_as_uring_entry_def uring_entry_defs Let_def split: option.split)

end
