(* ===== verification/Fs_Stats.thy ===== *)
theory Fs_Stats
  imports Io_Recovery
begin

text \<open>
  File statistics (\<open>src/io/fs/stats.rs\<close>): what is read of a \<open>statx\<close> result under a mask, times, and the sum of
  two statistics. A point in time is its nanoseconds since the epoch. Integer overflow panics; a panic is
  \<open>None\<close>.
\<close>

section \<open>The kernel's result\<close>

record statx_timestamp =
  tv_sec :: i64
  tv_nsec :: u32

record statx =
  stx_mode :: u16
  stx_nlink :: u32
  stx_uid :: u32
  stx_gid :: u32
  stx_ino :: u64
  stx_size :: u64
  stx_blocks :: u64
  stx_blksize :: u32
  stx_atime :: statx_timestamp
  stx_mtime :: statx_timestamp
  stx_ctime :: statx_timestamp
  stx_btime :: statx_timestamp
  stx_rdev_major :: u32
  stx_rdev_minor :: u32
  stx_dev_major :: u32
  stx_dev_minor :: u32
  stx_mnt_id :: u64
  stx_dio_mem_align :: u32
  stx_dio_offset_align :: u32

section \<open>Statistics\<close>

record stats =
  st_mode :: "file_mode option"
  st_descriptor_type :: "u32 option"
  st_n_links :: "u32 option"
  st_user_id :: "u32 option"
  st_group_id :: "u32 option"
  st_inode :: "u64 option"
  st_size :: "u64 option"
  st_block_count :: "u64 option"
  st_block_size :: "u32 option"
  st_last_access_time :: "int option"
  st_last_modification_time :: "int option"
  st_last_status_change_time :: "int option"
  st_creation_time :: "int option"
  st_rdev_major :: "u32 option"
  st_rdev_minor :: "u32 option"
  st_device_id_major :: "u32 option"
  st_device_id_minor :: "u32 option"
  st_mount_id :: "u64 option"
  st_direct_io_memory_alignment :: "u32 option"
  st_direct_io_offset_alignment :: "u32 option"

definition stats_default :: stats where
  "stats_default =
     \<lparr>st_mode = None, st_descriptor_type = None, st_n_links = None, st_user_id = None, st_group_id = None,
      st_inode = None, st_size = None, st_block_count = None, st_block_size = None,
      st_last_access_time = None, st_last_modification_time = None, st_last_status_change_time = None,
      st_creation_time = None, st_rdev_major = None, st_rdev_minor = None, st_device_id_major = None,
      st_device_id_minor = None, st_mount_id = None, st_direct_io_memory_alignment = None,
      st_direct_io_offset_alignment = None\<rparr>"

definition TYPE_OR_MODE :: u32 where "TYPE_OR_MODE = STATX_TYPE OR STATX_MODE"

definition statx_mask :: "u32 \<Rightarrow> u32 \<Rightarrow> 'a \<Rightarrow> 'a option" where
  "statx_mask m flag v = (if flags_contain m flag then Some v else None)"

text \<open>\<open>SystemTime\<close> holds the times whose seconds fit 64 bits; \<open>checked_add\<close> and \<open>checked_sub\<close> give none else.\<close>

definition nanos_per_sec :: int where "nanos_per_sec = 1000000000"

definition checked_system_time :: "int \<Rightarrow> int option" where
  "checked_system_time n =
     (if - (2 ^ 63) \<le> n div nanos_per_sec \<and> n div nanos_per_sec < 2 ^ 63 then Some n else None)"

definition statx_time :: "statx_timestamp \<Rightarrow> int option option" where
  "statx_time t =
     (if 0 \<le> sint (tv_sec t) then Some (checked_system_time (sint (tv_sec t) * nanos_per_sec + uint (tv_nsec t)))
      else if sint (tv_sec t) = - (2 ^ 63) then None
      else
        (let secs_before_epoch = - sint (tv_sec t) in
         if tv_nsec t = 0 then Some (checked_system_time (- (secs_before_epoch * nanos_per_sec)))
         else if nanos_per_sec < uint (tv_nsec t) then None
         else Some (checked_system_time
                (- ((secs_before_epoch - 1) * nanos_per_sec + (nanos_per_sec - uint (tv_nsec t)))))))"

definition statx_mask_time :: "u32 \<Rightarrow> u32 \<Rightarrow> statx_timestamp \<Rightarrow> int option option" where
  "statx_mask_time m flag t = (case statx_mask m flag t of None \<Rightarrow> Some None | Some t \<Rightarrow> statx_time t)"

definition stats_new :: "statx \<Rightarrow> u32 \<Rightarrow> stats option" where
  "stats_new st m =
     Option.bind (statx_mask_time m STATX_ATIME (stx_atime st)) (\<lambda>atime.
     Option.bind (statx_mask_time m STATX_MTIME (stx_mtime st)) (\<lambda>mtime.
     Option.bind (statx_mask_time m STATX_CTIME (stx_ctime st)) (\<lambda>ctime.
     Option.bind (statx_mask_time m STATX_BTIME (stx_btime st)) (\<lambda>btime.
     Some
       \<lparr>st_mode = map_option (\<lambda>v. file_mode_of_mode_t (ucast v)) (statx_mask m TYPE_OR_MODE (stx_mode st)),
        st_descriptor_type = statx_mask m TYPE_OR_MODE (descriptor_type_of_mode (ucast (stx_mode st))),
        st_n_links = statx_mask m STATX_NLINK (stx_nlink st),
        st_user_id = statx_mask m STATX_UID (stx_uid st),
        st_group_id = statx_mask m STATX_GID (stx_gid st),
        st_inode = statx_mask m STATX_INO (stx_ino st),
        st_size = statx_mask m STATX_SIZE (stx_size st),
        st_block_count = statx_mask m STATX_BLOCKS (stx_blocks st),
        st_block_size = statx_mask m STATX_BLOCKS (stx_blksize st),
        st_last_access_time = atime, st_last_modification_time = mtime,
        st_last_status_change_time = ctime, st_creation_time = btime,
        st_rdev_major = statx_mask m TYPE_OR_MODE (stx_rdev_major st),
        st_rdev_minor = statx_mask m TYPE_OR_MODE (stx_rdev_minor st),
        st_device_id_major = statx_mask m STATX_INO (stx_dev_major st),
        st_device_id_minor = statx_mask m STATX_INO (stx_dev_minor st),
        st_mount_id = statx_mask m STATX_MNT_ID (stx_mnt_id st),
        st_direct_io_memory_alignment = statx_mask m STATX_DIOALIGN (stx_dio_mem_align st),
        st_direct_io_offset_alignment = statx_mask m STATX_DIOALIGN (stx_dio_offset_align st)\<rparr>))))"

definition or_option :: "'a option \<Rightarrow> 'a option \<Rightarrow> 'a option" where
  "or_option a b = (case a of None \<Rightarrow> b | Some _ \<Rightarrow> a)"

definition stats_add :: "stats \<Rightarrow> stats \<Rightarrow> stats" where
  "stats_add a b =
     \<lparr>st_mode = or_option (st_mode a) (st_mode b),
      st_descriptor_type = or_option (st_descriptor_type a) (st_descriptor_type b),
      st_n_links = or_option (st_n_links a) (st_n_links b),
      st_user_id = or_option (st_user_id a) (st_user_id b),
      st_group_id = or_option (st_group_id a) (st_group_id b),
      st_inode = or_option (st_inode a) (st_inode b),
      st_size = or_option (st_size a) (st_size b),
      st_block_count = or_option (st_block_count a) (st_block_count b),
      st_block_size = or_option (st_block_size a) (st_block_size b),
      st_last_access_time = or_option (st_last_access_time a) (st_last_access_time b),
      st_last_modification_time = or_option (st_last_modification_time a) (st_last_modification_time b),
      st_last_status_change_time = or_option (st_last_status_change_time a) (st_last_status_change_time b),
      st_creation_time = or_option (st_creation_time a) (st_creation_time b),
      st_rdev_major = or_option (st_rdev_major a) (st_rdev_major b),
      st_rdev_minor = or_option (st_rdev_minor a) (st_rdev_minor b),
      st_device_id_major = or_option (st_device_id_major a) (st_device_id_major b),
      st_device_id_minor = or_option (st_device_id_minor a) (st_device_id_minor b),
      st_mount_id = or_option (st_mount_id a) (st_mount_id b),
      st_direct_io_memory_alignment = or_option (st_direct_io_memory_alignment a) (st_direct_io_memory_alignment b),
      st_direct_io_offset_alignment = or_option (st_direct_io_offset_alignment a) (st_direct_io_offset_alignment b)\<rparr>"

text \<open>\<open>TryFromCompletion for Stats\<close>; the outer \<open>None\<close> is the panic.\<close>

fun stats_of_completion :: "statx io_completion \<Rightarrow> stats option option" where
  "stats_of_completion (StatsDone st m) = map_option Some (stats_new st m)"
| "stats_of_completion _ = Some None"

section \<open>Properties\<close>

text \<open>The time read of the kernel's seconds and nanoseconds is exactly the point in time they name, before and
  after the epoch alike: for nanoseconds below one second, as the kernel gives them, the conversion neither
  panics nor loses the time, but for the one earliest second, where negating it overflows.\<close>

theorem statx_time_exact:
  assumes "uint (tv_nsec t) < nanos_per_sec"
  shows "statx_time t =
    (if sint (tv_sec t) = - (2 ^ 63) then None
     else Some (Some (sint (tv_sec t) * nanos_per_sec + uint (tv_nsec t))))"
proof -
  let ?s = "sint (tv_sec t)" and ?n = "uint (tv_nsec t)"
  have n: "0 \<le> ?n" "?n < nanos_per_sec" using assms by auto
  have "- (2 ^ 63) \<le> ?s" "?s < 2 ^ 63" using sint_ge [of "tv_sec t"] sint_lt [of "tv_sec t"] by simp_all
  moreover have "(?s * nanos_per_sec + ?n) div nanos_per_sec = ?s"
    using n by (simp add: nanos_per_sec_def)
  ultimately have "checked_system_time (?s * nanos_per_sec + ?n) = Some (?s * nanos_per_sec + ?n)"
    by (simp add: checked_system_time_def)
  moreover have eq: "?n - nanos_per_sec - (- ?s - 1) * nanos_per_sec = ?s * nanos_per_sec + ?n"
    by (simp add: algebra_simps)
  moreover have "tv_nsec t = 0 \<longleftrightarrow> ?n = 0" by (simp add: uint_0_iff)
  ultimately show ?thesis
    using n by (cases "?n = 0") (simp_all add: statx_time_def Let_def eq)
qed

theorem statx_time_exact_witness:
  "statx_time \<lparr>tv_sec = - 2, tv_nsec = 250000000\<rparr> = Some (Some (- 1750000000))"
  using statx_time_exact [of "\<lparr>tv_sec = - 2, tv_nsec = 250000000\<rparr>"] by (simp add: nanos_per_sec_def)

lemma flags_contain_or:
  assumes "n < LENGTH('a)"
  shows "flags_contain (a OR b) (push_bit n 1) \<longleftrightarrow> flags_contain a (push_bit n 1) \<or> flags_contain (b :: 'a::len word) (push_bit n 1)"
proof -
  have "flags_contain x (push_bit n 1) \<longleftrightarrow> bit x n" for x :: "'a word"
  proof
    assume "flags_contain x (push_bit n 1)"
    then have "bit (x AND push_bit n 1) n" using assms by (simp add: flags_contain_def bit_simps)
    then show "bit x n" by (simp add: bit_simps)
  next
    assume "bit x n"
    then show "flags_contain x (push_bit n 1)"
      unfolding flags_contain_def by (intro bit_word_eqI) (auto simp: bit_simps)
  qed
  then show ?thesis by (simp add: bit_simps)
qed

lemmas single_flags =
  flags_contain_or [where 'a = 32, of 2, simplified]
  flags_contain_or [where 'a = 32, of 3, simplified]
  flags_contain_or [where 'a = 32, of 4, simplified]
  flags_contain_or [where 'a = 32, of 5, simplified]
  flags_contain_or [where 'a = 32, of 6, simplified]
  flags_contain_or [where 'a = 32, of 7, simplified]
  flags_contain_or [where 'a = 32, of 8, simplified]
  flags_contain_or [where 'a = 32, of 9, simplified]
  flags_contain_or [where 'a = 32, of 10, simplified]
  flags_contain_or [where 'a = 32, of 11, simplified]
  flags_contain_or [where 'a = 32, of 12, simplified]
  flags_contain_or [where 'a = 32, of 13, simplified]

lemma flags_contain_mono:
  assumes "flags_contain (a :: 'a::len word) f"
  shows "flags_contain (a OR b) f"
proof -
  have "bit a n" if "bit f n" for n using assms that by (metis bit_and_iff flags_contain_def)
  then show ?thesis unfolding flags_contain_def by (intro bit_word_eqI) (auto simp: bit_simps)
qed

lemma map_or_option: "map_option f (or_option x y) = or_option (map_option f x) (map_option f y)"
  by (simp add: or_option_def split: option.split)

lemma statx_mask_or:
  "flags_contain (a OR b) flag \<longleftrightarrow> flags_contain a flag \<or> flags_contain b flag \<Longrightarrow>
     statx_mask (a OR b) flag v = or_option (statx_mask a flag v) (statx_mask b flag v)"
  by (simp add: statx_mask_def or_option_def)

lemma statx_mask_time_or:
  assumes "flags_contain (a OR b) flag \<longleftrightarrow> flags_contain a flag \<or> flags_contain b flag"
    "statx_mask_time a flag t = Some x" "statx_mask_time b flag t = Some y"
  shows "statx_mask_time (a OR b) flag t = Some (or_option x y)"
  using assms by (auto simp: statx_mask_time_def statx_mask_def or_option_def statx_time_def Let_def
      split: if_splits option.splits)

text \<open>Statistics asked for in two parts add up to those asked for at once: the sum of what is read under two
  masks is what is read under their union, unless the bits for the type and for the mode come from different
  masks, as the sum then lacks what the union has.\<close>

theorem stats_add_masks:
  assumes "stats_new st a = Some s" "stats_new st b = Some s'"
    "flags_contain (a OR b) TYPE_OR_MODE \<longrightarrow> flags_contain a TYPE_OR_MODE \<or> flags_contain b TYPE_OR_MODE"
  shows "stats_new st (a OR b) = Some (stats_add s s')"
proof -
  have type: "flags_contain (a OR b) TYPE_OR_MODE \<longleftrightarrow> flags_contain a TYPE_OR_MODE \<or> flags_contain b TYPE_OR_MODE"
    using assms(3) flags_contain_mono [of a TYPE_OR_MODE b] flags_contain_mono [of b TYPE_OR_MODE a]
    by (auto simp: or.commute)
  obtain t1 t2 t3 t4 where a: "statx_mask_time a STATX_ATIME (stx_atime st) = Some t1"
    "statx_mask_time a STATX_MTIME (stx_mtime st) = Some t2" "statx_mask_time a STATX_CTIME (stx_ctime st) = Some t3"
    "statx_mask_time a STATX_BTIME (stx_btime st) = Some t4"
    using assms(1) by (auto simp: stats_new_def bind_eq_Some_conv)
  obtain u1 u2 u3 u4 where b: "statx_mask_time b STATX_ATIME (stx_atime st) = Some u1"
    "statx_mask_time b STATX_MTIME (stx_mtime st) = Some u2" "statx_mask_time b STATX_CTIME (stx_ctime st) = Some u3"
    "statx_mask_time b STATX_BTIME (stx_btime st) = Some u4"
    using assms(2) by (auto simp: stats_new_def bind_eq_Some_conv)
  note times = statx_mask_time_or [OF single_flags(4) a(1) b(1)] statx_mask_time_or [OF single_flags(5) a(2) b(2)]
    statx_mask_time_or [OF single_flags(6) a(3) b(3)] statx_mask_time_or [OF single_flags(10) a(4) b(4)]
  note masks = statx_mask_or [OF type] single_flags [THEN statx_mask_or]
  have s: "stats_new st a = Some s" "stats_new st b = Some s'" using assms(1,2) .
  show ?thesis
    using s unfolding stats_new_def a b times masks by (auto simp: stats_add_def map_or_option)
qed

definition demo_statx :: statx where
  "demo_statx =
     \<lparr>stx_mode = 0x81a4, stx_nlink = 1, stx_uid = 0, stx_gid = 0, stx_ino = 12, stx_size = 4096, stx_blocks = 8,
      stx_blksize = 4096, stx_atime = \<lparr>tv_sec = 5, tv_nsec = 0\<rparr>, stx_mtime = \<lparr>tv_sec = 6, tv_nsec = 0\<rparr>,
      stx_ctime = \<lparr>tv_sec = 7, tv_nsec = 0\<rparr>, stx_btime = \<lparr>tv_sec = 8, tv_nsec = 0\<rparr>, stx_rdev_major = 0,
      stx_rdev_minor = 0, stx_dev_major = 0, stx_dev_minor = 0, stx_mnt_id = 0, stx_dio_mem_align = 0,
      stx_dio_offset_align = 0\<rparr>"

theorem stats_add_masks_witness:
  "\<exists>s s'. stats_new demo_statx STATX_SIZE = Some s \<and> stats_new demo_statx STATX_NLINK = Some s' \<and>
     stats_new demo_statx (STATX_SIZE OR STATX_NLINK) = Some (stats_add s s')"
proof -
  have "\<exists>s. stats_new demo_statx STATX_SIZE = Some s" "\<exists>s. stats_new demo_statx STATX_NLINK = Some s"
    by (simp_all add: stats_new_def statx_mask_time_def statx_mask_def flags_contain_def)
  moreover have "\<not> flags_contain (STATX_SIZE OR STATX_NLINK :: u32) TYPE_OR_MODE"
    by (simp add: flags_contain_def TYPE_OR_MODE_def)
  ultimately show ?thesis using stats_add_masks [of demo_statx STATX_SIZE _ STATX_NLINK] by blast
qed

end
