(* ===== verification/Fs_Path.thy ===== *)
theory Fs_Path
  imports Prelude
begin

text \<open>
  \<open>Path::parent\<close> of the standard library, as the file-system code uses it: a path is its bytes; its components
  are read from the back, where repeated separators and inner \<open>.\<close> components do not count.
\<close>

definition slash :: u8 where "slash = 47"
definition dot :: u8 where "dot = 46"

definition has_root :: "u8 list \<Rightarrow> bool" where
  "has_root p \<longleftrightarrow> p \<noteq> [] \<and> hd p = slash"

definition include_cur_dir :: "u8 list \<Rightarrow> bool" where
  "include_cur_dir p \<longleftrightarrow> p = [dot] \<or> take 2 p = [dot, slash]"

definition len_before_body :: "u8 list \<Rightarrow> nat" where
  "len_before_body p = (if has_root p \<or> include_cur_dir p then 1 else 0)"

text \<open>\<open>parse_next_component_back\<close>: the bytes of the last component, and how many to drop with it.\<close>

definition last_component :: "nat \<Rightarrow> u8 list \<Rightarrow> nat \<times> u8 list" where
  "last_component start p =
     (let body = drop start p; c = rev (takeWhile (\<lambda>b. b \<noteq> slash) (rev body)) in
      (length c + (if length c < length body then 1 else 0), c))"

definition is_component :: "u8 list \<Rightarrow> bool" where
  "is_component c \<longleftrightarrow> c \<noteq> [] \<and> c \<noteq> [dot]"

text \<open>\<open>trim_right\<close>, with a round for every byte.\<close>

fun trim_right :: "nat \<Rightarrow> nat \<Rightarrow> u8 list \<Rightarrow> u8 list" where
  "trim_right 0 start p = p"
| "trim_right (Suc n) start p =
     (if start < length p then
        (let (k, c) = last_component start p in
         if is_component c then p else trim_right n start (take (length p - k) p))
      else p)"

text \<open>\<open>Components::next_back\<close> over the body: the path without its last component, if it has one.\<close>

fun drop_component :: "nat \<Rightarrow> nat \<Rightarrow> u8 list \<Rightarrow> u8 list option" where
  "drop_component 0 start p = None"
| "drop_component (Suc n) start p =
     (if start < length p then
        (let (k, c) = last_component start p; rest = take (length p - k) p in
         if is_component c then Some rest else drop_component n start rest)
      else None)"

definition path_parent :: "u8 list \<Rightarrow> u8 list option" where
  "path_parent p =
     (let start = len_before_body p in
      case drop_component (length p) start p of
        Some rest \<Rightarrow> Some (trim_right (length rest) start rest)
      | None \<Rightarrow> if has_root p then None else if include_cur_dir p then Some [] else None)"

lemma last_component_size:
  "start < length p \<Longrightarrow> last_component start p = (k, c) \<Longrightarrow> 0 < k \<and> k \<le> length p - start"
proof -
  assume a: "start < length p" "last_component start p = (k, c)"
  let ?body = "drop start p" and ?c = "takeWhile (\<lambda>c. c \<noteq> slash) (rev (drop start p))"
  have "length ?c \<le> length ?body" by (metis length_rev length_takeWhile_le)
  with a show ?thesis by (auto simp: last_component_def Let_def split: if_splits)
qed

lemma trim_right_length: "length (trim_right n start p) \<le> length p"
proof (induction n arbitrary: p)
  case (Suc n)
  obtain k c where kc: "last_component start p = (k, c)" by fastforce
  show ?case using Suc [of "take (length p - k) p"] by (auto simp: kc intro: le_trans)
qed simp

lemma drop_component_length: "drop_component n start p = Some q \<Longrightarrow> length q < length p"
proof (induction n arbitrary: p)
  case (Suc n)
  obtain k c where kc: "last_component start p = (k, c)" by fastforce
  show ?case
    using Suc.IH [of "take (length p - k) p"] Suc.prems last_component_size [OF _ kc]
    by (auto simp: kc Let_def split: if_splits)
qed simp

lemma path_parent_length: "path_parent p = Some q \<Longrightarrow> length q < length p"
  using drop_component_length [of "length p" "len_before_body p" p] trim_right_length
  by (auto simp: path_parent_def Let_def include_cur_dir_def split: option.splits if_splits intro: le_less_trans)

end
