(* ===== verification/Fs.thy ===== *)
theory Fs
  imports Fs_Stats Fs_Path Io_Async
begin

text \<open>
  Files and directories (\<open>src/io/fs/directory.rs\<close>, \<open>file.rs\<close>, \<open>mod.rs\<close>). Every method awaits the futures of a few
  operations in turn. What the pool and the kernel make of an operation is an argument: it gives the refusal of
  the dispatch or the operation's result, and the world after it. A panic is \<open>None\<close>.
\<close>

section \<open>Awaiting operations\<close>

type_synonym ('f, 'w) kernel =
  "statx io_operation \<Rightarrow> 'w \<Rightarrow> (('f, statx) submit_error + statx io_completion_result) \<times> 'w"

type_synonym ('w, 'a) action = "'w \<Rightarrow> ('a \<times> 'w) option"

definition await ::
  "('f, 'w) kernel \<Rightarrow> (statx io_completion \<Rightarrow> 'a option option) \<Rightarrow> ('f, statx) submit_error + statx io_operation
    \<Rightarrow> ('w, ('f, statx) io_error + 'a) action" where
  "await k conv op w =
     (case op of
        Inl e \<Rightarrow> Some (Inl (SubmissionError e), w)
      | Inr op \<Rightarrow>
          (case k op w of
             (Inl e, w) \<Rightarrow> Some (Inl (SubmissionError e), w)
           | (Inr (Inl e), w) \<Rightarrow> Some (Inl (OperationError e), w)
           | (Inr (Inr c), w) \<Rightarrow>
               map_option (\<lambda>r. (ok_or (ProcessingError (UnexpectedCompletionResult
                   ''Io operation future got unexpected completion type'')) r, w)) (conv c)))"

text \<open>The \<open>?\<close> operator after an awaited call.\<close>

definition and_then :: "('w, 'e + 'a) action \<Rightarrow> ('a \<Rightarrow> ('w, 'e + 'b) action) \<Rightarrow> ('w, 'e + 'b) action" where
  "and_then a f w =
     (case a w of None \<Rightarrow> None | Some (Inl e, w) \<Rightarrow> Some (Inl e, w) | Some (Inr x, w) \<Rightarrow> f x w)"

definition act_err :: "('e \<Rightarrow> 'd) \<Rightarrow> ('w, 'e + 'a) action \<Rightarrow> ('w, 'd + 'a) action" where
  "act_err f a w = map_option (map_prod (map_err f) id) (a w)"

section \<open>Directories\<close>

record directory =
  dir_fd :: raw_fd
  dir_path :: "u8 list"

record fs_file =
  file_fd :: raw_fd
  file_path :: "u8 list"

datatype 'f mkdir_error =
    MkdirIoError "('f, statx) io_error"
  | MkdirNotADirectory
  | FailedToRetrieveDescriptorType "u8 list"

fun mkdir_as_os_error :: "'f mkdir_error \<Rightarrow> os_error option" where
  "mkdir_as_os_error (MkdirIoError e) = io_into_os_error e"
| "mkdir_as_os_error _ = None"

datatype 'f open_directory_error =
    OpenDirectoryMkdirError "'f mkdir_error"
  | OpenDirectoryError "('f, statx) io_error"

abbreviation unit_result :: "statx io_completion \<Rightarrow> unit option option" where
  "unit_result c \<equiv> Some (unit_of_completion c)"

fun directory_of_completion :: "statx io_completion \<Rightarrow> directory option" where
  "directory_of_completion (FileDone fd path) = Some \<lparr>dir_fd = fd, dir_path = path\<rparr>"
| "directory_of_completion _ = None"

fun file_of_completion :: "statx io_completion \<Rightarrow> fs_file option" where
  "file_of_completion (FileDone fd path) = Some \<lparr>file_fd = fd, file_path = path\<rparr>"
| "file_of_completion _ = None"

text \<open>\<open>zeroed\<close> is the result structure before the kernel fills it.\<close>

definition mkdir :: "('f, 'w) kernel \<Rightarrow> statx \<Rightarrow> u8 list \<Rightarrow> file_mode \<Rightarrow> ('w, 'f mkdir_error + unit) action" where
  "mkdir k zeroed path desired_mode w =
     (case await k unit_result (op_mkdir path (mode_to_directory_safe desired_mode) SingleShot) w of
        None \<Rightarrow> None
      | Some (Inr _, w) \<Rightarrow> Some (Inr (), w)
      | Some (Inl e, w) \<Rightarrow>
          (if io_into_os_error e = Some AlreadyExists then
             and_then
               (act_err MkdirIoError (await k stats_of_completion (op_stats_path zeroed path 0 STATX_TYPE)))
               (\<lambda>s w. Some
                  (case st_descriptor_type s of
                     Some t \<Rightarrow> if t = S_IFDIR then Inr () else Inl MkdirNotADirectory
                   | None \<Rightarrow> Inl (FailedToRetrieveDescriptorType path), w))
               w
           else Some (Inl (MkdirIoError e), w)))"

text \<open>\<open>Path\<close>'s equality goes by components; a parent has one component less than its path, so it differs from it
  as it does by bytes.\<close>

function mkdir_recursive ::
  "('f, 'w) kernel \<Rightarrow> statx \<Rightarrow> file_mode \<Rightarrow> u8 list \<Rightarrow> ('w, 'f mkdir_error + unit) action" where
  "mkdir_recursive k zeroed desired_mode path w =
     (case mkdir k zeroed path desired_mode w of
        None \<Rightarrow> None
      | Some (Inr _, w) \<Rightarrow> Some (Inr (), w)
      | Some (Inl e, w) \<Rightarrow>
          (if mkdir_as_os_error e = Some NotFound then
             (case path_parent path of
                Some parent \<Rightarrow>
                  (if parent = path \<or> parent = [] then Some (Inl e, w)
                   else
                     (case mkdir_recursive k zeroed desired_mode parent w of
                        None \<Rightarrow> None
                      | Some (Inl e, w) \<Rightarrow> Some (Inl e, w)
                      | Some (Inr _, w) \<Rightarrow> mkdir k zeroed path desired_mode w))
              | None \<Rightarrow> Some (Inl e, w))
           else Some (Inl e, w)))"
  by pat_completeness auto
termination by (relation "measure (\<lambda>(_, _, _, path, _). length path)") (auto dest: path_parent_length)

declare mkdir_recursive.simps [simp del]

definition open_existing :: "('f, 'w) kernel \<Rightarrow> u8 list \<Rightarrow> i32 \<Rightarrow> u64 \<Rightarrow> ('w, ('f, statx) io_error + directory) action" where
  "open_existing k path flags resolve =
     await k (\<lambda>c. Some (directory_of_completion c)) (op_open path (open_settings_new_dir flags resolve))"

definition directory_open ::
  "('f, 'w) kernel \<Rightarrow> statx \<Rightarrow> u8 list \<Rightarrow> i32 \<Rightarrow> u64 \<Rightarrow> file_mode
    \<Rightarrow> ('w, 'f open_directory_error + directory) action" where
  "directory_open k zeroed path flags resolve desired_mode =
     and_then (act_err OpenDirectoryMkdirError (mkdir_recursive k zeroed desired_mode path))
       (\<lambda>_. act_err OpenDirectoryError (open_existing k path flags resolve))"

text \<open>A path with a zero byte is refused; else \<open>openat\<close>, an argument, gives an error number or a descriptor.\<close>

definition open_existing_sync ::
  "(raw_fd \<Rightarrow> u8 list \<Rightarrow> i32 \<Rightarrow> i32 + raw_fd) \<Rightarrow> u8 list \<Rightarrow> i32 \<Rightarrow> ('f, statx) io_error + directory" where
  "open_existing_sync openat path flags =
     bind_result (submission (c_string path)) (\<lambda>p.
     map_ok (\<lambda>fd. \<lparr>dir_fd = fd, dir_path = path\<rparr>)
       (map_err (\<lambda>e. io_error_of_os (os_error_of_i32 e)) (openat AT_FDCWD p (flags OR O_DIRECTORY OR O_CLOEXEC))))"

definition directory_stats ::
  "('f, 'w) kernel \<Rightarrow> statx \<Rightarrow> directory \<Rightarrow> i32 \<Rightarrow> u32 \<Rightarrow> ('w, ('f, statx) io_error + stats) action" where
  "directory_stats k zeroed d flags m = await k stats_of_completion (op_stats_fd zeroed (dir_fd d) flags m)"

section \<open>Directory streams\<close>

text \<open>A stream holds what \<open>readdir\<close> gives next, an entry or an error number; at the end it gives no entry.\<close>

record dirent =
  d_name :: "u8 list"
  d_type :: u8

record directory_entry =
  entry_name :: "u8 list"
  entry_dtype :: u32

type_synonym directory_stream = "(i32 + dirent) list"

fun stream_next :: "directory_stream \<Rightarrow> (os_error + directory_entry) option \<times> directory_stream" where
  "stream_next [] = (None, [])"
| "stream_next (Inl errno # ds) = (if errno \<noteq> 0 then Some (Inl (os_error_of_i32 errno)) else None, ds)"
| "stream_next (Inr d # ds) =
     (if d_name d = [dot] \<or> d_name d = [dot, dot] then stream_next ds
      else (Some (Inr \<lparr>entry_name = d_name d, entry_dtype = descriptor_type_of_dirent (d_type d)\<rparr>), ds))"

text \<open>\<open>iter\<close>: the results of \<open>dup\<close>, \<open>fdopendir\<close> and of the \<open>close\<close> after it failed are arguments.\<close>

definition directory_iter ::
  "(raw_fd \<Rightarrow> i32 + raw_fd) \<Rightarrow> (raw_fd \<Rightarrow> i32 + directory_stream) \<Rightarrow> (raw_fd \<Rightarrow> i32 + unit) \<Rightarrow> directory
    \<Rightarrow> os_error + directory_stream" where
  "directory_iter dup fdopendir close d =
     bind_result (map_err os_error_of_i32 (dup (dir_fd d))) (\<lambda>fd.
     case fdopendir fd of
       Inl e \<Rightarrow> bind_result (map_err os_error_of_i32 (close fd)) (\<lambda>_. Inl (os_error_of_i32 e))
     | Inr ds \<Rightarrow> Inr ds)"

section \<open>Files\<close>

datatype 'f file_open_error =
    InvalidFileOpenSettings open_settings
  | FailedToCreateDirectory "'f mkdir_error"
  | FileOpenIoError "('f, statx) io_error"

datatype 'f file_system_error =
    FsMkdirError "'f mkdir_error"
  | FsOpenFileError "'f file_open_error"
  | FsOpenDirectoryError "'f open_directory_error"

definition open_unchecked ::
  "('f, 'w) kernel \<Rightarrow> u8 list \<Rightarrow> open_settings \<Rightarrow> ('w, ('f, statx) io_error + fs_file) action" where
  "open_unchecked k path settings = await k (\<lambda>c. Some (file_of_completion c)) (op_open path settings)"

definition open_at_unchecked ::
  "('f, 'w) kernel \<Rightarrow> directory \<Rightarrow> u8 list \<Rightarrow> open_settings \<Rightarrow> ('w, ('f, statx) io_error + fs_file) action" where
  "open_at_unchecked k d path settings =
     await k (\<lambda>c. Some (file_of_completion c)) (op_open_at (dir_fd d) path settings)"

text \<open>What \<open>open\<close> and \<open>open_at\<close> share: when the file is not found and is to be created, its parent is, and the
  file is opened again.\<close>

definition open_or_create_parent ::
  "('f, 'w) kernel \<Rightarrow> statx \<Rightarrow> u8 list \<Rightarrow> open_settings \<Rightarrow> ('w, ('f, statx) io_error + fs_file) action
    \<Rightarrow> ('w, 'f file_open_error + fs_file) action" where
  "open_or_create_parent k zeroed path settings again w =
     (if is_dir settings then Some (Inl (InvalidFileOpenSettings settings), w)
      else
        (case again w of
           None \<Rightarrow> None
         | Some (Inr f, w) \<Rightarrow> Some (Inr f, w)
         | Some (Inl e, w) \<Rightarrow>
             (case (io_into_os_error e = Some NotFound, os_mode settings, path_parent path) of
                (True, Create m, Some parent) \<Rightarrow>
                  and_then (act_err FailedToCreateDirectory (mkdir_recursive k zeroed m parent))
                    (\<lambda>_. act_err FileOpenIoError again) w
              | _ \<Rightarrow> Some (Inl (FileOpenIoError e), w))))"

definition file_open ::
  "('f, 'w) kernel \<Rightarrow> statx \<Rightarrow> u8 list \<Rightarrow> open_settings \<Rightarrow> ('w, 'f file_open_error + fs_file) action" where
  "file_open k zeroed path settings = open_or_create_parent k zeroed path settings (open_unchecked k path settings)"

definition file_open_at ::
  "('f, 'w) kernel \<Rightarrow> statx \<Rightarrow> directory \<Rightarrow> u8 list \<Rightarrow> open_settings \<Rightarrow> ('w, 'f file_open_error + fs_file) action" where
  "file_open_at k zeroed d path settings =
     open_or_create_parent k zeroed path settings (open_at_unchecked k d path settings)"

definition directory_open_file ::
  "('f, 'w) kernel \<Rightarrow> statx \<Rightarrow> directory \<Rightarrow> u8 list \<Rightarrow> open_settings \<Rightarrow> ('w, 'f file_open_error + fs_file) action" where
  "directory_open_file k zeroed d subpath settings = file_open_at k zeroed d subpath settings"

text \<open>\<open>openat\<close> gets the mode when it is to create the file.\<close>

definition file_open_sync ::
  "(raw_fd \<Rightarrow> u8 list \<Rightarrow> i32 \<Rightarrow> u32 option \<Rightarrow> i32 + raw_fd) \<Rightarrow> u8 list \<Rightarrow> i32 \<Rightarrow> access_type \<Rightarrow> create_mode
    \<Rightarrow> ('f, statx) io_error + fs_file" where
  "file_open_sync openat path flags access m =
     bind_result (submission (c_string path)) (\<lambda>p.
     map_ok (\<lambda>fd. \<lparr>file_fd = fd, file_path = path\<rparr>)
       (map_err (\<lambda>e. io_error_of_os (os_error_of_i32 e))
         (case m of
            DoNotCreate \<Rightarrow> openat AT_FDCWD p (access_bits access OR flags) None
          | Create mode \<Rightarrow>
              openat AT_FDCWD p (access_bits access OR flags OR O_CREAT) (Some (mode_t_of_file_mode mode)))))"

text \<open>The result and the file afterwards.\<close>

definition set_path :: "('f, 'w) kernel \<Rightarrow> fs_file \<Rightarrow> u8 list \<Rightarrow> ('w, (('f, statx) io_error + unit) \<times> fs_file) action" where
  "set_path k f new_path w =
     map_option (\<lambda>(r, w). ((r, if is_ok r then f\<lparr>file_path := new_path\<rparr> else f), w))
       (await k unit_result (op_rename (file_path f) new_path SingleShot) w)"

definition file_stats ::
  "('f, 'w) kernel \<Rightarrow> statx \<Rightarrow> fs_file \<Rightarrow> i32 \<Rightarrow> u32 \<Rightarrow> ('w, ('f, statx) io_error + stats) action" where
  "file_stats k zeroed f flags m = await k stats_of_completion (op_stats_fd zeroed (file_fd f) flags m)"

definition read_all ::
  "('f, 'w) kernel \<Rightarrow> statx \<Rightarrow> (nat \<Rightarrow> u8 list) \<Rightarrow> fs_file \<Rightarrow> ('w, ('f, statx) io_error + u8 list) action" where
  "read_all k zeroed alloc f =
     and_then (file_stats k zeroed f 0 STATX_SIZE) (\<lambda>s.
       await k (\<lambda>c. Some (bytes_of_completion c))
         (Inr (op_read_at alloc (file_fd f) 0 (case st_size s of Some n \<Rightarrow> unat n | None \<Rightarrow> 0))))"

end
