(* ===== verification/Fs_Props.thy ===== *)
theory Fs_Props
  imports Fs
begin

text \<open>
  Properties of the file-system code: making directories and their missing ancestors, opening a directory that
  exists, creating a file relative to a directory, and reading a directory to its end.
\<close>

section \<open>The operations of a path\<close>

definition mkdir_op :: "u8 list \<Rightarrow> file_mode \<Rightarrow> statx io_operation" where
  "mkdir_op path m =
     \<lparr>op_fd = AT_FDCWD, op_type = IoMkDir path (mode_to_directory_safe m), op_duration = SingleShot\<rparr>"

definition type_op :: "statx \<Rightarrow> u8 list \<Rightarrow> statx io_operation" where
  "type_op zeroed path =
     \<lparr>op_fd = AT_FDCWD, op_type = IoStatx \<lparr>sx_path = path, sx_flags = 0, sx_mask = STATX_TYPE, sx_statx = zeroed\<rparr>,
      op_duration = SingleShot\<rparr>"

definition open_op :: "raw_fd \<Rightarrow> u8 list \<Rightarrow> open_settings \<Rightarrow> statx io_operation" where
  "open_op fd path s = \<lparr>op_fd = fd, op_type = IoOpenAt (Some path) s, op_duration = SingleShot\<rparr>"

lemma path_ops:
  assumes "0 \<notin> set path"
  shows "op_mkdir path (mode_to_directory_safe m) SingleShot = Inr (mkdir_op path m)"
    "op_stats_path zeroed path 0 STATX_TYPE = Inr (type_op zeroed path)"
    "op_open_at fd path s = Inr (open_op fd path s)"
  using assms
  by (simp_all add: op_mkdir_def op_stats_path_def op_open_at_def c_string_def mkdir_op_def type_op_def open_op_def)

lemma mkdir_result:
  assumes "0 \<notin> set path"
  shows "k (mkdir_op path m) w = (Inr (Inr Success), w') \<Longrightarrow> mkdir k z path m w = Some (Inr (), w')"
    "k (mkdir_op path m) w = (Inr (Inl e), w') \<Longrightarrow> os_error_of e \<noteq> AlreadyExists \<Longrightarrow>
       mkdir k z path m w = Some (Inl (MkdirIoError (OperationError e)), w')"
  using assms by (simp_all add: mkdir_def await_def path_ops ok_or_def)

text \<open>A file system of directories, given by the list of its paths.\<close>

definition parent_listed :: "u8 list \<Rightarrow> u8 list list \<Rightarrow> bool" where
  "parent_listed p ds = (case path_parent p of None \<Rightarrow> True | Some q \<Rightarrow> q = [] \<or> q \<in> set ds)"

definition demo_kernel :: "(unit, u8 list list) kernel" where
  "demo_kernel op ds =
     (case op_type op of
        IoMkDir p _ \<Rightarrow>
          (if p \<in> set ds then (Inr (Inl \<lparr>failure_of = GenericFailure, os_error_of = AlreadyExists\<rparr>), ds)
           else if parent_listed p ds then (Inr (Inr Success), p # ds)
           else (Inr (Inl \<lparr>failure_of = GenericFailure, os_error_of = NotFound\<rparr>), ds))
      | IoOpenAt (Some p) _ \<Rightarrow>
          (if parent_listed p ds then (Inr (Inr (FileDone 9 p)), ds)
           else (Inr (Inl \<lparr>failure_of = GenericFailure, os_error_of = NotFound\<rparr>), ds))
      | IoStatx d \<Rightarrow> (Inr (Inr (StatsDone (sx_statx d) (sx_mask d))), ds)
      | _ \<Rightarrow> (Inr (Inr Success), ds))"

section \<open>An existing directory\<close>

lemma type_mask_lacks_type: "stats_new st STATX_TYPE = Some s \<Longrightarrow> st_descriptor_type s = None"
  by (auto simp: stats_new_def bind_eq_Some_conv statx_mask_def flags_contain_def TYPE_OR_MODE_def)

lemma type_mask_never_panics: "\<exists>s. stats_new st STATX_TYPE = Some s"
  by (simp add: stats_new_def statx_mask_time_def statx_mask_def flags_contain_def)

text \<open>A directory that exists is never opened for use: when the kernel reports that the path exists, the
  type asked for under the mask \<open>TYPE\<close> is read under \<open>TYPE_OR_MODE\<close> and never found, so that \<open>mkdir\<close>,
  \<open>mkdir_recursive\<close> and \<open>Directory::open\<close> all fail, whatever the kernel says the path is.\<close>

theorem existing_directory_not_opened:
  assumes "0 \<notin> set path" "k (mkdir_op path m) w = (Inr (Inl e), w1)" "os_error_of e = AlreadyExists"
    "k (type_op z path) w1 = (Inr (Inr (StatsDone st STATX_TYPE)), w2)"
  shows "mkdir k z path m w = Some (Inl (FailedToRetrieveDescriptorType path), w2) \<and>
    mkdir_recursive k z m path w = Some (Inl (FailedToRetrieveDescriptorType path), w2) \<and>
    directory_open k z path flags resolve m w =
      Some (Inl (OpenDirectoryMkdirError (FailedToRetrieveDescriptorType path)), w2)"
proof -
  obtain s where s: "stats_new st STATX_TYPE = Some s" "st_descriptor_type s = None"
    using type_mask_never_panics type_mask_lacks_type by blast
  have 1: "mkdir k z path m w = Some (Inl (FailedToRetrieveDescriptorType path), w2)"
    using assms s by (simp add: mkdir_def await_def path_ops and_then_def act_err_def ok_or_def map_err_def)
  then have "mkdir_recursive k z m path w = Some (Inl (FailedToRetrieveDescriptorType path), w2)"
    by (simp add: mkdir_recursive.simps [of k z m path w])
  with 1 show ?thesis by (simp add: directory_open_def and_then_def act_err_def map_err_def)
qed

theorem existing_directory_not_opened_witness:
  "mkdir demo_kernel demo_statx [97] mode_private [[97]] = Some (Inl (FailedToRetrieveDescriptorType [97]), [[97]]) \<and>
   (\<exists>e. fst (the (directory_open demo_kernel demo_statx [97] 0 0 mode_private [[97]])) = Inl e)"
  using existing_directory_not_opened [of "[97]" demo_kernel mode_private "[[97]]"
      "\<lparr>failure_of = GenericFailure, os_error_of = AlreadyExists\<rparr>" "[[97]]" demo_statx demo_statx "[[97]]" 0 0]
  by (simp add: demo_kernel_def mkdir_op_def type_op_def)

section \<open>A file system of directories\<close>

text \<open>What the kernel documents of \<open>mkdir\<close> for a path that does not exist: it is made when its parent exists, and
  refused with \<open>ENOENT\<close> when it does not.\<close>

definition parent_exists :: "u8 list \<Rightarrow> u8 list set \<Rightarrow> bool" where
  "parent_exists p ds = (case path_parent p of None \<Rightarrow> True | Some q \<Rightarrow> q = [] \<or> q \<in> ds)"

definition makes_directories :: "('f, 'w) kernel \<Rightarrow> file_mode \<Rightarrow> ('w \<Rightarrow> u8 list set) \<Rightarrow> u8 list \<Rightarrow> bool" where
  "makes_directories k m dirs p \<longleftrightarrow>
     (\<forall>w. p \<notin> dirs w \<longrightarrow>
        (if parent_exists p (dirs w)
         then \<exists>w'. k (mkdir_op p m) w = (Inr (Inr Success), w') \<and> dirs w' = insert p (dirs w)
         else \<exists>w' e. k (mkdir_op p m) w = (Inr (Inl e), w') \<and> os_error_of e = NotFound \<and> dirs w' = dirs w))"

lemma makes_directoriesD:
  assumes "makes_directories k m dirs p" "p \<notin> dirs w"
  shows "parent_exists p (dirs w) \<Longrightarrow>
      \<exists>w'. k (mkdir_op p m) w = (Inr (Inr Success), w') \<and> dirs w' = insert p (dirs w)"
    "\<not> parent_exists p (dirs w) \<Longrightarrow>
      \<exists>w' e. k (mkdir_op p m) w = (Inr (Inl e), w') \<and> os_error_of e = NotFound \<and> dirs w' = dirs w"
  using assms unfolding makes_directories_def by metis+

function ancestors :: "u8 list \<Rightarrow> u8 list list" where
  "ancestors p =
     p # (case path_parent p of None \<Rightarrow> [] | Some q \<Rightarrow> if q = [] then [] else ancestors q)"
  by pat_completeness auto
termination by (relation "measure length") (auto dest: path_parent_length)

declare ancestors.simps [simp del]

lemma ancestors_length: "a \<in> set (ancestors p) \<Longrightarrow> length a \<le> length p"
proof (induction p rule: ancestors.induct)
  case (1 p)
  then have "a = p \<or> (\<exists>q. path_parent p = Some q \<and> length a \<le> length q)"
    by (cases "path_parent p"; subst (asm) (2) ancestors.simps) (auto split: if_splits)
  then show ?case by (auto dest: path_parent_length)
qed

lemma ancestors_self: "p \<in> set (ancestors p)"
  by (simp add: ancestors.simps)

lemma ancestors_existing: "q \<in> ds \<Longrightarrow> takeWhile (\<lambda>p. p \<notin> ds) (ancestors q) = []"
  by (subst ancestors.simps) simp

lemma trim_right_set: "set (trim_right n start p) \<subseteq> set p"
proof (induction n arbitrary: p)
  case (Suc n)
  obtain j c where jc: "last_component start p = (j, c)" by fastforce
  show ?case using Suc [of "take (length p - j) p"] set_take_subset [of "length p - j" p] by (auto simp: jc)
qed simp

lemma drop_component_set: "drop_component n start p = Some q \<Longrightarrow> set q \<subseteq> set p"
proof (induction n arbitrary: p)
  case (Suc n)
  obtain j c where jc: "last_component start p = (j, c)" by fastforce
  show ?case
    using Suc.IH [of "take (length p - j) p"] Suc.prems set_take_subset [of "length p - j" p]
    by (auto simp: jc Let_def split: if_splits)
qed simp

lemma path_parent_set: "path_parent p = Some q \<Longrightarrow> set q \<subseteq> set p"
  using drop_component_set [of "length p" "len_before_body p" p] trim_right_set
  by (fastforce simp: path_parent_def Let_def split: option.splits if_splits)

text \<open>C36. \<open>mkdir_recursive\<close> makes exactly the missing directories of a path: on a file system that makes a
  directory whenever its parent exists, it succeeds for every path that does not exist, and afterwards the path
  and those of its ancestors exist that were missing up to the first one there, and nothing else is new.\<close>

theorem mkdir_recursive_creates:
  assumes "\<forall>p \<in> set (ancestors path). makes_directories k m dirs p" "0 \<notin> set path" "path \<notin> dirs w"
  shows "\<exists>w'. mkdir_recursive k z m path w = Some (Inr (), w') \<and>
    dirs w' = dirs w \<union> set (takeWhile (\<lambda>p. p \<notin> dirs w) (ancestors path))"
  using assms
proof (induction path arbitrary: w rule: ancestors.induct)
  case (1 p)
  have mk: "makes_directories k m dirs p" using 1 ancestors_self by blast
  show ?case
  proof (cases "parent_exists p (dirs w)")
    case True
    then obtain w' where "k (mkdir_op p m) w = (Inr (Inr Success), w')" "dirs w' = insert p (dirs w)"
      using makes_directoriesD(1) [OF mk 1(4)] by blast
    moreover have "takeWhile (\<lambda>p. p \<notin> dirs w) (ancestors p) = [p]"
      using True 1(4) by (subst ancestors.simps)
        (auto simp: parent_exists_def ancestors_existing split: option.splits)
    ultimately show ?thesis using 1(3) by (subst mkdir_recursive.simps) (simp add: mkdir_result)
  next
    case False
    then obtain q where q: "path_parent p = Some q" "q \<noteq> []" "q \<notin> dirs w"
      by (auto simp: parent_exists_def split: option.splits)
    obtain w1 e where w1: "k (mkdir_op p m) w = (Inr (Inl e), w1)" "os_error_of e = NotFound" "dirs w1 = dirs w"
      using makes_directoriesD(2) [OF mk 1(4) False] by blast
    have an: "ancestors p = p # ancestors q" using q by (subst ancestors.simps) simp
    have pre: "\<forall>p \<in> set (ancestors q). makes_directories k m dirs p" "0 \<notin> set q" "q \<notin> dirs w1"
      using 1(2,3) an q(3) w1(3) path_parent_set [OF q(1)] by auto
    obtain w2 where w2: "mkdir_recursive k z m q w1 = Some (Inr (), w2)"
      "dirs w2 = dirs w1 \<union> set (takeWhile (\<lambda>p. p \<notin> dirs w1) (ancestors q))"
      using 1(1) [OF q(1,2) pre] by blast
    have len: "length q < length p" using q(1) by (rule path_parent_length)
    have "p \<notin> set (ancestors q)" using ancestors_length [of p q] len by auto
    moreover have "q \<in> dirs w2" using w2(2) pre(3) by (simp add: ancestors.simps [of q])
    ultimately have "p \<notin> dirs w2" "parent_exists p (dirs w2)"
      using 1(4) w1(3) w2(2) q(1) by (auto simp: parent_exists_def dest: set_takeWhileD)
    then obtain w3 where w3: "k (mkdir_op p m) w2 = (Inr (Inr Success), w3)" "dirs w3 = insert p (dirs w2)"
      using makes_directoriesD(1) [OF mk] by blast
    have "mkdir_recursive k z m p w = Some (Inr (), w3)"
      using 1(3) w1 w2(1) w3(1) q len by (subst mkdir_recursive.simps) (auto simp: mkdir_result)
    then show ?thesis using w1(3) w2(2) w3(2) an 1(4) by auto
  qed
qed

lemma demo_makes_directories: "makes_directories demo_kernel m set p"
  by (auto simp: makes_directories_def demo_kernel_def mkdir_op_def parent_listed_def parent_exists_def)

text \<open>\<open>a/b/c\<close> where only \<open>a\<close> exists.\<close>

theorem mkdir_recursive_creates_witness:
  "\<exists>ds. mkdir_recursive demo_kernel demo_statx mode_private [97, 47, 98, 47, 99] [[97]] = Some (Inr (), ds) \<and>
     set ds = {[97], [97, 47, 98], [97, 47, 98, 47, 99]}"
proof -
  have p: "path_parent [97, 47, 98, 47, 99] = Some [97, 47, 98]" "path_parent [97, 47, 98] = Some [97]"
    "path_parent [97] = Some []"
    by code_simp+
  have "ancestors [97, 47, 98, 47, 99] = [[97, 47, 98, 47, 99], [97, 47, 98], [97]]"
    by (simp add: p ancestors.simps)
  then show ?thesis
    using mkdir_recursive_creates [of "[97, 47, 98, 47, 99]" demo_kernel mode_private set "[[97]]" demo_statx]
      demo_makes_directories by (auto simp: insert_commute)
qed

section \<open>Creating a file relative to a directory\<close>

text \<open>The operations that reach the kernel, in order.\<close>

definition logging :: "('f, 'w) kernel \<Rightarrow> ('f, 'w \<times> statx io_operation list) kernel" where
  "logging k op w = (let (r, w') = k op (fst w) in (r, (w', snd w @ [op])))"

text \<open>A file opened for creation relative to a directory gets its missing parent made relative to the current
  directory instead: when the kernel does not find the file, the three operations that reach it are the
  opening under the directory's descriptor, a \<open>mkdir\<close> of the relative parent under \<open>AT_FDCWD\<close>, and the same
  opening again.\<close>

theorem open_at_makes_parent_elsewhere:
  assumes "0 \<notin> set path" "path_parent path = Some parent" "os_mode s = Create m" "\<not> is_dir s"
    "k (open_op (dir_fd d) path s) w = (Inr (Inl e), w1)" "os_error_of e = NotFound"
    "k \<lparr>op_fd = AT_FDCWD, op_type = IoMkDir parent (mode_to_directory_safe m), op_duration = SingleShot\<rparr> w1 =
       (Inr (Inr Success), w2)"
  shows "\<exists>r w3. file_open_at (logging k) z d path s (w, ops) = Some (r, w3, ops @
    [open_op (dir_fd d) path s,
     \<lparr>op_fd = AT_FDCWD, op_type = IoMkDir parent (mode_to_directory_safe m), op_duration = SingleShot\<rparr>,
     open_op (dir_fd d) path s])"
proof -
  let ?o = "open_op (dir_fd d) path s" and ?L = "logging k"
  have p: "0 \<notin> set parent" using assms(1,2) path_parent_set by blast
  have 1: "open_at_unchecked ?L d path s (w, ops) = Some (Inl (OperationError e), w1, ops @ [?o])"
    using assms(1,5) by (simp add: open_at_unchecked_def await_def path_ops logging_def)
  have 2: "mkdir_recursive ?L z m parent (w1, ops @ [?o]) = Some (Inr (), w2, ops @ [?o, mkdir_op parent m])"
    using mkdir_result(1) [OF p, of ?L m "(w1, ops @ [?o])"] assms(7)
    by (subst mkdir_recursive.simps) (simp add: logging_def mkdir_op_def)
  have 3: "\<exists>r w3. open_at_unchecked ?L d path s (w2, l) = Some (r, w3, l @ [?o])" for l
    using assms(1)
    by (auto simp: open_at_unchecked_def await_def path_ops logging_def split: prod.split sum.split)
  show ?thesis
    using 1 2 3 [of "ops @ [?o, mkdir_op parent m]"] assms(2-4,6)
    by (auto simp: file_open_at_def open_or_create_parent_def and_then_def act_err_def mkdir_op_def map_err_def)
qed

theorem open_at_makes_parent_elsewhere_witness:
  "\<exists>r w3. file_open_at (logging demo_kernel) demo_statx \<lparr>dir_fd = 7, dir_path = [120]\<rparr> [97, 47, 98]
      \<lparr>os_access_type = ReadWrite, os_open_flags = 0, os_resolve_flags = 0, os_mode = Create mode_private\<rparr> ([], []) =
    Some (r, w3,
      [open_op 7 [97, 47, 98] \<lparr>os_access_type = ReadWrite, os_open_flags = 0, os_resolve_flags = 0, os_mode = Create mode_private\<rparr>,
       \<lparr>op_fd = AT_FDCWD, op_type = IoMkDir [97] (mode_to_directory_safe mode_private), op_duration = SingleShot\<rparr>,
       open_op 7 [97, 47, 98] \<lparr>os_access_type = ReadWrite, os_open_flags = 0, os_resolve_flags = 0, os_mode = Create mode_private\<rparr>])"
proof -
  have p: "path_parent [97, 47, 98] = Some [97]" "path_parent [97] = Some []" by code_simp+
  show ?thesis
    using open_at_makes_parent_elsewhere [of "[97, 47, 98]" "[97]"
        "\<lparr>os_access_type = ReadWrite, os_open_flags = 0, os_resolve_flags = 0, os_mode = Create mode_private\<rparr>" mode_private
        demo_kernel "\<lparr>dir_fd = 7, dir_path = [120]\<rparr>" "[]" "\<lparr>failure_of = GenericFailure, os_error_of = NotFound\<rparr>" "[]" "[[97]]"
        demo_statx "[]"]
    by (simp add: p demo_kernel_def open_op_def parent_listed_def is_dir_def)
qed

section \<open>Reading a directory\<close>

lemma stream_next_length: "stream_next ds = (Some r, ds') \<Longrightarrow> length ds' < length ds"
  by (induction ds rule: stream_next.induct) (auto split: if_splits intro: less_SucI)

text \<open>A loop over the stream: every result up to the first time there is none.\<close>

function read_stream :: "directory_stream \<Rightarrow> (os_error + directory_entry) list" where
  "read_stream ds =
     (case stream_next ds of (None, _) \<Rightarrow> [] | (Some r, ds') \<Rightarrow> r # read_stream ds')"
  by pat_completeness auto
termination by (relation "measure length") (auto dest: stream_next_length [OF sym])

declare read_stream.simps [simp del]

definition dots :: "dirent \<Rightarrow> bool" where
  "dots d \<longleftrightarrow> d_name d = [dot] \<or> d_name d = [dot, dot]"

definition entry_of :: "dirent \<Rightarrow> directory_entry" where
  "entry_of d = \<lparr>entry_name = d_name d, entry_dtype = descriptor_type_of_dirent (d_type d)\<rparr>"

lemma read_stream_step [simp]:
  "read_stream [] = []"
  "read_stream (Inl errno # ds) = (if errno \<noteq> 0 then Inl (os_error_of_i32 errno) # read_stream ds else [])"
  "read_stream (Inr d # ds) = (if dots d then read_stream ds else Inr (entry_of d) # read_stream ds)"
  by (subst read_stream.simps; simp add: dots_def entry_of_def; simp add: read_stream.simps [of ds])+

text \<open>C37. A loop over a directory gives everything that the C library reads, in its order: each entry with its name
  and type, except \<open>.\<close> and \<open>..\<close>, which are passed over, and each error number in its place.\<close>

theorem directory_read_to_end:
  assumes "Inl 0 \<notin> set ds"
  shows "read_stream ds = concat (map (\<lambda>x. case x of
      Inl errno \<Rightarrow> [Inl (os_error_of_i32 errno)]
    | Inr d \<Rightarrow> if dots d then [] else [Inr (entry_of d)]) ds)"
  using assms by (induction ds) (auto split: sum.split)

theorem directory_read_to_end_witness:
  "map (map_sum id entry_name) (read_stream [Inr \<lparr>d_name = [46], d_type = 4\<rparr>, Inr \<lparr>d_name = [97], d_type = 8\<rparr>, Inl 5,
      Inr \<lparr>d_name = [46, 46], d_type = 4\<rparr>, Inr \<lparr>d_name = [98], d_type = 4\<rparr>]) =
    [Inr [97], Inl (os_error_of_i32 5), Inr [98]]"
  using directory_read_to_end [of "[Inr \<lparr>d_name = [46], d_type = 4\<rparr>, Inr \<lparr>d_name = [97], d_type = 8\<rparr>, Inl 5,
      Inr \<lparr>d_name = [46, 46], d_type = 4\<rparr>, Inr \<lparr>d_name = [98], d_type = 4\<rparr>]"]
  by (simp add: dots_def dot_def entry_of_def)

end
