(* ===== verification/Sleep.thy ===== *)
theory Sleep
  imports Transition
begin

text \<open>
  Sleeping (\<open>src/timing/futures/sleep.rs\<close>): the future arms a timer and hands a worker a task that waits for it,
  reads it, closes it, sets the shared state and wakes the future. The first poll registers that task and only
  then writes \<open>Pending\<close>, so that the task's steps interleave with the poll. \<open>fires\<close> is whether a timer armed with a
  given time ever expires; the outcomes of the system calls are part of the actions. The task takes any event of
  its queue for the timer's, and a worker that stops sends one to all queues. How the task runs on the model of
  event sources is the subject of the theory \<open>Timer_Source\<close>.
\<close>

section \<open>The future\<close>

datatype sleep_error = TimerCreateError i32 | TimerSetError i32 | TimerCloseError i32 | TimerPollError

datatype sleep_state = NotSubmitted | SleepPending | SleepFailure | SleepComplete

text \<open>Where the worker's task stands: it waits for the timer, then reads, closes, and wakes.\<close>

datatype handler_pc = AwaitTimer | TimerReady | TimerRead | StateSet | HandlerDone

record sleep =
  sl_secs :: u64
  sl_nanos :: u32
  sl_state :: sleep_state
  sl_registered :: bool                       \<comment> \<open>a poll has registered the task and is to write \<open>Pending\<close>\<close>
  sl_handler :: "(waker \<times> handler_pc) option"
  sl_open_timers :: nat
  sl_woken :: "waker list"

definition sleep_new :: "u64 \<Rightarrow> u32 \<Rightarrow> sleep" where
  "sleep_new secs nanos =
     \<lparr>sl_secs = secs, sl_nanos = nanos, sl_state = NotSubmitted, sl_registered = False, sl_handler = None,
      sl_open_timers = 0, sl_woken = []\<rparr>"

text \<open>The time the timer is armed with, \<open>it_value\<close>; it is armed once, without an interval.\<close>

definition timer_value :: "sleep \<Rightarrow> i64 \<times> i64" where
  "timer_value s = (sl_secs s, ucast (sl_nanos s))"

datatype submit_outcome = CreateFails i32 | SetFails i32 | RegisterFails | Registered

text \<open>\<open>submit\<close>: every \<open>?\<close> in its block leaves the function, so the clean-up behind the block is never reached.\<close>

fun sleep_submit :: "submit_outcome \<Rightarrow> waker \<Rightarrow> sleep \<Rightarrow> (sleep_error + unit) \<times> sleep" where
  "sleep_submit (CreateFails e) w s = (Inl (TimerCreateError e), s)"
| "sleep_submit (SetFails e) w s = (Inl (TimerSetError e), s\<lparr>sl_open_timers := sl_open_timers s + 1\<rparr>)"
| "sleep_submit RegisterFails w s = (Inl TimerPollError, s\<lparr>sl_open_timers := sl_open_timers s + 1\<rparr>)"
| "sleep_submit Registered w s =
     (Inr (), s\<lparr>sl_open_timers := sl_open_timers s + 1, sl_handler := Some (w, AwaitTimer), sl_registered := True\<rparr>)"

text \<open>\<open>poll\<close>, up to the write of \<open>Pending\<close>.\<close>

definition sleep_poll :: "submit_outcome \<Rightarrow> waker \<Rightarrow> sleep \<Rightarrow> (sleep_error + unit) poll \<times> sleep" where
  "sleep_poll out w s =
     (case sl_state s of
        NotSubmitted \<Rightarrow>
          (case sleep_submit out w s of
             (Inl e, s) \<Rightarrow> (PollReady (Inl e), s)
           | (Inr _, s) \<Rightarrow> (PollPending, s))
      | SleepPending \<Rightarrow> (PollPending, s)
      | SleepComplete \<Rightarrow> (PollReady (Inr ()), s)
      | SleepFailure \<Rightarrow> (PollReady (Inl TimerPollError), s))"

definition write_pending :: "sleep \<Rightarrow> sleep option" where
  "write_pending s = (if sl_registered s then Some (s\<lparr>sl_state := SleepPending, sl_registered := False\<rparr>) else None)"

section \<open>The worker's task\<close>

datatype handler_step = TimerExpires | WorkerStops | ReadTimer bool | CloseTimer bool | Wake

definition handler_move :: "waker \<Rightarrow> handler_pc \<Rightarrow> sleep \<Rightarrow> sleep" where
  "handler_move w pc s = s\<lparr>sl_handler := Some (w, pc)\<rparr>"

fun handler_act :: "(i64 \<times> i64 \<Rightarrow> bool) \<Rightarrow> handler_step \<Rightarrow> waker \<times> handler_pc \<Rightarrow> sleep \<Rightarrow> sleep option" where
  "handler_act fires TimerExpires (w, AwaitTimer) s =
     (if fires (timer_value s) then Some (handler_move w TimerReady s) else None)"
| "handler_act fires WorkerStops (w, AwaitTimer) s = Some (handler_move w TimerReady s)"
| "handler_act fires (ReadTimer ok) (w, TimerReady) s =
     Some (if ok then handler_move w TimerRead s else handler_move w StateSet (s\<lparr>sl_state := SleepFailure\<rparr>))"
| "handler_act fires (CloseTimer ok) (w, TimerRead) s =
     Some (handler_move w StateSet
       (if ok then s\<lparr>sl_state := SleepComplete, sl_open_timers := sl_open_timers s - 1\<rparr>
        else s\<lparr>sl_state := SleepFailure\<rparr>))"
| "handler_act fires Wake (w, StateSet) s = Some (handler_move w HandlerDone (s\<lparr>sl_woken := sl_woken s @ [w]\<rparr>))"
| "handler_act fires _ _ s = None"

datatype sleep_action = SleepPoll submit_outcome waker | WritePending | HandlerStep handler_step

fun sleep_act :: "(i64 \<times> i64 \<Rightarrow> bool) \<Rightarrow> sleep_action \<Rightarrow> sleep \<Rightarrow> sleep option" where
  "sleep_act fires (SleepPoll out w) s = (if sl_registered s then None else Some (snd (sleep_poll out w s)))"
| "sleep_act fires WritePending s = write_pending s"
| "sleep_act fires (HandlerStep h) s = Option.bind (sl_handler s) (\<lambda>p. handler_act fires h p s)"

section \<open>Properties\<close>

text \<open>A step of the task, by the place it stands at.\<close>

lemma handler_actE:
  assumes "handler_act fires h (w, pc) s = Some t"
  obtains (expires) "pc = AwaitTimer" "fires (timer_value s) \<or> h = WorkerStops" "t = handler_move w TimerReady s"
  | (read) "pc = TimerReady" "t = handler_move w TimerRead s"
  | (failed) "pc \<in> {TimerReady, TimerRead}" "t = handler_move w StateSet (s\<lparr>sl_state := SleepFailure\<rparr>)"
  | (closed) "pc = TimerRead"
      "t = handler_move w StateSet (s\<lparr>sl_state := SleepComplete, sl_open_timers := sl_open_timers s - 1\<rparr>)"
  | (woke) "pc = StateSet" "t = handler_move w HandlerDone (s\<lparr>sl_woken := sl_woken s @ [w]\<rparr>)"
  using assms by (cases "(fires, h, (w, pc), s)" rule: handler_act.cases) (auto split: if_splits)

definition sleep_inv :: "sleep \<Rightarrow> bool" where
  "sleep_inv s \<longleftrightarrow>
     (case sl_handler s of
        None \<Rightarrow> sl_state s = NotSubmitted \<and> sl_woken s = [] \<and> \<not> sl_registered s
      | Some (w, pc) \<Rightarrow>
          sl_woken s = (if pc = HandlerDone then [w] else []) \<and>
          (sl_state s \<in> {SleepComplete, SleepFailure} \<longrightarrow> pc \<in> {StateSet, HandlerDone}) \<and>
          (sl_state s = NotSubmitted \<longrightarrow> sl_registered s))"

lemma sleep_inv_init: "sleep_inv (sleep_new secs nanos)"
  by (simp add: sleep_inv_def sleep_new_def)

lemma sleep_inv_handler:
  assumes "sleep_inv s" "sl_handler s = Some (w, pc)" "handler_act fires h (w, pc) s = Some t"
  shows "sleep_inv t"
  using assms(3) by (cases rule: handler_actE) (use assms(1,2) in \<open>auto simp: sleep_inv_def handler_move_def\<close>)

lemma sleep_inv_step:
  assumes "sleep_inv s" "sleep_act fires a s = Some t"
  shows "sleep_inv t"
proof (cases a)
  case (SleepPoll out w)
  then show ?thesis using assms
    by (cases out; cases "sl_state s") (auto simp: sleep_inv_def sleep_poll_def split: option.splits if_splits)
next
  case WritePending
  then show ?thesis using assms
    by (auto simp: sleep_inv_def write_pending_def split: option.splits if_splits)
next
  case (HandlerStep h)
  then show ?thesis using assms sleep_inv_handler by (auto simp: bind_eq_Some_conv)
qed

interpretation sleep: invariant_of "sleep_act fires" "sleep_new secs nanos" sleep_inv
  by unfold_locales (fact sleep_inv_init, fact sleep_inv_step)

text \<open>The task of a sleep wakes once, and only the waker of the poll that registered it: in every reachable
  state of every interleaving, nothing was woken before the task came to its end and that one waker, once,
  after it; and a sleep is over only when its task has set the state.\<close>

theorem sleep_wakes_once:
  assumes "reachable (sleep_act fires) (sleep_new secs nanos) s" "sl_handler s = Some (w, pc)"
  shows "sl_woken s = (if pc = HandlerDone then [w] else []) \<and>
    (sl_state s \<in> {SleepComplete, SleepFailure} \<longrightarrow> pc \<in> {StateSet, HandlerDone})"
  using sleep.reachable_inv [OF assms(1)] assms(2) by (auto simp: sleep_inv_def)

definition quick_sleep :: "sleep_action list" where
  "quick_sleep = [SleepPoll Registered 4, WritePending, SleepPoll Registered 5, HandlerStep TimerExpires,
     HandlerStep (ReadTimer True), HandlerStep (CloseTimer True), HandlerStep Wake]"

theorem sleep_wakes_once_witness:
  "\<exists>s. run (sleep_act (\<lambda>_. True)) quick_sleep (sleep_new 1 0) = Some s \<and> sl_woken s = [4]"
proof -
  obtain s where s: "run (sleep_act (\<lambda>_. True)) quick_sleep (sleep_new 1 0) = Some s"
    "sl_handler s = Some (4, HandlerDone)"
    by (simp add: quick_sleep_def sleep_new_def sleep_poll_def write_pending_def handler_move_def)
  from sleep_wakes_once [OF run_reachable [OF s(1)] s(2)] s(1) show ?thesis by simp
qed

text \<open>The future after its only task is through and its state says \<open>Pending\<close>.\<close>

definition stuck :: "waker \<Rightarrow> sleep \<Rightarrow> bool" where
  "stuck w s \<longleftrightarrow> sl_state s = SleepPending \<and> \<not> sl_registered s \<and> sl_handler s = Some (w, HandlerDone)"

lemma stuck_step:
  assumes "stuck w s" "sleep_act fires a s = Some t"
  shows "stuck w t"
proof (cases a)
  case (HandlerStep h)
  have "handler_act fires h (w, HandlerDone) s = None" by (cases h) simp_all
  then show ?thesis using assms HandlerStep by (simp add: stuck_def)
qed (use assms in \<open>auto simp: stuck_def sleep_poll_def write_pending_def\<close>)

lemma stuck_run: "stuck w s \<Longrightarrow> run (sleep_act fires) as s = Some t \<Longrightarrow> stuck w t"
  by (induction as arbitrary: s) (auto split: option.splits dest: stuck_step)

text \<open>C31. A sleep can be lost. When the timer expires and the worker's task runs to its end between the
  registration of the task and the write of \<open>Pending\<close>, that write covers the completion: whatever happens
  then, the state stays \<open>Pending\<close>, nothing is woken any more, and every poll is pending.\<close>

theorem sleep_completion_overwritten:
  assumes "fires (secs, ucast nanos)"
  shows "\<exists>s. run (sleep_act fires)
      [SleepPoll Registered w, HandlerStep TimerExpires, HandlerStep (ReadTimer True), HandlerStep (CloseTimer True),
       HandlerStep Wake, WritePending] (sleep_new secs nanos) = Some s \<and>
    (\<forall>as t. run (sleep_act fires) as s = Some t \<longrightarrow>
       sl_woken t = sl_woken s \<and> (\<forall>out w'. fst (sleep_poll out w' t) = PollPending))"
proof -
  obtain s where s: "run (sleep_act fires)
      [SleepPoll Registered w, HandlerStep TimerExpires, HandlerStep (ReadTimer True), HandlerStep (CloseTimer True),
       HandlerStep Wake, WritePending] (sleep_new secs nanos) = Some s" "stuck w s" "sl_woken s = [w]"
    using assms
    by (simp add: sleep_new_def sleep_poll_def write_pending_def handler_move_def timer_value_def stuck_def)
  have "sl_woken t = [w] \<and> (\<forall>out w'. fst (sleep_poll out w' t) = PollPending)"
    if t: "run (sleep_act fires) as s = Some t" for as t
  proof -
    have "stuck w t" using stuck_run [OF s(2) t] .
    moreover have "reachable (sleep_act fires) (sleep_new secs nanos) t"
      using reachable_run [OF run_reachable [OF s(1)] t] .
    ultimately show ?thesis
      using sleep.reachable_inv [of fires secs nanos t] by (auto simp: stuck_def sleep_inv_def sleep_poll_def)
  qed
  with s show ?thesis by auto
qed

theorem sleep_completion_overwritten_witness:
  "\<exists>s. run (sleep_act (\<lambda>_. True))
      [SleepPoll Registered 4, HandlerStep TimerExpires, HandlerStep (ReadTimer True), HandlerStep (CloseTimer True),
       HandlerStep Wake, WritePending] (sleep_new 0 1) = Some s \<and> fst (sleep_poll Registered 4 s) = PollPending"
proof -
  obtain s where s: "run (sleep_act (\<lambda>_. True))
      [SleepPoll Registered 4, HandlerStep TimerExpires, HandlerStep (ReadTimer True), HandlerStep (CloseTimer True),
       HandlerStep Wake, WritePending] (sleep_new 0 1) = Some s"
    "\<forall>as t. run (sleep_act (\<lambda>_. True)) as s = Some t \<longrightarrow>
       sl_woken t = sl_woken s \<and> (\<forall>out w'. fst (sleep_poll out w' t) = PollPending)"
    using sleep_completion_overwritten [of "\<lambda>_. True" 0 1 4] by blast
  have "run (sleep_act (\<lambda>_. True)) [] s = Some s" by simp
  with s show ?thesis by blast
qed

text \<open>A sleep of no time does not end: a timer armed with zero is disarmed and does not expire, so that no
  interleaving completes the sleep or wakes its task, unless its worker stops.\<close>

definition unexpired :: "sleep \<Rightarrow> bool" where
  "unexpired s \<longleftrightarrow> sl_secs s = 0 \<and> sl_nanos s = 0 \<and> sl_state s \<in> {NotSubmitted, SleepPending} \<and> sl_woken s = [] \<and>
     (case sl_handler s of None \<Rightarrow> True | Some (w, pc) \<Rightarrow> pc = AwaitTimer)"

lemma unexpired_step:
  assumes "\<not> fires (0, 0)" "unexpired s" "sleep_act fires a s = Some t" "a \<noteq> HandlerStep WorkerStops"
  shows "unexpired t"
proof (cases a)
  case (SleepPoll out w)
  then show ?thesis using assms(2,3)
    by (cases out; cases "sl_state s") (auto simp: unexpired_def sleep_poll_def split: if_splits)
next
  case WritePending
  then show ?thesis using assms(2,3) by (auto simp: unexpired_def write_pending_def split: if_splits)
next
  case (HandlerStep h)
  then obtain w where w: "sl_handler s = Some (w, AwaitTimer)" "handler_act fires h (w, AwaitTimer) s = Some t"
    using assms(2,3) by (auto simp: unexpired_def bind_eq_Some_conv split: option.splits)
  from w(2) show ?thesis
    by (cases rule: handler_actE) (use HandlerStep assms in \<open>auto simp: unexpired_def timer_value_def\<close>)
qed

theorem zero_sleep_never_ends:
  assumes "\<not> fires (0, 0)" "run (sleep_act fires) as (sleep_new 0 0) = Some s" "HandlerStep WorkerStops \<notin> set as"
  shows "sl_state s \<in> {NotSubmitted, SleepPending} \<and> sl_woken s = []"
proof -
  have "unexpired t" if "run (sleep_act fires) as u = Some t" "unexpired u" "HandlerStep WorkerStops \<notin> set as" for u t
    using that by (induction as arbitrary: u) (auto split: option.splits dest: unexpired_step [of fires, OF assms(1)])
  from this [OF assms(2) _ assms(3)] show ?thesis by (simp add: unexpired_def sleep_new_def)
qed

theorem zero_sleep_never_ends_witness:
  "\<exists>s. run (sleep_act (\<lambda>v. v \<noteq> (0, 0))) [SleepPoll Registered 4, WritePending] (sleep_new 0 0) = Some s \<and>
     sl_state s = SleepPending \<and> sl_woken s = []"
proof -
  obtain s where s: "run (sleep_act (\<lambda>v. v \<noteq> (0, 0))) [SleepPoll Registered 4, WritePending] (sleep_new 0 0) = Some s"
    "sl_state s = SleepPending"
    by (simp add: sleep_new_def sleep_poll_def write_pending_def)
  then show ?thesis
    using zero_sleep_never_ends [of "\<lambda>v. v \<noteq> (0, 0)", OF _ s(1)] by simp
qed

end
