(* ===== verification/Event_Channel.thy ===== *)
theory Event_Channel
  imports Libc "HOL-Library.Multiset"
begin

text \<open>
  Event channels (\<open>src/events/channel.rs\<close>) and the descriptors they share (\<open>src/atomic_owned_fd.rs\<close>): a counter of
  the kernel that is written and read eight bytes at a time. The system calls are arguments; a call gives an
  error number or its result, and the world after it. An error's text is its error number.
\<close>

section \<open>Descriptors\<close>

text \<open>\<open>u32::MAX as RawFd\<close>.\<close>

definition INVALID_FD :: raw_fd where "INVALID_FD = - 1"

text \<open>An \<open>AtomicOwnedFd\<close> is its descriptor. A failed assertion is \<open>None\<close>.\<close>

definition owned_new :: "raw_fd \<Rightarrow> raw_fd option" where
  "owned_new fd = (if fd = INVALID_FD then None else Some fd)"

definition owned_swap :: "raw_fd \<Rightarrow> raw_fd \<Rightarrow> (raw_fd \<times> raw_fd) option" where
  "owned_swap new_fd inner = (if new_fd = INVALID_FD then None else Some (inner, new_fd))"

definition owned_release :: "raw_fd \<Rightarrow> raw_fd \<times> raw_fd" where
  "owned_release inner = (inner, INVALID_FD)"

definition owned_is_valid :: "raw_fd \<Rightarrow> bool" where
  "owned_is_valid inner \<longleftrightarrow> inner \<noteq> INVALID_FD"

text \<open>The descriptors that the drop closes.\<close>

definition owned_drop :: "raw_fd \<Rightarrow> raw_fd list" where
  "owned_drop inner = (let fd = fst (owned_release inner) in if fd \<noteq> INVALID_FD then [fd] else [])"

section \<open>Channels\<close>

datatype channel_error =
    FailedToCreateEventChannel i32
  | FailedToSendEvent i32
  | FailedToReceiveEvent i32
  | PartialTransfer int

definition CHANNEL_CLOEXEC :: i32 where "CHANNEL_CLOEXEC = 0x80000"
definition CHANNEL_NONBLOCK :: i32 where "CHANNEL_NONBLOCK = 0x800"
definition CHANNEL_SEMAPHORE :: i32 where "CHANNEL_SEMAPHORE = 1"

text \<open>\<open>from_raw_fd\<close> panics for the invalid descriptor.\<close>

definition channel_with_flags ::
  "(u32 \<Rightarrow> i32 \<Rightarrow> i32 + raw_fd) \<Rightarrow> i32 \<Rightarrow> (channel_error + raw_fd) option" where
  "channel_with_flags eventfd flags =
     (case eventfd 0 flags of
        Inl e \<Rightarrow> Some (Inl (FailedToCreateEventChannel e))
      | Inr fd \<Rightarrow> map_option Inr (owned_new fd))"

definition channel_new :: "(u32 \<Rightarrow> i32 \<Rightarrow> i32 + raw_fd) \<Rightarrow> (channel_error + raw_fd) option" where
  "channel_new eventfd = channel_with_flags eventfd (CHANNEL_NONBLOCK OR CHANNEL_CLOEXEC)"

type_synonym 'w write_call = "raw_fd \<Rightarrow> u8 list \<Rightarrow> 'w \<Rightarrow> (i32 + int) \<times> 'w"
type_synonym 'w read_call = "raw_fd \<Rightarrow> nat \<Rightarrow> 'w \<Rightarrow> (i32 + int \<times> u8 list) \<times> 'w"

definition channel_send :: "'w write_call \<Rightarrow> raw_fd \<Rightarrow> u64 \<Rightarrow> 'w \<Rightarrow> (channel_error + unit) \<times> 'w" where
  "channel_send write_fd fd v w =
     (case write_fd fd (le_bytes 8 v) w of
        (Inl e, w) \<Rightarrow> (Inl (FailedToSendEvent e), w)
      | (Inr n, w) \<Rightarrow> (if n \<noteq> 8 then Inl (PartialTransfer n) else Inr (), w))"

definition channel_signal :: "'w write_call \<Rightarrow> raw_fd \<Rightarrow> 'w \<Rightarrow> (channel_error + unit) \<times> 'w" where
  "channel_signal write_fd fd w = channel_send write_fd fd 1 w"

definition channel_recv :: "'w read_call \<Rightarrow> raw_fd \<Rightarrow> 'w \<Rightarrow> (channel_error + u64) \<times> 'w" where
  "channel_recv read_fd fd w =
     (case read_fd fd 8 w of
        (Inl e, w) \<Rightarrow> (Inl (FailedToReceiveEvent e), w)
      | (Inr (n, data), w) \<Rightarrow> (if n \<noteq> 8 then Inl (PartialTransfer n) else Inr (of_le_bytes data), w))"

text \<open>\<open>drain\<close> reads until the channel would block; \<open>None\<close> is a loop that does not end.\<close>

partial_function (option) channel_drain ::
  "'w read_call \<Rightarrow> raw_fd \<Rightarrow> 'w \<Rightarrow> ((channel_error + unit) \<times> 'w) option" where
  "channel_drain read_fd fd w =
     (case read_fd fd 8 w of
        (Inl e, w) \<Rightarrow> Some (if e = EAGAIN then Inr () else Inl (FailedToReceiveEvent e), w)
      | (Inr (n, data), w) \<Rightarrow> if n \<noteq> 8 then Some (Inl (PartialTransfer n), w) else channel_drain read_fd fd w)"

section \<open>Properties\<close>

datatype owned_op = Swap raw_fd | Release

text \<open>A run of operations on one descriptor: those it hands out, and the one it holds at the end.\<close>

fun owned_run :: "owned_op list \<Rightarrow> raw_fd \<Rightarrow> (raw_fd list \<times> raw_fd) option" where
  "owned_run [] inner = Some ([], inner)"
| "owned_run (Swap fd # ops) inner =
     Option.bind (owned_swap fd inner) (\<lambda>(old, inner). map_option (map_prod ((#) old) id) (owned_run ops inner))"
| "owned_run (Release # ops) inner =
     (let (old, inner) = owned_release inner in map_option (map_prod ((#) old) id) (owned_run ops inner))"

definition given :: "owned_op list \<Rightarrow> raw_fd list" where
  "given ops = concat (map (\<lambda>op. case op of Swap fd \<Rightarrow> [fd] | Release \<Rightarrow> []) ops)"

lemma owned_run_accounts:
  "owned_run ops inner = Some (out, held) \<Longrightarrow>
     mset (filter owned_is_valid (inner # given ops)) = mset (filter owned_is_valid (out @ [held]))"
  by (induction ops inner arbitrary: out rule: owned_run.induct)
    (auto simp: given_def owned_swap_def owned_release_def owned_is_valid_def bind_eq_Some_conv split: if_splits)

text \<open>Every descriptor given to an owner is handed back or closed exactly once: over any run of swaps and
  releases followed by the drop, those put in are, with their multiplicities, those that came out together
  with those the drop closes.\<close>

theorem owned_descriptor_closed_once:
  assumes "owned_new fd = Some inner" "owned_run ops inner = Some (out, held)"
  shows "mset (fd # filter owned_is_valid (given ops)) = mset (filter owned_is_valid out) + mset (owned_drop held)"
  using owned_run_accounts [OF assms(2)] assms(1)
  by (auto simp: owned_new_def owned_drop_def owned_release_def owned_is_valid_def Let_def split: if_splits)

theorem owned_descriptor_closed_once_witness:
  "\<exists>out held. owned_run [Swap 5, Release, Swap 6] 4 = Some (out, held) \<and> mset (owned_drop held) = {#6#} \<and>
     mset [4, 5, 6] = mset (filter owned_is_valid out) + mset (owned_drop held)"
proof -
  obtain out held where r: "owned_run [Swap 5, Release, Swap 6] 4 = Some (out, held)" "held = 6"
    by (simp add: owned_swap_def owned_release_def INVALID_FD_def)
  then show ?thesis
    using owned_descriptor_closed_once [of 4 4 "[Swap 5, Release, Swap 6]" out held]
    by (auto simp: owned_new_def INVALID_FD_def given_def owned_is_valid_def owned_drop_def owned_release_def)
qed

text \<open>What the kernel documents of the counter behind a channel that is neither blocking nor a semaphore: a write
  adds to it, a read takes all of it, and a read of zero would block.\<close>

definition adds_up :: "'w write_call \<Rightarrow> 'w read_call \<Rightarrow> raw_fd \<Rightarrow> ('w \<Rightarrow> nat) \<Rightarrow> bool" where
  "adds_up write_fd read_fd fd counter \<longleftrightarrow>
     (\<forall>w (v :: u64). counter w + unat v < 2 ^ 64 - 1 \<longrightarrow>
        (\<exists>w'. write_fd fd (le_bytes 8 v) w = (Inr 8, w') \<and> counter w' = counter w + unat v)) \<and>
     (\<forall>w. 0 < counter w \<longrightarrow>
        (\<exists>w'. read_fd fd 8 w = (Inr (8, le_bytes 8 (of_nat (counter w) :: u64)), w') \<and> counter w' = 0)) \<and>
     (\<forall>w. counter w = 0 \<longrightarrow> (\<exists>w'. read_fd fd 8 w = (Inl EAGAIN, w') \<and> counter w' = 0))"

fun send_all :: "'w write_call \<Rightarrow> raw_fd \<Rightarrow> u64 list \<Rightarrow> 'w \<Rightarrow> (channel_error + unit) list \<times> 'w" where
  "send_all write_fd fd [] w = ([], w)"
| "send_all write_fd fd (v # vs) w =
     (let (r, w) = channel_send write_fd fd v w; (rs, w) = send_all write_fd fd vs w in (r # rs, w))"

lemma send_all_adds_up:
  assumes "adds_up write_fd read_fd fd counter" "counter w + sum_list (map unat vs) < 2 ^ 64 - 1"
  shows "\<exists>w'. send_all write_fd fd vs w = (replicate (length vs) (Inr ()), w') \<and>
    counter w' = counter w + sum_list (map unat vs)"
  using assms(2)
proof (induction vs arbitrary: w)
  case (Cons v vs)
  then obtain w1 where w1: "write_fd fd (le_bytes 8 v) w = (Inr 8, w1)" "counter w1 = counter w + unat v"
    using assms(1) [unfolded adds_up_def, THEN conjunct1, rule_format, of w v] by auto
  with Cons.IH [of w1] Cons.prems show ?case by (auto simp: channel_send_def Let_def add.assoc)
qed simp

text \<open>A channel adds up what is sent before it is read: when the sum fits the counter, every send succeeds,
  the next receive gives the sum of what was there and of all that was sent, and the one after that
  finds nothing.\<close>

theorem channel_receives_sum:
  assumes "adds_up write_fd read_fd fd counter" "counter w + sum_list (map unat vs) < 2 ^ 64 - 1"
    "0 < counter w + sum_list (map unat vs)"
  shows "let (rs, w1) = send_all write_fd fd vs w; (r, w2) = channel_recv read_fd fd w1 in
    rs = replicate (length vs) (Inr ()) \<and> r = Inr (of_nat (counter w + sum_list (map unat vs))) \<and>
    fst (channel_recv read_fd fd w2) = Inl (FailedToReceiveEvent EAGAIN)"
proof -
  obtain w1 where w1: "send_all write_fd fd vs w = (replicate (length vs) (Inr ()), w1)"
    "counter w1 = counter w + sum_list (map unat vs)"
    using send_all_adds_up [OF assms(1,2)] by blast
  obtain w2 where w2: "read_fd fd 8 w1 = (Inr (8, le_bytes 8 (of_nat (counter w1) :: u64)), w2)" "counter w2 = 0"
    using assms(1,3) w1(2) unfolding adds_up_def by metis
  obtain w3 where "read_fd fd 8 w2 = (Inl EAGAIN, w3)" using assms(1) w2(2) unfolding adds_up_def by metis
  with w1 w2 show ?thesis by (simp add: channel_recv_def Let_def of_le_bytes_le_bytes)
qed

text \<open>C35. Draining returns: on a counter whose reads take something off it, all of it or one at a time, and would
  block at zero, the loop ends after finitely many reads with the counter at zero and no error.\<close>

theorem channel_drain_returns:
  assumes "\<forall>w. if counter w = 0 then \<exists>w'. read_fd fd 8 w = (Inl EAGAIN, w') \<and> counter w' = (0::nat)
    else \<exists>data w'. read_fd fd 8 w = (Inr (8, data), w') \<and> counter w' < counter w"
  shows "\<exists>w'. channel_drain read_fd fd w = Some (Inr (), w') \<and> counter w' = 0"
proof (induction "counter w" arbitrary: w rule: less_induct)
  case less
  show ?case
  proof (cases "counter w = 0")
    case True
    then obtain w' where "read_fd fd 8 w = (Inl EAGAIN, w')" "counter w' = 0" using assms by metis
    then show ?thesis by (subst channel_drain.simps) simp
  next
    case False
    then obtain data w' where r: "read_fd fd 8 w = (Inr (8, data), w')" "counter w' < counter w"
      using assms by metis
    with less [OF r(2)] show ?thesis by (subst channel_drain.simps) simp
  qed
qed

text \<open>A counter read one at a time, as a semaphore channel is.\<close>

definition semaphore_read :: "nat read_call" where
  "semaphore_read fd n c = (if c = 0 then (Inl EAGAIN, 0) else (Inr (8, le_bytes 8 (1 :: u64)), c - 1))"

definition counter_read :: "nat read_call" where
  "counter_read fd n c = (if c = 0 then (Inl EAGAIN, 0) else (Inr (8, le_bytes 8 (of_nat c :: u64)), 0))"

definition counter_write :: "nat write_call" where
  "counter_write fd bs c =
     (let n = c + unat (of_le_bytes bs :: u64) in if n < 2 ^ 64 - 1 then (Inr 8, n) else (Inl EAGAIN, c))"

theorem channel_drain_returns_witness: "\<exists>c. channel_drain semaphore_read 3 5 = Some (Inr (), c) \<and> c = 0"
  using channel_drain_returns [where counter = id and read_fd = semaphore_read and fd = 3 and w = 5]
  by (simp add: semaphore_read_def)

lemma counter_adds_up: "adds_up counter_write counter_read fd id"
  by (auto simp: adds_up_def counter_write_def counter_read_def of_le_bytes_le_bytes Let_def)

theorem channel_receives_sum_witness:
  "fst (channel_recv counter_read 3 (snd (send_all counter_write 3 [1, 2, 1] 0))) = Inr 4"
  using channel_receives_sum [OF counter_adds_up, of 0 "[1, 2, 1]" 3] by (simp add: split_beta Let_def)

end
