(* ===== verification/Event_Source.thy ===== *)
theory Event_Source
  imports Pool
begin

text \<open>
  Event sources (\<open>register_event_source\<close> of \<open>src/pool.rs\<close>, \<open>src/events/receiver.rs\<close>, \<open>source.rs\<close>): a task on some
  worker registers a descriptor with the worker's poller, gives its handler a receiver of the descriptor's
  events, and takes everything back when the handler returns. The handler is the user's code, an argument; it
  shares the worker's registries and whatever else its world extends them with. The calls of \<open>epoll\<close> are arguments.
\<close>

section \<open>Registries and receivers\<close>

type_synonym epoll_call = "epoll_op \<Rightarrow> raw_fd \<Rightarrow> (u32 \<times> u64) option \<Rightarrow> os_error + unit"

record worker_events =
  we_interests :: poller_registry
  we_queues :: event_registry

record event_receiver =
  er_source :: raw_fd
  er_key :: u64

text \<open>\<open>EventReceiver\<close>: the queue it shares is the registry's entry for its key.\<close>

definition receiver_next_event ::
  "event_receiver \<Rightarrow> waker \<Rightarrow> 'x worker_events_scheme \<Rightarrow> event poll option \<times> 'x worker_events_scheme" where
  "receiver_next_event r wkr w =
     (case map_of (we_queues w) (er_key r) of
        None \<Rightarrow> (None, w)
      | Some q \<Rightarrow>
          (let (p, q) = next_event_poll wkr q in
           (Some p, w\<lparr>we_queues := registry_register (er_key r) q (we_queues w)\<rparr>)))"

definition receiver_modify_interest ::
  "epoll_call \<Rightarrow> event_receiver \<Rightarrow> i32 \<Rightarrow> 'x worker_events_scheme \<Rightarrow> poller_registry_error + unit" where
  "receiver_modify_interest epoll r interest w = modify_interest epoll (er_key r) interest (we_interests w)"

section \<open>The task\<close>

text \<open>The task before its first poll, while its handler runs, and after.\<close>

datatype 'h source_task = SourceStart | SourceHandling event_receiver 'h | SourceDone

text \<open>The end of the task; a failed deregistration is ignored.\<close>

definition source_end :: "epoll_call \<Rightarrow> event_receiver \<Rightarrow> 'x worker_events_scheme \<Rightarrow> 'x worker_events_scheme" where
  "source_end epoll r w =
     w\<lparr>we_interests := snd (deregister_interest epoll (er_key r) (we_interests w)),
       we_queues := registry_remove (er_key r) (we_queues w)\<rparr>"

definition source_handle ::
  "epoll_call \<Rightarrow> ('h \<Rightarrow> waker \<Rightarrow> 'x worker_events_scheme \<Rightarrow> unit poll \<times> 'h \<times> 'x worker_events_scheme) \<Rightarrow> waker
    \<Rightarrow> event_receiver \<Rightarrow> 'h
    \<Rightarrow> 'x worker_events_scheme \<Rightarrow> unit poll \<times> 'h source_task \<times> 'x worker_events_scheme" where
  "source_handle epoll hpoll wkr r h w =
     (case hpoll h wkr w of
        (PollPending, h, w) \<Rightarrow> (PollPending, SourceHandling r h, w)
      | (PollReady _, h, w) \<Rightarrow> (PollReady (), SourceDone, source_end epoll r w))"

text \<open>\<open>handler\<close> is the future the handler makes of the receiver. A failed registration ends the task.\<close>

fun source_poll ::
  "epoll_call \<Rightarrow> ('h \<Rightarrow> waker \<Rightarrow> 'x worker_events_scheme \<Rightarrow> unit poll \<times> 'h \<times> 'x worker_events_scheme)
    \<Rightarrow> (event_receiver \<Rightarrow> 'h) \<Rightarrow> raw_fd \<Rightarrow> i32 \<Rightarrow> waker \<Rightarrow> 'h source_task \<Rightarrow> 'x worker_events_scheme \<Rightarrow> unit poll \<times> 'h source_task \<times> 'x worker_events_scheme" where
  "source_poll epoll hpoll handler source interest wkr SourceStart w =
     (case register_interest epoll source interest (we_interests w) of
        (Inl _, i) \<Rightarrow> (PollReady (), SourceDone, w\<lparr>we_interests := i\<rparr>)
      | (Inr k, i) \<Rightarrow>
          (let r = \<lparr>er_source = source, er_key = k\<rparr> in
           source_handle epoll hpoll wkr r (handler r)
             (w\<lparr>we_interests := i, we_queues := registry_register k event_queue_new (we_queues w)\<rparr>)))"
| "source_poll epoll hpoll handler source interest wkr (SourceHandling r h) w =
     source_handle epoll hpoll wkr r h w"
| "source_poll epoll hpoll handler source interest wkr SourceDone w = (PollReady (), SourceDone, w)"

section \<open>Dispatch\<close>

text \<open>\<open>task\<close> is the future of the task on the worker that is chosen. \<open>None\<close> is the branch of the send error.\<close>

definition pool_register_event_source ::
  "bool \<Rightarrow> bool \<Rightarrow> (nat \<Rightarrow> 'f) \<Rightarrow> raw_fd \<Rightarrow> u64 \<Rightarrow> ('f, 'st) pool
    \<Rightarrow> (('f, 'st, raw_fd) dispatch_error + unit) \<times> u64 \<times> ('f, 'st) pool" where
  "pool_register_event_source sig1 sig2 task source next_task p =
     (case get_next_worker p of
        (Inl _, p) \<Rightarrow> (Inl (FailedToFindWorker source), next_task, p)
      | (Inr i, p) \<Rightarrow>
          (let (t, next_task) = local_task_new (task i) next_task;
               (r, wk) = worker_spawn sig1 sig2 t (workers p ! i)
           in (map_err FailedToSendMessage r, next_task, set_worker i wk p)))"

section \<open>Properties\<close>

lemma deregister_gone: "map_of (key_fds (snd (deregister_interest epoll k r))) k = None"
  by (auto simp: deregister_interest_def delete_conv' split: option.splits)

lemma source_end_gone:
  "map_of (key_fds (we_interests (source_end epoll r w))) (er_key r) = None"
  "map_of (we_queues (source_end epoll r w)) (er_key r) = None"
  by (simp_all add: source_end_def deregister_gone registry_remove_def delete_conv')

text \<open>The key a task holds: none before it registered and after it is done.\<close>

fun held_key :: "'h source_task \<Rightarrow> u64 option" where
  "held_key (SourceHandling r h) = Some (er_key r)"
| "held_key _ = None"

text \<open>An event source cleans up after itself: whatever its handler does with the worker's registries, when the
  task that registered a key comes to its end, in the first poll or a later one, neither the poller nor the
  queue registry has that key any more.\<close>

theorem event_source_cleans_up:
  assumes "source_poll epoll hpoll handler source interest wkr t w = (PollReady (), t', w')"
    "case t of SourceStart \<Rightarrow> k = generator (we_interests w) \<and> map_of (key_fds (we_interests w)) k = None \<and>
        map_of (we_queues w) k = None
      | SourceHandling r h \<Rightarrow> k = er_key r
      | SourceDone \<Rightarrow> False"
  shows "t' = SourceDone \<and> map_of (key_fds (we_interests w')) k = None \<and> map_of (we_queues w') k = None"
  using assms
  by (cases t)
    (auto simp: source_handle_def register_interest_def Let_def source_end_gone
      [where r = "\<lparr>er_source = source, er_key = generator (we_interests w)\<rparr>", simplified] source_end_gone
      split: prod.splits poll.splits sum.splits)

text \<open>A handler that waits for one event.\<close>

definition once_poll :: "event_receiver \<Rightarrow> waker \<Rightarrow> worker_events \<Rightarrow> unit poll \<times> event_receiver \<times> worker_events" where
  "once_poll r wkr w =
     (case receiver_next_event r wkr w of
        (Some (PollReady _), w) \<Rightarrow> (PollReady (), r, w)
      | (_, w) \<Rightarrow> (PollPending, r, w))"

definition no_events :: worker_events where
  "no_events = \<lparr>we_interests = poller_registry_new, we_queues = []\<rparr>"

theorem event_source_cleans_up_witness:
  "\<exists>t w t' w'. source_poll (\<lambda>_ _ _. Inr ()) once_poll id 7 1 4 SourceStart no_events = (PollPending, t, w) \<and>
     source_poll (\<lambda>_ _ _. Inr ()) once_poll id 7 1 4 t
       (w\<lparr>we_queues := snd (push_event \<lparr>event_type = 1, event_key = 100\<rparr> (we_queues w))\<rparr>) = (PollReady (), t', w') \<and>
     map_of (we_queues w') 100 = None"
proof -
  obtain w where w: "source_poll (\<lambda>_ _ _. Inr ()) once_poll id 7 1 4 SourceStart no_events =
      (PollPending, SourceHandling \<lparr>er_source = 7, er_key = 100\<rparr> \<lparr>er_source = 7, er_key = 100\<rparr>, w)"
    "we_queues w = [(100, \<lparr>eq_events = [], eq_wakers = [4]\<rparr>)]"
    by (simp add: Let_def no_events_def poller_registry_new_def register_interest_def source_handle_def once_poll_def
        receiver_next_event_def registry_register_def event_queue_new_def next_event_poll_def queue_pop_def
        register_waker_def)
  obtain t' w' where "source_poll (\<lambda>_ _ _. Inr ()) once_poll id 7 1 4
      (SourceHandling \<lparr>er_source = 7, er_key = 100\<rparr> \<lparr>er_source = 7, er_key = 100\<rparr>)
      (w\<lparr>we_queues := snd (push_event \<lparr>event_type = 1, event_key = 100\<rparr> (we_queues w))\<rparr>) = (PollReady (), t', w')"
    using w(2) by (simp add: Let_def push_event_def queue_push_def source_handle_def once_poll_def receiver_next_event_def
        registry_register_def next_event_poll_def queue_pop_def)
  with w(1) event_source_cleans_up [OF this, of 100] show ?thesis by auto
qed

end
