(* ===== verification/Subscriptions.thy ===== *)
theory Subscriptions
  imports Pool Transition
begin

text \<open>
  Subscriptions to the notifications of a worker (\<open>notify_on\<close> of \<open>src/worker/mod.rs\<close> and \<open>src/pool.rs\<close>,
  \<open>src/notifications/subscription.rs\<close>) over the broadcast channel of its library, which is an argument: what the
  library documents of a channel with a bound are the laws of \<open>broadcast_laws\<close>. A receiver is its number.
\<close>

section \<open>The channel and the subscriptions\<close>

text \<open>\<open>bc_send\<close> is \<open>broadcast_blocking\<close>: \<open>None\<close> while the caller is blocked, \<open>Inl\<close> when nobody can receive.\<close>

record 'c broadcast_api =
  bc_send :: "notification \<Rightarrow> 'c \<Rightarrow> ((unit + unit) \<times> 'c) option"
  bc_clone :: "nat \<Rightarrow> 'c \<Rightarrow> nat \<times> 'c"
  bc_poll :: "nat \<Rightarrow> 'c \<Rightarrow> notification option poll \<times> 'c"
  bc_drop :: "nat \<Rightarrow> 'c \<Rightarrow> 'c"

record subscription =
  sb_receiver :: nat
  sb_flags :: u64

definition subscription_new :: "nat \<Rightarrow> u64 \<Rightarrow> subscription" where
  "subscription_new r flags = \<lparr>sb_receiver = r, sb_flags = flags\<rparr>"

definition update_flags :: "u64 \<Rightarrow> subscription \<Rightarrow> subscription" where
  "update_flags flags s = s\<lparr>sb_flags := flags\<rparr>"

text \<open>One poll of the future of \<open>recv\<close>.\<close>

definition subscription_recv ::
  "'c broadcast_api \<Rightarrow> subscription \<Rightarrow> 'c \<Rightarrow> ((notification_error + notification) poll \<times> 'c) option" where
  "subscription_recv api s c = notification_poll (bc_poll api (sb_receiver s)) (sb_flags s) c"

text \<open>\<open>notify_on\<close> of a worker and of a handle, which hold the receiver \<open>rx\<close>; a handle clones the worker's.\<close>

definition worker_notify_on :: "'c broadcast_api \<Rightarrow> nat \<Rightarrow> u64 \<Rightarrow> 'c \<Rightarrow> subscription \<times> 'c" where
  "worker_notify_on api rx flags c = (let (r, c) = bc_clone api rx c in (subscription_new r flags, c))"

definition handle_notify_on :: "'c broadcast_api \<Rightarrow> nat \<Rightarrow> u64 \<Rightarrow> 'c \<Rightarrow> subscription \<times> 'c" where
  "handle_notify_on api rx flags c = (let (r, c) = bc_clone api rx c in (subscription_new r flags, c))"

definition worker_as_handle :: "'c broadcast_api \<Rightarrow> nat \<Rightarrow> 'c \<Rightarrow> nat \<times> 'c" where
  "worker_as_handle api rx c = bc_clone api rx c"

text \<open>\<open>notify_on\<close> of the pool; \<open>rx\<close> is the receiver each worker holds and \<open>cs\<close> the channel of each.\<close>

definition pool_notify_on ::
  "'c broadcast_api \<Rightarrow> (nat \<Rightarrow> nat) \<Rightarrow> u64 \<Rightarrow> ('f, 'st) pool \<Rightarrow> (nat \<Rightarrow> 'c)
    \<Rightarrow> (next_worker_error + subscription) \<times> ('f, 'st) pool \<times> (nat \<Rightarrow> 'c)" where
  "pool_notify_on api rx flags p cs =
     (case get_next_worker p of
        (Inl e, p) \<Rightarrow> (Inl e, p, cs)
      | (Inr i, p) \<Rightarrow>
          (let (s, c) = worker_notify_on api (rx i) flags (cs i) in (Inr s, p, cs(i := c))))"

text \<open>What the thread of the worker calls for a notification.\<close>

definition thread_broadcast :: "'c broadcast_api \<Rightarrow> notification \<Rightarrow> 'c \<Rightarrow> ((unit + unit) \<times> 'c) option" where
  "thread_broadcast api n c = bc_send api n c"

section \<open>A worker and its subscribers\<close>

record 'c notify_sys =
  ns_channel :: 'c
  ns_subs :: "subscription list"
  ns_handles :: "nat list"                \<comment> \<open>the receivers of the handles\<close>
  ns_sent :: "notification list"

datatype notify_action =
    Notify notification | Subscribe u64 | SubscribeBy nat u64 | TakeHandle | Recv nat | SetFlags nat u64 | Unsubscribe nat

definition notify_init :: "'c \<Rightarrow> 'c notify_sys" where
  "notify_init c = \<lparr>ns_channel = c, ns_subs = [], ns_handles = [], ns_sent = []\<rparr>"

fun notify_act :: "'c broadcast_api \<Rightarrow> nat \<Rightarrow> notify_action \<Rightarrow> 'c notify_sys \<Rightarrow> 'c notify_sys option" where
  "notify_act api rx (Notify n) s =
     map_option (\<lambda>(r, c). s\<lparr>ns_channel := c, ns_sent := ns_sent s @ (if r = Inr () then [n] else [])\<rparr>)
       (thread_broadcast api n (ns_channel s))"
| "notify_act api rx (Subscribe flags) s =
     (let (b, c) = worker_notify_on api rx flags (ns_channel s) in
      Some (s\<lparr>ns_channel := c, ns_subs := ns_subs s @ [b]\<rparr>))"
| "notify_act api rx (SubscribeBy i flags) s =
     (if i < length (ns_handles s) then
        (let (b, c) = handle_notify_on api (ns_handles s ! i) flags (ns_channel s) in
         Some (s\<lparr>ns_channel := c, ns_subs := ns_subs s @ [b]\<rparr>))
      else None)"
| "notify_act api rx TakeHandle s =
     (let (r, c) = worker_as_handle api rx (ns_channel s) in
      Some (s\<lparr>ns_channel := c, ns_handles := ns_handles s @ [r]\<rparr>))"
| "notify_act api rx (Recv i) s =
     (if i < length (ns_subs s) then
        map_option (\<lambda>(_, c). s\<lparr>ns_channel := c\<rparr>) (subscription_recv api (ns_subs s ! i) (ns_channel s))
      else None)"
| "notify_act api rx (SetFlags i flags) s =
     (if i < length (ns_subs s) then Some (s\<lparr>ns_subs := (ns_subs s)[i := update_flags flags (ns_subs s ! i)]\<rparr>)
      else None)"
| "notify_act api rx (Unsubscribe i) s =
     (if i < length (ns_subs s) then
        Some (s\<lparr>ns_subs := take i (ns_subs s) @ drop (Suc i) (ns_subs s),
                ns_channel := bc_drop api (sb_receiver (ns_subs s ! i)) (ns_channel s)\<rparr>)
      else None)"

text \<open>What the library documents of a channel that holds \<open>cap\<close> messages: sending waits while some receiver has not
  taken the oldest of \<open>cap\<close> messages and gives the message to every receiver otherwise, a clone of a receiver has
  the same messages queued, and a receiver takes its messages in order.\<close>

definition broadcast_laws :: "nat \<Rightarrow> 'c broadcast_api \<Rightarrow> ('c \<Rightarrow> nat \<Rightarrow> notification list option) \<Rightarrow> bool" where
  "broadcast_laws cap api queued \<longleftrightarrow>
     (\<forall>n c r q. queued c r = Some q \<longrightarrow> cap \<le> length q \<longrightarrow> bc_send api n c = None) \<and>
     (\<forall>n c r q. queued c r = Some q \<longrightarrow> (\<forall>r q. queued c r = Some q \<longrightarrow> length q < cap) \<longrightarrow>
        (\<exists>c'. bc_send api n c = Some (Inr (), c') \<and> (\<forall>r. queued c' r = map_option (\<lambda>q. q @ [n]) (queued c r)))) \<and>
     (\<forall>c r q r' c'. queued c r = Some q \<longrightarrow> bc_clone api r c = (r', c') \<longrightarrow>
        queued c r' = None \<and> queued c' = (queued c)(r' \<mapsto> q)) \<and>
     (\<forall>c r q. queued c r = Some q \<longrightarrow>
        fst (bc_poll api r c) = (case q of [] \<Rightarrow> PollPending | n # _ \<Rightarrow> PollReady (Some n)) \<and>
        queued (snd (bc_poll api r c)) = (queued c)(r \<mapsto> tl q)) \<and>
     (\<forall>c r. queued (bc_drop api r c) = (queued c)(r := None))"

lemmas broadcast_lawsD =
  iffD1 [OF broadcast_laws_def, THEN conjunct1, rule_format]
  iffD1 [OF broadcast_laws_def, THEN conjunct2, THEN conjunct1, rule_format]
  iffD1 [OF broadcast_laws_def, THEN conjunct2, THEN conjunct2, THEN conjunct1, rule_format]
  iffD1 [OF broadcast_laws_def, THEN conjunct2, THEN conjunct2, THEN conjunct2, THEN conjunct1, rule_format]
  iffD1 [OF broadcast_laws_def, THEN conjunct2, THEN conjunct2, THEN conjunct2, THEN conjunct2, rule_format]

text \<open>A poll of \<open>recv\<close> gives the first queued notification its flags ask for and leaves the other receivers alone.\<close>

lemma recv_first:
  assumes "broadcast_laws cap api queued" "queued c (sb_receiver b) = Some q"
  shows "\<exists>p c' q'. subscription_recv api b c = Some (p, c') \<and> queued c' = (queued c)(sb_receiver b \<mapsto> q') \<and>
    (case dropWhile (\<lambda>n. \<not> flags_match (sb_flags b) n) q of
       n # ns \<Rightarrow> p = PollReady (Inr n) \<and> q' = ns
     | [] \<Rightarrow> p \<in> {PollPending, PollReady (Inl StreamClosed)} \<and> q' = [])"
proof -
  let ?r = "sb_receiver b"
  let ?ok = "\<lambda>d. \<exists>q. queued d = (queued c)(?r \<mapsto> q)" and ?queued = "\<lambda>d. the (queued d ?r)"
  have step: "fst (bc_poll api ?r d) = (case ?queued d of [] \<Rightarrow> PollPending | n # _ \<Rightarrow> PollReady (Some n)) \<and>
      queued (snd (bc_poll api ?r d)) = (queued c)(?r \<mapsto> tl (?queued d))" if "?ok d" for d
    using that broadcast_lawsD(4) [OF assms(1), of d ?r "?queued d"] by auto
  have "?ok c" using assms(2) by (intro exI [of _ q]) (simp add: fun_upd_idem)
  then obtain p c' q' where "notification_poll (bc_poll api ?r) (sb_flags b) c = Some (p, c')"
    "queued c' = (queued c)(?r \<mapsto> q')"
    "(case dropWhile (\<lambda>n. \<not> flags_match (sb_flags b) n) (?queued c) of
       n # ns \<Rightarrow> p = PollReady (Inr n) \<and> ?queued c' = ns
     | [] \<Rightarrow> p \<in> {PollPending, PollReady (Inl StreamClosed)} \<and> ?queued c' = [])"
    using notification_poll_first [where ok = ?ok and queued = ?queued and poll_next = "bc_poll api ?r"
        and flags = "sb_flags b" and r = c] step by fastforce
  with assms(2) show ?thesis
    by (intro exI [of _ p] exI [of _ c'] exI [of _ q']) (auto simp: subscription_recv_def simp del: dropWhile_eq_Nil_conv split: list.splits)
qed

section \<open>The worker's own receiver\<close>

text \<open>The worker keeps a receiver that nobody reads: all that was ever sent is queued there.\<close>

definition receivers :: "nat \<Rightarrow> 'c notify_sys \<Rightarrow> nat list" where
  "receivers rx s = rx # ns_handles s @ map sb_receiver (ns_subs s)"

definition notify_inv :: "nat \<Rightarrow> ('c \<Rightarrow> nat \<Rightarrow> notification list option) \<Rightarrow> nat \<Rightarrow> 'c notify_sys \<Rightarrow> bool" where
  "notify_inv cap queued rx s \<longleftrightarrow>
     queued (ns_channel s) rx = Some (ns_sent s) \<and> length (ns_sent s) \<le> cap \<and> distinct (receivers rx s) \<and>
     (\<forall>r \<in> set (receivers rx s). queued (ns_channel s) r \<noteq> None)"

lemma notify_invD:
  assumes "notify_inv cap queued rx s"
  shows "queued (ns_channel s) rx = Some (ns_sent s)" "length (ns_sent s) \<le> cap"
    "r \<in> set (ns_handles s) \<union> sb_receiver ` set (ns_subs s) \<Longrightarrow> r \<noteq> rx \<and> (\<exists>q. queued (ns_channel s) r = Some q)"
  using assms by (auto simp: notify_inv_def receivers_def)

lemma notify_inv_clone:
  assumes "broadcast_laws cap api queued" "notify_inv cap queued rx s" "r \<in> set (receivers rx s)"
    "bc_clone api r (ns_channel s) = (r', c)"
  shows "notify_inv cap queued rx (s\<lparr>ns_channel := c, ns_subs := ns_subs s @ [subscription_new r' flags]\<rparr>)"
    "notify_inv cap queued rx (s\<lparr>ns_channel := c, ns_handles := ns_handles s @ [r']\<rparr>)"
proof -
  obtain q where "queued (ns_channel s) r = Some q" using assms(2,3) by (auto simp: notify_inv_def)
  note c = broadcast_lawsD(3) [OF assms(1) this assms(4)]
  then have "r' \<notin> set (receivers rx s)" using assms(2) by (auto simp: notify_inv_def)
  with c assms(2)
  show "notify_inv cap queued rx (s\<lparr>ns_channel := c, ns_subs := ns_subs s @ [subscription_new r' flags]\<rparr>)"
    "notify_inv cap queued rx (s\<lparr>ns_channel := c, ns_handles := ns_handles s @ [r']\<rparr>)"
    by (auto simp: notify_inv_def receivers_def subscription_new_def)
qed

lemma notify_inv_step:
  assumes "broadcast_laws cap api queued" "notify_inv cap queued rx s" "notify_act api rx a s = Some t"
  shows "notify_inv cap queued rx t"
proof (cases a)
  case (Notify n)
  then have "bc_send api n (ns_channel s) \<noteq> None" using assms(3) by (auto simp: thread_broadcast_def)
  then have room: "\<forall>r q. queued (ns_channel s) r = Some q \<longrightarrow> length q < cap"
    using broadcast_lawsD(1) [OF assms(1)] by (meson not_le)
  then obtain c where c: "bc_send api n (ns_channel s) = Some (Inr (), c)"
    "\<forall>r. queued c r = map_option (\<lambda>q. q @ [n]) (queued (ns_channel s) r)"
    using broadcast_lawsD(2) [OF assms(1) notify_invD(1) [OF assms(2)]] by blast
  have "length (ns_sent s) < cap" using room notify_invD(1) [OF assms(2)] by blast
  then show ?thesis using assms(2,3) Notify c by (auto simp: thread_broadcast_def notify_inv_def receivers_def)
next
  case (Subscribe flags)
  obtain r c where "bc_clone api rx (ns_channel s) = (r, c)" by fastforce
  then show ?thesis
    using notify_inv_clone(1) [OF assms(1,2), of rx] assms(3) Subscribe
    by (auto simp: worker_notify_on_def receivers_def)
next
  case (SubscribeBy i flags)
  obtain r c where "bc_clone api (ns_handles s ! i) (ns_channel s) = (r, c)" by fastforce
  then show ?thesis
    using notify_inv_clone(1) [OF assms(1,2), of "ns_handles s ! i"] assms(3) SubscribeBy
    by (auto simp: handle_notify_on_def receivers_def split: if_splits)
next
  case TakeHandle
  obtain r c where "bc_clone api rx (ns_channel s) = (r, c)" by fastforce
  then show ?thesis
    using notify_inv_clone(2) [OF assms(1,2), of rx] assms(3) TakeHandle
    by (auto simp: worker_as_handle_def receivers_def)
next
  case (Recv i)
  then have i: "i < length (ns_subs s)" using assms(3) by (simp split: if_splits)
  then obtain q where q: "queued (ns_channel s) (sb_receiver (ns_subs s ! i)) = Some q" "sb_receiver (ns_subs s ! i) \<noteq> rx"
    using notify_invD(3) [OF assms(2), of "sb_receiver (ns_subs s ! i)"] by auto
  from recv_first [OF assms(1) q(1)] show ?thesis
    using assms(2,3) q(2) i Recv by (auto simp: notify_inv_def receivers_def)
next
  case (SetFlags i flags)
  then have i: "i < length (ns_subs s)" "t = s\<lparr>ns_subs := (ns_subs s)[i := update_flags flags (ns_subs s ! i)]\<rparr>"
    using assms(3) by (simp_all split: if_splits)
  then have "map sb_receiver (ns_subs t) = map sb_receiver (ns_subs s)"
    by (auto simp: update_flags_def map_update intro: list_update_same_conv [THEN iffD2])
  then have "receivers rx t = receivers rx s" using i(2) by (simp add: receivers_def)
  then show ?thesis using assms(2) i(2) by (simp add: notify_inv_def)
next
  case (Unsubscribe i)
  then have i: "i < length (ns_subs s)" using assms(3) by (simp split: if_splits)
  then obtain xs ys where xs: "ns_subs s = xs @ ns_subs s ! i # ys" "take i (ns_subs s) = xs" "drop (Suc i) (ns_subs s) = ys"
    using id_take_nth_drop [OF i] by auto
  have t: "t = s\<lparr>ns_subs := xs @ ys, ns_channel := bc_drop api (sb_receiver (ns_subs s ! i)) (ns_channel s)\<rparr>"
    using assms(3) Unsubscribe i xs(2,3) by simp
  have "receivers rx s = rx # ns_handles s @ map sb_receiver xs @ sb_receiver (ns_subs s ! i) # map sb_receiver ys"
    unfolding receivers_def by (subst xs(1)) simp
  then show ?thesis
    using assms(2) t broadcast_lawsD(5) [OF assms(1)] by (auto simp: notify_inv_def receivers_def)
qed

lemma reachable_notify_inv:
  assumes "broadcast_laws cap api queued" "queued c rx = Some []" "reachable (notify_act api rx) (notify_init c) s"
  shows "notify_inv cap queued rx s"
  using assms(3)
proof induction
  case reach_init
  then show ?case using assms(2) by (simp add: notify_inv_def receivers_def notify_init_def)
qed (rule notify_inv_step [OF assms(1)])

text \<open>The bound the worker gives its channel.\<close>

definition NOTIFICATION_CAPACITY :: nat where
  "NOTIFICATION_CAPACITY = 128"

text \<open>C32. A worker takes no more than 128 notifications in its life. Its own receiver keeps all of them, however its
  subscribers read, come and go, so that the thread that broadcasts the next one waits for ever.\<close>

theorem notifications_block:
  assumes "broadcast_laws NOTIFICATION_CAPACITY api queued" "queued c rx = Some []"
    "reachable (notify_act api rx) (notify_init c) s"
  shows "length (ns_sent s) \<le> NOTIFICATION_CAPACITY \<and>
    (length (ns_sent s) = NOTIFICATION_CAPACITY \<longrightarrow>
       (\<forall>n as t. run (notify_act api rx) as s = Some t \<longrightarrow> thread_broadcast api n (ns_channel t) = None))"
proof -
  have "thread_broadcast api n (ns_channel t) = None"
    if full: "length (ns_sent s) = NOTIFICATION_CAPACITY" and t: "run (notify_act api rx) as s = Some t" for n as t
  proof -
    have "length (ns_sent s) \<le> length (ns_sent t)"
      using t
    proof (induction as arbitrary: s)
      case (Cons a as)
      then obtain u where u: "notify_act api rx a s = Some u" "length (ns_sent u) \<le> length (ns_sent t)"
        by (auto split: option.splits)
      then show ?case by (cases a) (auto simp: Let_def split: if_splits prod.splits)
    qed simp
    moreover note reachable_notify_inv [OF assms(1,2) reachable_run [OF assms(3) t]]
    ultimately show ?thesis
      using full broadcast_lawsD(1) [OF assms(1)] by (auto simp: thread_broadcast_def dest: notify_invD)
  qed
  with reachable_notify_inv [OF assms] show ?thesis by (auto dest: notify_invD)
qed

text \<open>C33. A subscription hears the past: whenever it is made, its first \<open>recv\<close> gives the first notification of its
  flags that the worker ever broadcast, one from before the subscription if there is any.\<close>

theorem subscription_hears_past:
  assumes "broadcast_laws NOTIFICATION_CAPACITY api queued" "queued c rx = Some []"
    "reachable (notify_act api rx) (notify_init c) s"
  shows "let (b, c') = worker_notify_on api rx flags (ns_channel s) in
    \<exists>p c''. subscription_recv api b c' = Some (p, c'') \<and>
      (case find (flags_match flags) (ns_sent s) of
         Some n \<Rightarrow> p = PollReady (Inr n)
       | None \<Rightarrow> p \<in> {PollPending, PollReady (Inl StreamClosed)})"
proof -
  obtain r c' where clone: "bc_clone api rx (ns_channel s) = (r, c')" by fastforce
  have "queued c' r = Some (ns_sent s)"
    using broadcast_lawsD(3) [OF assms(1) _ clone] notify_invD(1) [OF reachable_notify_inv [OF assms]] by fastforce
  then have q: "queued c' (sb_receiver (subscription_new r flags)) = Some (ns_sent s)"
    by (simp add: subscription_new_def)
  have "find P xs = (case dropWhile (\<lambda>n. \<not> P n) xs of [] \<Rightarrow> None | n # _ \<Rightarrow> Some n)"
    for P and xs :: "notification list"
    by (induction xs) auto
  with recv_first [OF assms(1) q] show ?thesis
    by (auto simp: worker_notify_on_def clone subscription_new_def simp del: dropWhile_eq_Nil_conv split: list.splits)
qed

section \<open>A channel\<close>

text \<open>The receivers below a number and what is queued for each.\<close>

type_synonym queues = "(nat \<Rightarrow> notification list option) \<times> nat"

definition queued_for :: "queues \<Rightarrow> nat \<Rightarrow> notification list option" where
  "queued_for c r = (if r < snd c then fst c r else None)"

definition demo_broadcast :: "queues broadcast_api" where
  "demo_broadcast =
     \<lparr>bc_send = \<lambda>n (m, k). if \<exists>r < k. case m r of None \<Rightarrow> False | Some q \<Rightarrow> 128 \<le> length q then None
        else Some (Inr (), (\<lambda>r. map_option (\<lambda>q. q @ [n]) (m r), k)),
      bc_clone = \<lambda>r (m, k). (k, (m(k := if r < k then m r else None), k + 1)),
      bc_poll = \<lambda>r (m, k). (case m r of Some (n # q) \<Rightarrow> (PollReady (Some n), (m(r \<mapsto> q), k)) | _ \<Rightarrow> (PollPending, (m, k))),
      bc_drop = \<lambda>r (m, k). (m(r := None), k)\<rparr>"

lemma demo_broadcast_laws: "broadcast_laws NOTIFICATION_CAPACITY demo_broadcast queued_for"
  unfolding broadcast_laws_def NOTIFICATION_CAPACITY_def
proof (intro conjI allI impI, goal_cases)
  case (1 n c r q)
  then show ?case by (cases c) (force simp: demo_broadcast_def queued_for_def split: if_splits)
next
  case (2 n c r q)
  have "\<not> (\<exists>r < snd c. case fst c r of None \<Rightarrow> False | Some q \<Rightarrow> 128 \<le> length q)"
  proof
    assume "\<exists>r < snd c. case fst c r of None \<Rightarrow> False | Some q \<Rightarrow> 128 \<le> length q"
    then obtain r q where "r < snd c" "fst c r = Some q" "128 \<le> length q" by (auto split: option.splits)
    then show False using 2(2) [rule_format, of r q] by (simp add: queued_for_def)
  qed
  then show ?case by (cases c) (auto simp: demo_broadcast_def queued_for_def)
next
  case (3 c r q r' c')
  then show ?case by (cases c) (auto simp: demo_broadcast_def queued_for_def)
next
  case (4 c r q r' c')
  then show ?case by (cases c) (auto simp: demo_broadcast_def queued_for_def fun_eq_iff split: if_splits)
next
  case (5 c r q)
  then obtain m k where "c = (m, k)" "r < k" "m r = Some q" by (cases c) (auto simp: queued_for_def split: if_splits)
  then show ?case by (cases q) (auto simp: demo_broadcast_def queued_for_def fun_eq_iff)
next
  case (6 c r q)
  then obtain m k where "c = (m, k)" "r < k" "m r = Some q" by (cases c) (auto simp: queued_for_def split: if_splits)
  then show ?case by (cases q) (auto simp: demo_broadcast_def queued_for_def fun_eq_iff)
next
  case (7 c r)
  then show ?case by (cases c) (auto simp: demo_broadcast_def queued_for_def fun_eq_iff)
qed

definition one_receiver :: queues where
  "one_receiver = ([0 \<mapsto> []], 1)"

lemma notify_many:
  "m \<le> 128 \<Longrightarrow> \<exists>s. run (notify_act demo_broadcast 0) (replicate m (Notify n)) (notify_init one_receiver) = Some s \<and>
     ns_sent s = replicate m n \<and> queued_for (ns_channel s) = [0 \<mapsto> replicate m n]"
proof (induction m)
  case 0
  then show ?case by (auto simp: notify_init_def one_receiver_def queued_for_def)
next
  case (Suc m)
  then obtain s where s: "run (notify_act demo_broadcast 0) (replicate m (Notify n)) (notify_init one_receiver) = Some s"
    "ns_sent s = replicate m n" "queued_for (ns_channel s) = [0 \<mapsto> replicate m n]"
    using Suc_leD by blast
  have "length q < NOTIFICATION_CAPACITY" if "queued_for (ns_channel s) r = Some q" for r q
    using that s(3) Suc.prems by (auto simp: NOTIFICATION_CAPACITY_def split: if_splits)
  moreover have "queued_for (ns_channel s) 0 = Some (replicate m n)" by (simp add: s(3))
  ultimately obtain c where c: "bc_send demo_broadcast n (ns_channel s) = Some (Inr (), c)"
    "\<forall>r. queued_for c r = map_option (\<lambda>q. q @ [n]) (queued_for (ns_channel s) r)"
    using broadcast_lawsD(2) [OF demo_broadcast_laws] by metis
  have "run (notify_act demo_broadcast 0) (replicate m (Notify n) @ [Notify n]) (notify_init one_receiver) =
      Some (s\<lparr>ns_channel := c, ns_sent := ns_sent s @ [n]\<rparr>)"
    using s(1) c(1) by (simp add: run_append thread_broadcast_def)
  then show ?case
    using s(2,3) c(2) by (auto simp: replicate_append_same fun_eq_iff)
qed

theorem notifications_block_witness:
  "\<exists>s. run (notify_act demo_broadcast 0) (replicate 128 (Notify ContinueNotice)) (notify_init one_receiver) = Some s \<and>
     thread_broadcast demo_broadcast KillNotice (ns_channel s) = None"
proof -
  obtain s where s: "run (notify_act demo_broadcast 0) (replicate 128 (Notify ContinueNotice)) (notify_init one_receiver) = Some s"
    "length (ns_sent s) = 128"
    using notify_many [of 128 ContinueNotice] by auto
  have "queued_for one_receiver 0 = Some []" by (simp add: one_receiver_def queued_for_def)
  note block = notifications_block [OF demo_broadcast_laws this run_reachable [OF s(1)]]
  have "run (notify_act demo_broadcast 0) [] s = Some s" by simp
  with block s(2) have "thread_broadcast demo_broadcast KillNotice (ns_channel s) = None"
    unfolding NOTIFICATION_CAPACITY_def by blast
  with s(1) show ?thesis by blast
qed

theorem subscription_hears_past_witness:
  "\<exists>s b c' p c''. run (notify_act demo_broadcast 0) (replicate 2 (Notify (Custom 7))) (notify_init one_receiver) = Some s \<and>
     worker_notify_on demo_broadcast 0 16 (ns_channel s) = (b, c') \<and>
     subscription_recv demo_broadcast b c' = Some (p, c'') \<and> p = PollReady (Inr (Custom 7))"
proof -
  obtain s where s: "run (notify_act demo_broadcast 0) (replicate 2 (Notify (Custom 7))) (notify_init one_receiver) = Some s"
    "ns_sent s = replicate 2 (Custom 7)"
    using notify_many [of 2 "Custom 7"] by auto
  have "queued_for one_receiver 0 = Some []" by (simp add: one_receiver_def queued_for_def)
  note past = subscription_hears_past [OF demo_broadcast_laws this run_reachable [OF s(1)], of 16]
  have "find (flags_match 16) (ns_sent s) = Some (Custom 7)"
    by (simp add: s(2) numeral_2_eq_2 flags_match_def flags_contain_def)
  with past s(1) show ?thesis by (auto split: prod.splits)
qed

end
