(* ===== verification/Net_Tcp.thy ===== *)
theory Net_Tcp
  imports Io_Future
begin

text \<open>
  TCP sockets (\<open>src/net/socket_options.rs\<close>, \<open>tcp_listener.rs\<close>, \<open>tcp_server.rs\<close>, \<open>tcp_stream.rs\<close>): socket
  options, listeners that go from unbound over bound to listening, servers of several listeners, and streams.
  The system calls are arguments; a call gives an error number or its result, and the world after it. A descriptor
  that is dropped is handed to the pool to be closed.
\<close>

section \<open>Socket options\<close>

record linger =
  onoff :: bool
  linger_time :: i32

datatype socket_option =
    OptDebug | OptBroadcast | OptReuseAddress | OptReusePort | OptKeepAlive | OptNoDelay
  | OptLinger linger | OptOutOfBandInline | OptSendBuffer u32 | OptReceiveBuffer u32 | OptDontRoute

abbreviation SOL_TCP :: i32 where "SOL_TCP \<equiv> 6"   \<comment> \<open>\<open>IPPROTO_TCP\<close>\<close>

definition c_int_true :: "u8 list" where "c_int_true = le_bytes 4 (1 :: i32)"

definition as_c_linger :: "linger \<Rightarrow> u8 list" where
  "as_c_linger l = le_bytes 4 (if onoff l then 1 else 0 :: i32) @ le_bytes 4 (linger_time l)"

text \<open>The level, the option's number and the bytes of its value.\<close>

fun option_args :: "socket_option \<Rightarrow> i32 \<times> i32 \<times> u8 list" where
  "option_args OptDebug = (SOL_SOCKET, 1, c_int_true)"
| "option_args OptBroadcast = (SOL_SOCKET, 6, c_int_true)"
| "option_args OptReuseAddress = (SOL_SOCKET, 2, c_int_true)"
| "option_args OptReusePort = (SOL_SOCKET, 15, c_int_true)"
| "option_args OptKeepAlive = (SOL_SOCKET, 9, c_int_true)"
| "option_args OptNoDelay = (SOL_TCP, 1, c_int_true)"
| "option_args (OptLinger l) = (SOL_SOCKET, 13, as_c_linger l)"
| "option_args OptOutOfBandInline = (SOL_SOCKET, 10, c_int_true)"
| "option_args (OptSendBuffer n) = (SOL_SOCKET, 7, le_bytes 4 n)"
| "option_args (OptReceiveBuffer n) = (SOL_SOCKET, 8, le_bytes 4 n)"
| "option_args OptDontRoute = (SOL_SOCKET, 5, c_int_true)"

text \<open>The calls.\<close>

record 'w socket_calls =
  sc_socket :: "i32 \<Rightarrow> i32 \<Rightarrow> i32 \<Rightarrow> 'w \<Rightarrow> (i32 + raw_fd) \<times> 'w"
  sc_setsockopt :: "raw_fd \<Rightarrow> i32 \<Rightarrow> i32 \<Rightarrow> u8 list \<Rightarrow> 'w \<Rightarrow> (i32 + unit) \<times> 'w"
  sc_bind :: "raw_fd \<Rightarrow> sockaddr_storage \<Rightarrow> nat \<Rightarrow> 'w \<Rightarrow> (i32 + unit) \<times> 'w"
  sc_listen :: "raw_fd \<Rightarrow> i32 \<Rightarrow> 'w \<Rightarrow> (i32 + unit) \<times> 'w"
  sc_close :: "raw_fd \<Rightarrow> 'w \<Rightarrow> (i32 + unit) \<times> 'w"

definition set_option_on :: "'w socket_calls \<Rightarrow> raw_fd \<Rightarrow> socket_option \<Rightarrow> 'w \<Rightarrow> (os_error + unit) \<times> 'w" where
  "set_option_on sc fd opt w =
     (let (level, name, v) = option_args opt; (r, w) = sc_setsockopt sc fd level name v w in
      (map_err os_error_of_i32 r, w))"

fun set_opt_multi :: "'w socket_calls \<Rightarrow> raw_fd \<Rightarrow> socket_option list \<Rightarrow> 'w \<Rightarrow> (os_error + unit) \<times> 'w" where
  "set_opt_multi sc fd [] w = (Inr (), w)"
| "set_opt_multi sc fd (opt # opts) w =
     (case set_option_on sc fd opt w of
        (Inl e, w) \<Rightarrow> (Inl e, w)
      | (Inr _, w) \<Rightarrow> set_opt_multi sc fd opts w)"

section \<open>The pool and the system\<close>

record ('f, 'st, 'w) net_world =
  nw_pool :: "('f, 'st) pool"
  nw_sys :: 'w

definition on_sys :: "('w \<Rightarrow> 'a \<times> 'w) \<Rightarrow> ('f, 'st, 'w) net_world \<Rightarrow> 'a \<times> ('f, 'st, 'w) net_world" where
  "on_sys f w = (let (r, s) = f (nw_sys w) in (r, w\<lparr>nw_sys := s\<rparr>))"

text \<open>Dropping an owned descriptor submits its close to a worker of the pool; only when that is refused is it closed
  at once, and an error of that is logged.\<close>

definition drop_fd ::
  "'w socket_calls \<Rightarrow> bool \<Rightarrow> bool \<Rightarrow> raw_fd \<Rightarrow> ('f, 'st, 'w) net_world \<Rightarrow> ('f, 'st, 'w) net_world" where
  "drop_fd sc sig1 sig2 fd w =
     (let (refused, p) = owned_fd_drop sig1 sig2 fd (nw_pool w); w = w\<lparr>nw_pool := p\<rparr> in
      if refused then snd (on_sys (sc_close sc fd) w) else w)"

section \<open>Listeners\<close>

datatype listener_state = WantsBind | WantsListen | Listening

record tcp_listener =
  tl_fd :: raw_fd
  tl_addr :: socket_address
  tl_state :: listener_state

definition transition_state :: "listener_state \<Rightarrow> tcp_listener \<Rightarrow> tcp_listener" where
  "transition_state st l = l\<lparr>tl_state := st\<rparr>"

definition socket_domain :: "socket_address \<Rightarrow> i32" where
  "socket_domain a = (case version (ip a) of IPv4 \<Rightarrow> ucast AF_INET | IPv6 \<Rightarrow> ucast AF_INET6)"

text \<open>\<open>SOCK_STREAM | SOCK_NONBLOCK | SOCK_CLOEXEC\<close>.\<close>

definition stream_socket_type :: i32 where "stream_socket_type = 1 OR 0x800 OR 0x80000"

definition listener_new :: "'w socket_calls \<Rightarrow> socket_address \<Rightarrow> 'w \<Rightarrow> (os_error + tcp_listener) \<times> 'w" where
  "listener_new sc addr w =
     (case sc_socket sc (socket_domain addr) stream_socket_type 0 w of
        (Inl e, w) \<Rightarrow> (Inl (os_error_of_i32 e), w)
      | (Inr fd, w) \<Rightarrow> (Inr \<lparr>tl_fd = fd, tl_addr = addr, tl_state = WantsBind\<rparr>, w))"

definition bind_addr_len :: "socket_address \<Rightarrow> nat" where
  "bind_addr_len a = (case version (ip a) of IPv4 \<Rightarrow> 16 | IPv6 \<Rightarrow> 28)"

text \<open>The listener is consumed: an error drops it.\<close>

definition listener_bind ::
  "'w socket_calls \<Rightarrow> bool \<Rightarrow> bool \<Rightarrow> tcp_listener \<Rightarrow> ('f, 'st, 'w) net_world
    \<Rightarrow> (os_error + tcp_listener) \<times> ('f, 'st, 'w) net_world" where
  "listener_bind sc sig1 sig2 l w =
     (case on_sys (sc_bind sc (tl_fd l) (sockaddr_storage_of (tl_addr l)) (bind_addr_len (tl_addr l))) w of
        (Inl e, w) \<Rightarrow> (Inl (os_error_of_i32 e), drop_fd sc sig1 sig2 (tl_fd l) w)
      | (Inr _, w) \<Rightarrow> (Inr (transition_state WantsListen l), w))"

datatype ('f, 'st) tcp_listen_error =
    NoWorkersAvailable
  | WorkerSendError "('f, 'st) message"
  | SocketListenError os_error
  | ListenerTaskError spawn_error_kind

text \<open>\<open>get_worker_data\<close>: the key of the submitted \<open>accept_multi\<close>.\<close>

definition get_worker_data ::
  "bool \<Rightarrow> bool \<Rightarrow> raw_fd \<Rightarrow> nat \<Rightarrow> ('f, 'st) pool \<Rightarrow> (('f, 'st) tcp_listen_error + key) \<times> ('f, 'st) pool" where
  "get_worker_data sig1 sig2 fd i p =
     (if i < length (workers p) then
        (let (r, wk) = submission_queue_submit sig1 sig2 (op_accept_multi fd) None (workers p ! i) in
         (map_err WorkerSendError r, set_worker i wk p))
      else (Inl NoWorkersAvailable, p))"

text \<open>\<open>try_get_backlog\<close> or the default; the system's setting is an argument.\<close>

definition backlog_of :: "i32 option \<Rightarrow> i32" where
  "backlog_of setting = (case setting of Some b \<Rightarrow> b | None \<Rightarrow> 4096)"

text \<open>\<open>listen_on\<close>: \<open>task\<close> makes the listener's task of the worker, the key and the descriptor, which it then shares.
  An error drops the listener and the task.\<close>

definition listen_on ::
  "'w socket_calls \<Rightarrow> i32 option \<Rightarrow> bool \<Rightarrow> bool \<Rightarrow> (nat \<Rightarrow> key \<Rightarrow> raw_fd \<Rightarrow> 'f) \<Rightarrow> nat \<Rightarrow> tcp_listener
    \<Rightarrow> ('f, 'st, 'w) net_world \<Rightarrow> (('f, 'st) tcp_listen_error failure + tcp_listener) \<times> ('f, 'st, 'w) net_world" where
  "listen_on sc setting sig1 sig2 task i l w =
     (let drop_it = drop_fd sc sig1 sig2 (tl_fd l) in
      case on_sys (sc_listen sc (tl_fd l) (backlog_of setting)) w of
        (Inl e, w) \<Rightarrow> (Inl (Fail (SocketListenError (os_error_of_i32 e))), drop_it w)
      | (Inr _, w) \<Rightarrow>
          (case get_worker_data sig1 sig2 (tl_fd l) i (nw_pool w) of
             (Inl e, p) \<Rightarrow> (Inl (Fail e), drop_it (w\<lparr>nw_pool := p\<rparr>))
           | (Inr k, p) \<Rightarrow>
               (case pool_spawn_with sig1 sig2 (task i k (tl_fd l)) p of
                  (None, p) \<Rightarrow> (Inl Panic, drop_it (w\<lparr>nw_pool := p\<rparr>))
                | (Some (Inl (_, kind)), p) \<Rightarrow> (Inl (Fail (ListenerTaskError kind)), drop_it (w\<lparr>nw_pool := p\<rparr>))
                | (Some (Inr _), p) \<Rightarrow> (Inr (transition_state Listening l), w\<lparr>nw_pool := p\<rparr>))))"

text \<open>\<open>listen\<close> takes the next worker's id; a pool of no threads panics.\<close>

definition listener_listen ::
  "'w socket_calls \<Rightarrow> i32 option \<Rightarrow> bool \<Rightarrow> bool \<Rightarrow> (nat \<Rightarrow> key \<Rightarrow> raw_fd \<Rightarrow> 'f) \<Rightarrow> tcp_listener
    \<Rightarrow> ('f, 'st, 'w) net_world \<Rightarrow> (('f, 'st) tcp_listen_error failure + tcp_listener) \<times> ('f, 'st, 'w) net_world" where
  "listener_listen sc setting sig1 sig2 task l w =
     (case next_worker_id (nw_pool w) of
        (None, p) \<Rightarrow> (Inl Panic, drop_fd sc sig1 sig2 (tl_fd l) (w\<lparr>nw_pool := p\<rparr>))
      | (Some i, p) \<Rightarrow> listen_on sc setting sig1 sig2 task (unat i) l (w\<lparr>nw_pool := p\<rparr>))"

section \<open>Servers\<close>

record tcp_server =
  ts_listeners :: "tcp_listener list"
  ts_addr :: socket_address

datatype server_init_error =
    InvalidWorkerCount nat nat          \<comment> \<open>\<open>requested\<close>, \<open>max\<close>\<close>
  | FailedToCreateListener os_error
  | FailedToSetSocketOptions os_error

text \<open>Dropping listeners that are not listening drops their descriptors, in their order.\<close>

definition drop_listeners ::
  "'w socket_calls \<Rightarrow> bool \<Rightarrow> bool \<Rightarrow> tcp_listener list \<Rightarrow> ('f, 'st, 'w) net_world \<Rightarrow> ('f, 'st, 'w) net_world" where
  "drop_listeners sc sig1 sig2 ls w = fold (\<lambda>l. drop_fd sc sig1 sig2 (tl_fd l)) ls w"

text \<open>The loop of \<open>with_listeners\<close> with the rounds left and the listeners made.\<close>

fun create_listeners ::
  "'w socket_calls \<Rightarrow> bool \<Rightarrow> bool \<Rightarrow> socket_address \<Rightarrow> nat \<Rightarrow> tcp_listener list \<Rightarrow> ('f, 'st, 'w) net_world
    \<Rightarrow> (server_init_error + tcp_listener list) \<times> ('f, 'st, 'w) net_world" where
  "create_listeners sc sig1 sig2 addr 0 ls w = (Inr ls, w)"
| "create_listeners sc sig1 sig2 addr (Suc n) ls w =
     (case on_sys (listener_new sc addr) w of
        (Inl e, w) \<Rightarrow> (Inl (FailedToCreateListener e), drop_listeners sc sig1 sig2 ls w)
      | (Inr l, w) \<Rightarrow>
          (case on_sys (set_opt_multi sc (tl_fd l) [OptReuseAddress, OptReusePort]) w of
             (Inl e, w) \<Rightarrow> (Inl (FailedToSetSocketOptions e), drop_listeners sc sig1 sig2 (l # ls) w)
           | (Inr _, w) \<Rightarrow> create_listeners sc sig1 sig2 addr n (ls @ [l]) w))"

definition with_listeners ::
  "'w socket_calls \<Rightarrow> bool \<Rightarrow> bool \<Rightarrow> nat \<Rightarrow> nat \<Rightarrow> socket_address \<Rightarrow> ('f, 'st, 'w) net_world
    \<Rightarrow> (server_init_error + tcp_server) \<times> ('f, 'st, 'w) net_world" where
  "with_listeners sc sig1 sig2 max_workers n addr w =
     (if max_workers < n then (Inl (InvalidWorkerCount n max_workers), w)
      else (let (r, w) = create_listeners sc sig1 sig2 addr n [] w in
            (map_ok (\<lambda>ls. \<lparr>ts_listeners = ls, ts_addr = addr\<rparr>) r, w)))"

definition server_new ::
  "'w socket_calls \<Rightarrow> bool \<Rightarrow> bool \<Rightarrow> nat \<Rightarrow> socket_address \<Rightarrow> ('f, 'st, 'w) net_world
    \<Rightarrow> (server_init_error + tcp_server) \<times> ('f, 'st, 'w) net_world" where
  "server_new sc sig1 sig2 num_threads addr w = with_listeners sc sig1 sig2 num_threads num_threads addr w"

text \<open>The loop of \<open>bind\<close> over the listeners left; an error drops those left and then those bound.\<close>

fun bind_listeners ::
  "'w socket_calls \<Rightarrow> bool \<Rightarrow> bool \<Rightarrow> tcp_listener list \<Rightarrow> tcp_listener list \<Rightarrow> ('f, 'st, 'w) net_world
    \<Rightarrow> (os_error + tcp_listener list) \<times> ('f, 'st, 'w) net_world" where
  "bind_listeners sc sig1 sig2 [] bound w = (Inr bound, w)"
| "bind_listeners sc sig1 sig2 (l # ls) bound w =
     (case listener_bind sc sig1 sig2 l w of
        (Inl e, w) \<Rightarrow> (Inl e, drop_listeners sc sig1 sig2 bound (drop_listeners sc sig1 sig2 ls w))
      | (Inr l, w) \<Rightarrow> bind_listeners sc sig1 sig2 ls (bound @ [l]) w)"

definition server_bind ::
  "'w socket_calls \<Rightarrow> bool \<Rightarrow> bool \<Rightarrow> tcp_server \<Rightarrow> ('f, 'st, 'w) net_world
    \<Rightarrow> (os_error + tcp_server) \<times> ('f, 'st, 'w) net_world" where
  "server_bind sc sig1 sig2 s w =
     (let (r, w) = bind_listeners sc sig1 sig2 (ts_listeners s) [] w in (map_ok (\<lambda>ls. s\<lparr>ts_listeners := ls\<rparr>) r, w))"

text \<open>The loop of \<open>listen\<close>: an error drops the listeners left; those that listen share their descriptor with their
  task, so that dropping them drops no descriptor.\<close>

fun listen_listeners ::
  "'w socket_calls \<Rightarrow> i32 option \<Rightarrow> bool \<Rightarrow> bool \<Rightarrow> (nat \<Rightarrow> key \<Rightarrow> raw_fd \<Rightarrow> 'f) \<Rightarrow> nat \<Rightarrow> tcp_listener list
    \<Rightarrow> tcp_listener list \<Rightarrow> ('f, 'st, 'w) net_world
    \<Rightarrow> (('f, 'st) tcp_listen_error failure + tcp_listener list) \<times> ('f, 'st, 'w) net_world" where
  "listen_listeners sc setting sig1 sig2 task i [] done_ls w = (Inr done_ls, w)"
| "listen_listeners sc setting sig1 sig2 task i (l # ls) done_ls w =
     (case listen_on sc setting sig1 sig2 task i l w of
        (Inl e, w) \<Rightarrow> (Inl e, drop_listeners sc sig1 sig2 ls w)
      | (Inr l, w) \<Rightarrow> listen_listeners sc setting sig1 sig2 task (i + 1) ls (done_ls @ [l]) w)"

definition server_listen ::
  "'w socket_calls \<Rightarrow> i32 option \<Rightarrow> bool \<Rightarrow> bool \<Rightarrow> (nat \<Rightarrow> key \<Rightarrow> raw_fd \<Rightarrow> 'f) \<Rightarrow> tcp_server
    \<Rightarrow> ('f, 'st, 'w) net_world \<Rightarrow> (('f, 'st) tcp_listen_error failure + tcp_server) \<times> ('f, 'st, 'w) net_world" where
  "server_listen sc setting sig1 sig2 task s w =
     (let (r, w) = listen_listeners sc setting sig1 sig2 task 0 (ts_listeners s) [] w in
      (map_ok (\<lambda>ls. s\<lparr>ts_listeners := ls\<rparr>) r, w))"

text \<open>\<open>set_opt\<close> of a server: every listener in turn.\<close>

fun server_set_opt :: "'w socket_calls \<Rightarrow> tcp_listener list \<Rightarrow> socket_option \<Rightarrow> 'w \<Rightarrow> (os_error + unit) \<times> 'w" where
  "server_set_opt sc [] opt w = (Inr (), w)"
| "server_set_opt sc (l # ls) opt w =
     (case set_option_on sc (tl_fd l) opt w of
        (Inl e, w) \<Rightarrow> (Inl e, w)
      | (Inr _, w) \<Rightarrow> server_set_opt sc ls opt w)"

section \<open>Streams\<close>

record tcp_stream =
  st_fd :: raw_fd
  st_local :: "socket_address option"
  st_peer :: "socket_address option"

definition stream_new :: "raw_fd \<Rightarrow> socket_address option \<Rightarrow> socket_address option \<Rightarrow> tcp_stream" where
  "stream_new fd l p = \<lparr>st_fd = fd, st_local = l, st_peer = p\<rparr>"

definition query_local_address ::
  "(raw_fd \<Rightarrow> i32 + sockaddr_storage) \<Rightarrow> tcp_stream \<Rightarrow> address_retrieval_error + socket_address" where
  "query_local_address getsockname s =
     (case st_local s of Some a \<Rightarrow> Inr a | None \<Rightarrow> local_address_try_from_fd getsockname (st_fd s))"

definition query_peer_address ::
  "(raw_fd \<Rightarrow> i32 + sockaddr_storage) \<Rightarrow> tcp_stream \<Rightarrow> address_retrieval_error + socket_address" where
  "query_peer_address getsockname s =
     (case st_peer s of Some a \<Rightarrow> Inr a | None \<Rightarrow> peer_address_try_from_fd getsockname (st_fd s))"

text \<open>These keep what they find.\<close>

definition address_local ::
  "(raw_fd \<Rightarrow> i32 + sockaddr_storage) \<Rightarrow> tcp_stream \<Rightarrow> (address_retrieval_error + socket_address) \<times> tcp_stream" where
  "address_local getsockname s =
     (case query_local_address getsockname s of
        Inl e \<Rightarrow> (Inl e, s)
      | Inr a \<Rightarrow> (Inr a, s\<lparr>st_local := Some a\<rparr>))"

definition address_peer ::
  "(raw_fd \<Rightarrow> i32 + sockaddr_storage) \<Rightarrow> tcp_stream \<Rightarrow> (address_retrieval_error + socket_address) \<times> tcp_stream" where
  "address_peer getsockname s =
     (case query_peer_address getsockname s of
        Inl e \<Rightarrow> (Inl e, s)
      | Inr a \<Rightarrow> (Inr a, s\<lparr>st_peer := Some a\<rparr>))"

datatype ('f, 'st) tcp_connection_error =
    SocketCreateError os_error
  | ConnectionFailureError socket_address "('f, 'st) io_error"

text \<open>\<open>new_client\<close>: \<open>connect\<close> is the awaited future of the operation; an error drops the socket.\<close>

definition new_client ::
  "'w socket_calls \<Rightarrow> bool \<Rightarrow> bool
    \<Rightarrow> ('st io_operation \<Rightarrow> ('f, 'st, 'w) net_world \<Rightarrow> (('f, 'st) io_error + unit) \<times> ('f, 'st, 'w) net_world)
    \<Rightarrow> socket_address \<Rightarrow> ('f, 'st, 'w) net_world
    \<Rightarrow> (('f, 'st) tcp_connection_error + tcp_stream) \<times> ('f, 'st, 'w) net_world" where
  "new_client sc sig1 sig2 connect addr w =
     (case on_sys (sc_socket sc (socket_domain addr) stream_socket_type 0) w of
        (Inl e, w) \<Rightarrow> (Inl (SocketCreateError (os_error_of_i32 e)), w)
      | (Inr fd, w) \<Rightarrow>
          (case map_err SubmissionError (op_connect fd addr SingleShot) of
             Inl e \<Rightarrow> (Inl (ConnectionFailureError addr e), drop_fd sc sig1 sig2 fd w)
           | Inr op \<Rightarrow>
               (case connect op w of
                  (Inl e, w) \<Rightarrow> (Inl (ConnectionFailureError addr e), drop_fd sc sig1 sig2 fd w)
                | (Inr _, w) \<Rightarrow> (Inr (stream_new fd None (Some addr)), w))))"

end
