(* ===== verification/Net_Tcp_Props.thy ===== *)
theory Net_Tcp_Props
  imports Net_Tcp
begin

text \<open>
  Properties of listeners and servers: the sockets of a server are in the state their type says, and those given up are
  on their way to be closed, a server's listeners go to the workers of their index, and what a failed \<open>listen\<close> leaves running.
\<close>

section \<open>Sockets in the kernel\<close>

datatype sock_state = Created | Bound | Listens

text \<open>What the kernel documents of the calls, over the states of its sockets: a new socket's descriptor is unused,
  only a socket that was not bound can be bound, and a call that fails changes none of them, except that \<open>close\<close>
  releases the descriptor even when it reports an error.\<close>

definition socket_laws :: "'w socket_calls \<Rightarrow> ('w \<Rightarrow> raw_fd \<Rightarrow> sock_state option) \<Rightarrow> bool" where
  "socket_laws sc sock \<longleftrightarrow>
     (\<forall>d t p w e w'. sc_socket sc d t p w = (Inl e, w') \<longrightarrow> sock w' = sock w) \<and>
     (\<forall>d t p w fd w'. sc_socket sc d t p w = (Inr fd, w') \<longrightarrow>
        sock w fd = None \<and> sock w' = (sock w)(fd \<mapsto> Created)) \<and>
     (\<forall>fd l n v w r w'. sc_setsockopt sc fd l n v w = (r, w') \<longrightarrow> sock w' = sock w) \<and>
     (\<forall>fd a n w e w'. sc_bind sc fd a n w = (Inl e, w') \<longrightarrow> sock w' = sock w) \<and>
     (\<forall>fd a n w u w'. sc_bind sc fd a n w = (Inr u, w') \<longrightarrow>
        sock w fd = Some Created \<and> sock w' = (sock w)(fd \<mapsto> Bound)) \<and>
     (\<forall>fd b w e w'. sc_listen sc fd b w = (Inl e, w') \<longrightarrow> sock w' = sock w) \<and>
     (\<forall>fd b w u w'. sc_listen sc fd b w = (Inr u, w') \<longrightarrow> sock w' = (sock w)(fd \<mapsto> Listens)) \<and>
     (\<forall>fd w r w'. sc_close sc fd w = (r, w') \<longrightarrow> sock w' = (sock w)(fd := None))"

lemmas socket_lawsD =
  iffD1 [OF socket_laws_def, THEN conjunct1, rule_format]
  iffD1 [OF socket_laws_def, THEN conjunct2, THEN conjunct1, rule_format]
  iffD1 [OF socket_laws_def, THEN conjunct2, THEN conjunct2, THEN conjunct1, rule_format]
  iffD1 [OF socket_laws_def, THEN conjunct2, THEN conjunct2, THEN conjunct2, THEN conjunct1, rule_format]
  iffD1 [OF socket_laws_def, THEN conjunct2, THEN conjunct2, THEN conjunct2, THEN conjunct2, THEN conjunct1, rule_format]
  iffD1 [OF socket_laws_def, THEN conjunct2, THEN conjunct2, THEN conjunct2, THEN conjunct2, THEN conjunct2, THEN conjunct1, rule_format]
  iffD1 [OF socket_laws_def, THEN conjunct2, THEN conjunct2, THEN conjunct2, THEN conjunct2, THEN conjunct2, THEN conjunct2, THEN conjunct1, rule_format]
  iffD1 [OF socket_laws_def, THEN conjunct2, THEN conjunct2, THEN conjunct2, THEN conjunct2, THEN conjunct2, THEN conjunct2, THEN conjunct2, rule_format]

fun kernel_state :: "listener_state \<Rightarrow> sock_state" where
  "kernel_state WantsBind = Created"
| "kernel_state WantsListen = Bound"
| "kernel_state Listening = Listens"

section \<open>Closes on their way\<close>

text \<open>The descriptors whose close lies in a channel of the pool, as often as it does.\<close>

definition close_of :: "('f, 'st) message \<Rightarrow> raw_fd multiset" where
  "close_of m = (case m of SubmitIO s \<Rightarrow> if op_type (sub_op s) = IoClose then {#op_fd (sub_op s)#} else {#} | _ \<Rightarrow> {#})"

definition worker_closes :: "('f, 'st) worker \<Rightarrow> raw_fd multiset" where
  "worker_closes wk = sum_list (map close_of (ch_messages (wk_channel wk)))"

definition closes :: "('f, 'st) pool \<Rightarrow> raw_fd multiset" where
  "closes p = sum_list (map worker_closes (workers p))"

lemma sum_list_update_add:
  "i < length xs \<Longrightarrow> f y = f (xs ! i) + z \<Longrightarrow>
    sum_list (map f (xs[i := y])) = sum_list (map f xs) + (z :: 'b :: comm_monoid_add)"
proof (induction xs arbitrary: i)
  case (Cons x xs)
  then show ?case by (cases i) (auto simp: ac_simps)
qed simp

lemma closes_set_worker:
  "i < length (workers p) \<Longrightarrow> worker_closes wk = worker_closes (workers p ! i) + z \<Longrightarrow>
    closes (set_worker i wk p) = closes p + z"
  by (simp add: closes_def set_worker_def sum_list_update_add)

lemma worker_send_closes:
  assumes "worker_send sig1 sig2 m wk = (r, wk')"
  shows "worker_closes wk' = worker_closes wk + (if is_ok r then close_of m else {#})"
  using assms
  by (auto simp: worker_send_def send_message_to_def worker_closes_def close_of_def is_ok_def Let_def split: if_splits)

lemma get_next_worker_closes: "get_next_worker p = (r, p') \<Longrightarrow> closes p' = closes p"
  using get_next_worker_keeps [of p r p'] by (simp add: closes_def)

lemma get_next_worker_index: "get_next_worker p = (Inr i, p') \<Longrightarrow> i < length (workers p')"
proof -
  have "try_workers n p = (Inr i, p') \<Longrightarrow> i < length (workers p')" for n
    by (induction n arbitrary: p) (auto simp: next_worker_id_def Let_def split: option.splits if_splits)
  then show "get_next_worker p = (Inr i, p') \<Longrightarrow> i < length (workers p')" by (simp add: get_next_worker_def)
qed

lemma submit_closes:
  assumes "submission_queue_submit sig1 sig2 op wkr wk = (r, wk')"
  shows "worker_closes wk' = worker_closes wk + (if is_ok r \<and> op_type op = IoClose then {#op_fd op#} else {#})"
proof -
  obtain x wk1 where s: "worker_send sig1 sig2 (SubmitIO \<lparr>sub_key = wk_next_key wk, sub_op = op, sub_waker = wkr\<rparr>)
      (wk\<lparr>wk_next_key := wk_next_key wk + 1\<rparr>) = (x, wk1)" by fastforce
  have "worker_closes (wk\<lparr>wk_next_key := wk_next_key wk + 1\<rparr>) = worker_closes wk" by (simp add: worker_closes_def)
  with worker_send_closes [OF s] s assms show ?thesis
    by (cases x) (auto simp: submission_queue_submit_def key_get_def close_of_def)
qed

lemma owned_fd_drop_closes:
  assumes "owned_fd_drop sig1 sig2 fd p = (refused, p')"
  shows "closes p' = closes p + (if refused then {#} else {#fd#})"
proof -
  obtain r p1 where 1: "get_next_worker p = (r, p1)" by fastforce
  note c = get_next_worker_closes [OF 1]
  show ?thesis
  proof (cases r)
    case (Inl e)
    then show ?thesis using assms 1 c by (auto simp: owned_fd_drop_def pool_submit_io_def)
  next
    case (Inr i)
    obtain x wk where x: "submission_queue_submit sig1 sig2 (op_close fd Zero :: 'b io_operation) None (workers p1 ! i) = (x, wk)"
      by fastforce
    have "closes (set_worker i wk p1) = closes p1 + (if is_ok x then {#fd#} else {#})"
      by (rule closes_set_worker [OF get_next_worker_index [OF 1 [unfolded Inr]]])
        (use submit_closes [OF x] in \<open>simp add: op_close_def\<close>)
    then show ?thesis using assms 1 x c Inr by (cases x) (auto simp: owned_fd_drop_def pool_submit_io_def)
  qed
qed

lemma get_worker_data_closes:
  assumes "get_worker_data sig1 sig2 fd i p = (r, p')"
  shows "closes p' = closes p"
proof (cases "i < length (workers p)")
  case True
  obtain x wk where x: "submission_queue_submit sig1 sig2 (op_accept_multi fd :: 'b io_operation) None (workers p ! i) = (x, wk)"
    by fastforce
  have "closes (set_worker i wk p) = closes p + {#}"
    by (rule closes_set_worker [OF True]) (use submit_closes [OF x] in \<open>simp add: op_accept_multi_def\<close>)
  with True x assms show ?thesis by (auto simp: get_worker_data_def)
qed (use assms in \<open>simp add: get_worker_data_def\<close>)

lemma pool_spawn_with_closes:
  assumes "pool_spawn_with sig1 sig2 f p = (r, p')"
  shows "closes p' = closes p"
proof -
  obtain x p1 where 1: "get_next_worker p = (x, p1)" by fastforce
  show ?thesis
  proof (cases x)
    case (Inl e)
    then show ?thesis using assms 1 get_next_worker_closes [OF 1] by (simp add: pool_spawn_with_def)
  next
    case (Inr i)
    obtain y wk where y: "worker_send sig1 sig2 (TaskSpawner f) (workers p1 ! i) = (y, wk)" by fastforce
    have "closes (set_worker i wk p1) = closes p1 + {#}"
      by (rule closes_set_worker [OF get_next_worker_index [OF 1 [unfolded Inr]]])
        (use worker_send_closes [OF y] in \<open>simp add: close_of_def\<close>)
    moreover have "p' = set_worker i wk p1"
      using assms 1 Inr y by (auto simp: pool_spawn_with_def worker_spawn_with_def Let_def split: sum.splits message.splits)
    ultimately show ?thesis using get_next_worker_closes [OF 1] by simp
  qed
qed

section \<open>What a server owns\<close>

text \<open>The listeners' sockets are distinct, were not there before and are in the state of their listener's type; besides
  them only the sockets \<open>D\<close> are new, which are given up: each is open and has one close on its way that was not there
  before. No other socket has changed and no other close was submitted.\<close>

definition owns ::
  "('w \<Rightarrow> raw_fd \<Rightarrow> sock_state option) \<Rightarrow> tcp_listener list \<Rightarrow> raw_fd set \<Rightarrow> ('f, 'st, 'w) net_world
    \<Rightarrow> ('f, 'st, 'w) net_world \<Rightarrow> bool" where
  "owns sock ls D w0 w \<longleftrightarrow>
     distinct (map tl_fd ls) \<and> finite D \<and> D \<inter> tl_fd ` set ls = {} \<and>
     (\<forall>l \<in> set ls. sock (nw_sys w0) (tl_fd l) = None \<and> sock (nw_sys w) (tl_fd l) = Some (kernel_state (tl_state l))) \<and>
     (\<forall>fd \<in> D. sock (nw_sys w0) fd = None \<and> sock (nw_sys w) fd \<noteq> None) \<and>
     (\<forall>fd. fd \<notin> D \<union> tl_fd ` set ls \<longrightarrow> sock (nw_sys w) fd = sock (nw_sys w0) fd) \<and>
     closes (nw_pool w) = closes (nw_pool w0) + mset_set D"

lemma owns_none: "owns sock [] {} w0 w0"
  by (simp add: owns_def)

lemma owns_swap: "owns sock (ls @ l # ls') D w0 w \<longleftrightarrow> owns sock (l # ls @ ls') D w0 w"
  by (auto simp: owns_def)

lemma owns_comm: "owns sock (ls @ ls') D w0 w \<longleftrightarrow> owns sock (ls' @ ls) D w0 w"
  by (auto simp: owns_def)

lemma owns_same:
  "owns sock ls D w0 w \<Longrightarrow> sock (nw_sys w') = sock (nw_sys w) \<Longrightarrow> closes (nw_pool w') = closes (nw_pool w) \<Longrightarrow>
    owns sock ls D w0 w'"
  by (simp add: owns_def)

lemma owns_fresh:
  assumes "owns sock ls D w0 w" "sock (nw_sys w) (tl_fd l) = None" "sock (nw_sys w') = (sock (nw_sys w))(tl_fd l \<mapsto> Created)"
    "tl_state l = WantsBind" "closes (nw_pool w') = closes (nw_pool w)"
  shows "owns sock (ls @ [l]) D w0 w'"
proof -
  have "\<forall>a \<in> set ls. tl_fd a \<noteq> tl_fd l" "tl_fd l \<notin> tl_fd ` set ls" "tl_fd l \<notin> D" using assms(1,2) by (auto simp: owns_def)
  with assms show ?thesis by (auto simp: owns_def)
qed

lemma owns_move:
  assumes "owns sock (l # ls) D w0 w" "sock (nw_sys w') = (sock (nw_sys w))(tl_fd l \<mapsto> kernel_state st)"
    "closes (nw_pool w') = closes (nw_pool w)"
  shows "owns sock (transition_state st l # ls) D w0 w'"
proof -
  have "\<forall>a \<in> set ls. tl_fd a \<noteq> tl_fd l" "tl_fd l \<notin> D" using assms(1) by (auto simp: owns_def image_iff)
  then show ?thesis using assms by (auto simp: owns_def transition_state_def)
qed

lemma owns_drop:
  assumes "socket_laws sc sock" "owns sock (l # ls) D w0 w"
  shows "\<exists>D. owns sock ls D w0 (drop_fd sc sig1 sig2 (tl_fd l) w)"
proof -
  obtain refused p where d: "owned_fd_drop sig1 sig2 (tl_fd l) (nw_pool w) = (refused, p)" by fastforce
  note c = owned_fd_drop_closes [OF d]
  have l: "\<forall>a \<in> set ls. tl_fd a \<noteq> tl_fd l" "tl_fd l \<notin> D" "finite D" using assms(2) by (auto simp: owns_def image_iff)
  show ?thesis
  proof (cases refused)
    case True
    obtain r s where "sc_close sc (tl_fd l) (nw_sys w) = (r, s)" by fastforce
    with socket_lawsD(8) [OF assms(1) this] d c True
    have "sock (nw_sys (drop_fd sc sig1 sig2 (tl_fd l) w)) = (sock (nw_sys w))(tl_fd l := None)"
      "closes (nw_pool (drop_fd sc sig1 sig2 (tl_fd l) w)) = closes (nw_pool w)"
      by (simp_all add: drop_fd_def on_sys_def)
    with assms(2) l have "owns sock ls D w0 (drop_fd sc sig1 sig2 (tl_fd l) w)" by (auto simp: owns_def)
    then show ?thesis by blast
  next
    case False
    with d c have "nw_sys (drop_fd sc sig1 sig2 (tl_fd l) w) = nw_sys w"
      "closes (nw_pool (drop_fd sc sig1 sig2 (tl_fd l) w)) = closes (nw_pool w) + {#tl_fd l#}"
      by (simp_all add: drop_fd_def)
    with assms(2) l have "owns sock ls (insert (tl_fd l) D) w0 (drop_fd sc sig1 sig2 (tl_fd l) w)" by (auto simp: owns_def)
    then show ?thesis by blast
  qed
qed

lemma owns_drops:
  assumes "socket_laws sc sock"
  shows "owns sock (ls @ ls') D w0 w \<Longrightarrow> \<exists>D. owns sock ls' D w0 (drop_listeners sc sig1 sig2 ls w)"
proof (induction ls arbitrary: w D)
  case (Cons l ls)
  from owns_drop [OF assms, of l "ls @ ls'" D w0 w sig1 sig2] Cons.prems obtain D' where
    "owns sock (ls @ ls') D' w0 (drop_fd sc sig1 sig2 (tl_fd l) w)" by auto
  from Cons.IH [OF this] show ?case by (simp add: drop_listeners_def)
qed (auto simp: drop_listeners_def)

text \<open>When the closes on their way are carried out, in any order, the sockets are those there were before.\<close>

lemma owns_closed:
  assumes "socket_laws sc sock" "owns sock [] D w0 w" "set fds = D"
  shows "sock (fold (\<lambda>fd s. snd (sc_close sc fd s)) fds (nw_sys w)) = sock (nw_sys w0)"
proof -
  have "sock (snd (sc_close sc fd s)) = (sock s)(fd := None)" for fd s
    using socket_lawsD(8) [OF assms(1), of fd s] by (metis prod.collapse)
  then have "sock (fold (\<lambda>fd s. snd (sc_close sc fd s)) fds s) = (\<lambda>fd. if fd \<in> set fds then None else sock s fd)" for s
    by (induction fds arbitrary: s) (auto simp: fun_eq_iff)
  with assms(2,3) show ?thesis by (auto simp: owns_def fun_eq_iff)
qed

lemma set_opt_multi_sockets:
  assumes "socket_laws sc sock"
  shows "sock (snd (set_opt_multi sc fd opts w)) = sock w"
proof (induction opts arbitrary: w)
  case (Cons opt opts)
  obtain r w1 where 1: "set_option_on sc fd opt w = (r, w1)" by fastforce
  then have "sock w1 = sock w"
    using socket_lawsD(3) [OF assms] by (auto simp: set_option_on_def Let_def split: prod.splits)
  with 1 Cons show ?case by (cases r) simp_all
qed simp

lemma listener_new_sockets:
  assumes "socket_laws sc sock" "listener_new sc addr w = (r, w')"
  shows "case r of Inl _ \<Rightarrow> sock w' = sock w
    | Inr l \<Rightarrow> sock w (tl_fd l) = None \<and> sock w' = (sock w)(tl_fd l \<mapsto> Created) \<and>
        tl_state l = WantsBind"
  using assms(2) socket_lawsD(1,2) [OF assms(1)]
  by (auto simp: listener_new_def split: prod.splits sum.splits)

lemma on_sysE:
  assumes "on_sys f w = (r, w')"
  obtains "f (nw_sys w) = (r, nw_sys w')" "nw_pool w' = nw_pool w"
  using assms by (auto simp: on_sys_def split: prod.splits)

lemma create_listeners_owns:
  assumes "socket_laws sc sock"
  shows "owns sock ls {} w0 w \<Longrightarrow> create_listeners sc sig1 sig2 addr n ls w = (r, w') \<Longrightarrow>
    (case r of Inl _ \<Rightarrow> \<exists>D. owns sock [] D w0 w'
     | Inr ls' \<Rightarrow> owns sock ls' {} w0 w' \<and> nw_pool w' = nw_pool w \<and> length ls' = length ls + n \<and>
         (\<forall>l \<in> set ls' - set ls. tl_state l = WantsBind))"
proof (induction n arbitrary: ls w)
  case 0
  then show ?case by auto
next
  case (Suc n)
  obtain r1 w1 where 1: "on_sys (listener_new sc addr) w = (r1, w1)" by fastforce
  from 1 obtain n1: "listener_new sc addr (nw_sys w) = (r1, nw_sys w1)" and p1: "nw_pool w1 = nw_pool w" by (rule on_sysE)
  note l = listener_new_sockets [OF assms n1]
  show ?case
  proof (cases r1)
    case (Inl e)
    then have "owns sock (ls @ []) {} w0 w1" using l p1 Suc.prems(1) owns_same [of sock ls "{}" w0 w w1] by simp
    from owns_drops [OF assms this] show ?thesis using 1 Inl Suc.prems(2) by auto
  next
    case (Inr l)
    then have o1: "owns sock (ls @ [l]) {} w0 w1"
      by (intro owns_fresh [OF Suc.prems(1)]) (use l p1 in auto)
    obtain r2 w2 where 2: "on_sys (set_opt_multi sc (tl_fd l) [OptReuseAddress, OptReusePort]) w1 = (r2, w2)" by fastforce
    from 2 obtain s2: "set_opt_multi sc (tl_fd l) [OptReuseAddress, OptReusePort] (nw_sys w1) = (r2, nw_sys w2)"
      and p2: "nw_pool w2 = nw_pool w1" by (rule on_sysE)
    have o2: "owns sock (ls @ [l]) {} w0 w2"
      using owns_same [OF o1] set_opt_multi_sockets [OF assms, of "tl_fd l" "[OptReuseAddress, OptReusePort]" "nw_sys w1"] s2 p2
      by (simp del: set_opt_multi.simps)
    show ?thesis
    proof (cases r2)
      case (Inl e)
      have "owns sock ((l # ls) @ []) {} w0 w2" using o2 by (simp add: owns_swap)
      from owns_drops [OF assms this] show ?thesis
        using 1 2 Inr Inl Suc.prems(2) by (auto simp del: set_opt_multi.simps)
    next
      case (Inr u)
      then have "create_listeners sc sig1 sig2 addr n (ls @ [l]) w2 = (r, w')"
        using 1 2 \<open>r1 = Inr l\<close> Suc.prems(2) by (simp del: set_opt_multi.simps)
      from Suc.IH [OF o2 this] \<open>r1 = Inr l\<close> l p1 p2 show ?thesis by (auto split: sum.splits)
    qed
  qed
qed

lemma bind_listeners_owns:
  assumes "socket_laws sc sock"
  shows "owns sock (bound @ ls) {} w0 w \<Longrightarrow> bind_listeners sc sig1 sig2 ls bound w = (r, w') \<Longrightarrow>
    (case r of Inl _ \<Rightarrow> \<exists>D. owns sock [] D w0 w'
     | Inr ls' \<Rightarrow> owns sock ls' {} w0 w' \<and> nw_pool w' = nw_pool w \<and> ls' = bound @ map (transition_state WantsListen) ls)"
proof (induction ls arbitrary: bound w)
  case Nil
  then show ?case by auto
next
  case (Cons l ls)
  let ?bind = "sc_bind sc (tl_fd l) (sockaddr_storage_of (tl_addr l)) (bind_addr_len (tl_addr l))"
  obtain r1 w1 where 1: "on_sys ?bind w = (r1, w1)" by fastforce
  from 1 obtain b1: "?bind (nw_sys w) = (r1, nw_sys w1)" and p1: "nw_pool w1 = nw_pool w" by (rule on_sysE)
  have o: "owns sock (l # bound @ ls) {} w0 w" using Cons.prems(1) by (simp add: owns_swap)
  show ?case
  proof (cases r1)
    case (Inl e)
    then have "owns sock (l # bound @ ls) {} w0 w1"
      using owns_same [OF o] socket_lawsD(4) [OF assms b1 [unfolded Inl]] p1 by simp
    from owns_drop [OF assms this] obtain D where "owns sock (bound @ ls) D w0 (drop_fd sc sig1 sig2 (tl_fd l) w1)" by blast
    then have "owns sock (ls @ bound @ []) D w0 (drop_fd sc sig1 sig2 (tl_fd l) w1)" by (simp add: owns_comm [of sock ls])
    from owns_drops [OF assms this] obtain D where
      "owns sock (bound @ []) D w0 (drop_listeners sc sig1 sig2 ls (drop_fd sc sig1 sig2 (tl_fd l) w1))" by blast
    from owns_drops [OF assms this] show ?thesis using 1 Inl Cons.prems(2) by (auto simp: listener_bind_def)
  next
    case (Inr u)
    let ?l = "transition_state WantsListen l"
    have "sock (nw_sys w1) = (sock (nw_sys w))(tl_fd l \<mapsto> kernel_state WantsListen)"
      using socket_lawsD(5) [OF assms b1 [unfolded Inr]] by simp
    from owns_move [OF o this] p1 have "owns sock ((bound @ [?l]) @ ls) {} w0 w1" by (simp add: owns_swap)
    moreover have "bind_listeners sc sig1 sig2 ls (bound @ [?l]) w1 = (r, w')"
      using 1 Inr Cons.prems(2) by (simp add: listener_bind_def)
    ultimately show ?thesis using Cons.IH [of "bound @ [?l]" w1] p1 by (auto split: sum.splits)
  qed
qed

text \<open>C34. A server's sockets are accounted for: on every kernel that keeps the documented laws, making a server of \<open>n\<close>
  listeners either gives \<open>n\<close> distinct new sockets that are not bound, or fails, and then every socket it made is closed
  again or has exactly one close on its way to a worker; binding it either binds each of them, or fails with all of
  them closed or on their way to be. No other socket is touched, no other close is submitted, and on success nothing is
  sent to the pool at all.\<close>

theorem server_sockets_accounted:
  assumes "socket_laws sc sock" "with_listeners sc sig1 sig2 max_workers n addr w = (r, w1)"
  shows "case r of
      Inl _ \<Rightarrow> \<exists>D. owns sock [] D w w1
    | Inr s \<Rightarrow> owns sock (ts_listeners s) {} w w1 \<and> nw_pool w1 = nw_pool w \<and> length (ts_listeners s) = n \<and>
        (\<forall>l \<in> set (ts_listeners s). tl_state l = WantsBind) \<and>
        (case server_bind sc sig1 sig2 s w1 of
           (Inl _, w2) \<Rightarrow> \<exists>D. owns sock [] D w w2
         | (Inr s', w2) \<Rightarrow> owns sock (ts_listeners s') {} w w2 \<and> nw_pool w2 = nw_pool w \<and>
             length (ts_listeners s') = n \<and> (\<forall>l \<in> set (ts_listeners s'). tl_state l = WantsListen))"
proof (cases "max_workers < n")
  case True
  then show ?thesis using assms(2) owns_none [of sock w] by (auto simp: with_listeners_def)
next
  case False
  obtain r1 where c: "create_listeners sc sig1 sig2 addr n [] w = (r1, w1)"
    "r = map_ok (\<lambda>ls. \<lparr>ts_listeners = ls, ts_addr = addr\<rparr>) r1"
    using False assms(2) by (auto simp: with_listeners_def Let_def split: prod.splits)
  note made = create_listeners_owns [OF assms(1) owns_none c(1)]
  show ?thesis
  proof (cases r1)
    case (Inr ls)
    obtain r2 w2 where b: "bind_listeners sc sig1 sig2 ls [] w1 = (r2, w2)" by fastforce
    have "owns sock ([] @ ls) {} w w1" using made Inr by simp
    from bind_listeners_owns [OF assms(1) this b] show ?thesis
      using made c(2) Inr b by (auto simp: server_bind_def transition_state_def split: sum.splits)
  qed (use made c(2) in simp)
qed

text \<open>Sockets as a map, with the next descriptor, of which there are those below a limit; every other call succeeds
  where the state allows it.\<close>

type_synonym sockets = "(raw_fd \<Rightarrow> sock_state option) \<times> raw_fd"

definition demo_sockets :: "raw_fd \<Rightarrow> sockets socket_calls" where
  "demo_sockets limit =
     \<lparr>sc_socket = \<lambda>d t p (m, n).
        if m n = None \<and> n \<noteq> limit then (Inr n, (m(n \<mapsto> Created), n + 1)) else (Inl EMFILE, (m, n)),
      sc_setsockopt = \<lambda>fd l n v s. (Inr (), s),
      sc_bind = \<lambda>fd a len (m, n). if m fd = Some Created then (Inr (), (m(fd \<mapsto> Bound), n)) else (Inl EINVAL, (m, n)),
      sc_listen = \<lambda>fd b (m, n). (Inr (), (m(fd \<mapsto> Listens), n)),
      sc_close = \<lambda>fd (m, n). (Inr (), (m(fd := None), n))\<rparr>"

lemma demo_sockets_laws: "socket_laws (demo_sockets limit) fst"
  by (auto simp: socket_laws_def demo_sockets_def split: if_splits)

definition demo_address :: socket_address where
  "demo_address = \<lparr>ip = V4 [127, 0, 0, 1], port = 80\<rparr>"

abbreviation demo_net :: "(unit, unit, sockets) net_world" where
  "demo_net \<equiv> \<lparr>nw_pool = two_workers, nw_sys = (Map.empty, 3)\<rparr>"

text \<open>A server of two listeners when there are descriptors for both, and when there is one: its socket is still open, and
  its close is on its way.\<close>

theorem server_sockets_accounted_witness:
  "(\<exists>s w1. with_listeners (demo_sockets 9) True True 4 2 demo_address demo_net = (Inr s, w1) \<and>
      owns fst (ts_listeners s) {} demo_net w1 \<and> map tl_fd (ts_listeners s) = [3, 4]) \<and>
   (\<exists>e w1 D. with_listeners (demo_sockets 4) True True 4 2 demo_address demo_net = (Inl e, w1) \<and>
      owns fst [] D demo_net w1 \<and> 3 \<in> D)"
proof -
  note defs = listener_new_def demo_sockets_def set_option_on_def on_sys_def
  obtain s w1 where s: "with_listeners (demo_sockets 9) True True 4 2 demo_address demo_net = (Inr s, w1)"
    "map tl_fd (ts_listeners s) = [3, 4]"
    unfolding with_listeners_def numeral_2_eq_2 by (simp add: defs)
  from server_sockets_accounted [OF demo_sockets_laws s(1)]
  have 1: "owns fst (ts_listeners s) {} demo_net w1" by auto
  obtain p where p: "owned_fd_drop True True 3 two_workers = (False, p)"
    using pool_submit_io_available [of two_workers True "op_close 3 Zero" None] two_workers_facts
    by (auto simp: owned_fd_drop_def Let_def)
  obtain e v where v: "with_listeners (demo_sockets 4) True True 4 2 demo_address demo_net = (Inl e, v)"
    "fst (nw_sys v) 3 = Some Created"
    unfolding with_listeners_def numeral_2_eq_2 by (simp add: defs drop_listeners_def drop_fd_def p)
  from server_sockets_accounted [OF demo_sockets_laws v(1)] obtain D where D: "owns fst [] D demo_net v" by auto
  then have "3 \<in> D" using v(2) by (auto simp: owns_def)
  with v(1) D have "\<exists>e w1 D. with_listeners (demo_sockets 4) True True 4 2 demo_address demo_net = (Inl e, w1) \<and>
      owns fst [] D demo_net w1 \<and> 3 \<in> D"
    by (intro exI [of _ e] exI [of _ v] exI [of _ D]) simp
  moreover have "\<exists>s w1. with_listeners (demo_sockets 9) True True 4 2 demo_address demo_net = (Inr s, w1) \<and>
      owns fst (ts_listeners s) {} demo_net w1 \<and> map tl_fd (ts_listeners s) = [3, 4]"
    using s 1 by (intro exI [of _ s] exI [of _ w1]) simp
  ultimately show ?thesis by (rule conjI [rotated])
qed

section \<open>Listening\<close>

text \<open>A pool in which every worker takes work and is connected, and whose counter is far from its end.\<close>

definition ready_pool :: "nat \<Rightarrow> ('f, 'st) pool \<Rightarrow> bool" where
  "ready_pool n p \<longleftrightarrow>
     pool_wf p \<and> (\<forall>wk \<in> set (workers p). available wk \<and> ch_connected (wk_channel wk)) \<and>
     unat (next_id p) + n + length (workers p) < 2 ^ 64"

definition messages_of :: "('f, 'st) pool \<Rightarrow> nat \<Rightarrow> ('f, 'st) message list" where
  "messages_of p i = ch_messages (wk_channel (workers p ! i))"

text \<open>What one call leaves: the pool stays ready and no message is lost.\<close>

definition grows :: "('f, 'st) pool \<Rightarrow> ('f, 'st) pool \<Rightarrow> bool" where
  "grows p p' \<longleftrightarrow> length (workers p') = length (workers p) \<and>
     (\<forall>i < length (workers p). set (messages_of p i) \<subseteq> set (messages_of p' i))"

lemma grows_trans: "grows p q \<Longrightarrow> grows q r \<Longrightarrow> grows p r"
  by (fastforce simp: grows_def)

lemma set_worker_ready:
  assumes "ready_pool n p" "i < length (workers p)" "available wk" "ch_connected (wk_channel wk)"
  shows "ready_pool n (set_worker i wk p)"
  using assms by (auto simp: ready_pool_def set_worker_def pool_wf_def dest!: set_update_subset_insert [THEN subsetD])

lemma get_worker_data_ready:
  assumes "ready_pool n p" "i < length (workers p)"
  shows "\<exists>p'. get_worker_data True sig2 fd i p = (Inr (wk_next_key (workers p ! i)), p') \<and> ready_pool n p' \<and>
    grows p p' \<and>
    SubmitIO \<lparr>sub_key = wk_next_key (workers p ! i), sub_op = op_accept_multi fd, sub_waker = None\<rparr> \<in> set (messages_of p' i)"
proof -
  have wk: "available (workers p ! i)" "ch_connected (wk_channel (workers p ! i))"
    using assms by (auto simp: ready_pool_def)
  let ?wk = "(workers p ! i)\<lparr>wk_next_key := wk_next_key (workers p ! i) + 1,
    wk_channel := (wk_channel (workers p ! i))\<lparr>ch_messages := ch_messages (wk_channel (workers p ! i)) @
      [SubmitIO \<lparr>sub_key = wk_next_key (workers p ! i), sub_op = op_accept_multi fd, sub_waker = None\<rparr>]\<rparr>\<rparr>"
  have "get_worker_data True sig2 fd i p = (Inr (wk_next_key (workers p ! i)), set_worker i ?wk p)"
    using assms(2) wk
    by (simp add: get_worker_data_def submission_queue_submit_def key_get_def worker_send_def send_message_to_def)
  moreover have "ready_pool n (set_worker i ?wk p)"
    using wk by (intro set_worker_ready [OF assms]) (simp_all add: available_def)
  ultimately show ?thesis
    using assms(2) by (auto simp: grows_def messages_of_def set_worker_def nth_list_update)
qed

lemma pool_spawn_with_ready:
  assumes "ready_pool (Suc n) p"
  shows "\<exists>p'. pool_spawn_with True sig2 f p = (Some (Inr ()), p') \<and> ready_pool n p' \<and> grows p p'"
proof -
  let ?i = "unat (next_id p) mod length (workers p)" and ?p = "p\<lparr>next_id := next_id p + 1\<rparr>"
  have wf: "pool_wf p" "\<forall>wk \<in> set (workers p). available wk" "unat (next_id p) < 2 ^ 64 - length (workers p)"
    using assms by (auto simp: ready_pool_def)
  have i: "?i < length (workers p)" using next_worker_id_index(3) [OF wf(1)] .
  then have wk: "available (workers p ! ?i)" "ch_connected (wk_channel (workers p ! ?i))"
    using assms by (auto simp: ready_pool_def)
  have "unat (next_id p + 1) = Suc (unat (next_id p))" using assms by (simp add: ready_pool_def unat_word_ariths(1))
  then have rp: "ready_pool n ?p" using assms by (simp add: ready_pool_def pool_wf_def)
  let ?wk = "(workers p ! ?i)\<lparr>wk_channel := (wk_channel (workers p ! ?i))\<lparr>ch_messages :=
    ch_messages (wk_channel (workers p ! ?i)) @ [TaskSpawner f]\<rparr>\<rparr>"
  have "pool_spawn_with True sig2 f p = (Some (Inr ()), set_worker ?i ?wk ?p)"
    using wk by (simp add: pool_spawn_with_def get_next_worker_available [OF wf(1,3,2)] worker_spawn_with_def
        worker_send_def send_message_to_def Let_def)
  moreover have "ready_pool n (set_worker ?i ?wk ?p)"
    using i wk by (intro set_worker_ready [OF rp]) (simp_all add: available_def)
  ultimately show ?thesis
    using i by (auto simp: grows_def messages_of_def set_worker_def nth_list_update)
qed

definition accept_submitted :: "('f, 'st) pool \<Rightarrow> nat \<Rightarrow> raw_fd \<Rightarrow> bool" where
  "accept_submitted p i fd \<longleftrightarrow>
     (\<exists>k. SubmitIO \<lparr>sub_key = k, sub_op = op_accept_multi fd, sub_waker = None\<rparr> \<in> set (messages_of p i))"

lemma accept_submitted_grows:
  "grows p q \<Longrightarrow> i < length (workers p) \<Longrightarrow> accept_submitted p i fd \<Longrightarrow> accept_submitted q i fd"
  by (fastforce simp: grows_def accept_submitted_def)

lemma listen_on_ready:
  assumes "\<And>fd b y. fst (sc_listen sc fd b y) = Inr ()" "ready_pool (Suc n) (nw_pool w)" "i < length (workers (nw_pool w))"
  shows "\<exists>w'. listen_on sc setting True sig2 task i l w = (Inr (transition_state Listening l), w') \<and>
    ready_pool n (nw_pool w') \<and> grows (nw_pool w) (nw_pool w') \<and> accept_submitted (nw_pool w') i (tl_fd l)"
proof -
  obtain sys where "sc_listen sc (tl_fd l) (backlog_of setting) (nw_sys w) = (Inr (), sys)"
    using assms(1) by (metis prod.collapse)
  then have sys: "on_sys (sc_listen sc (tl_fd l) (backlog_of setting)) w = (Inr (), w\<lparr>nw_sys := sys\<rparr>)"
    by (simp add: on_sys_def)
  obtain k p1 where 1: "get_worker_data True sig2 (tl_fd l) i (nw_pool w) = (Inr k, p1)" "ready_pool (Suc n) p1"
    "grows (nw_pool w) p1" "accept_submitted p1 i (tl_fd l)"
    using get_worker_data_ready [OF assms(2,3), of sig2 "tl_fd l"] by (auto simp: accept_submitted_def)
  obtain p2 where 2: "pool_spawn_with True sig2 (task i k (tl_fd l)) p1 = (Some (Inr ()), p2)" "ready_pool n p2"
    "grows p1 p2"
    using pool_spawn_with_ready [OF 1(2)] by blast
  have "accept_submitted p2 i (tl_fd l)"
    using accept_submitted_grows [OF 2(3) _ 1(4)] 1(3) assms(3) by (simp add: grows_def)
  then show ?thesis using sys 1 2 grows_trans by (auto simp: listen_on_def Let_def)
qed

lemma listen_listeners_ready:
  assumes "\<And>fd b y. fst (sc_listen sc fd b y) = Inr ()"
  shows "ready_pool (length ls) (nw_pool w) \<Longrightarrow> i + length ls \<le> length (workers (nw_pool w)) \<Longrightarrow>
    \<exists>w'. listen_listeners sc setting True sig2 task i ls acc w = (Inr (acc @ map (transition_state Listening) ls), w') \<and>
      grows (nw_pool w) (nw_pool w') \<and>
      (\<forall>j < length ls. accept_submitted (nw_pool w') (i + j) (tl_fd (ls ! j)))"
proof (induction ls arbitrary: i acc w)
  case (Cons l ls)
  obtain w1 where 1: "listen_on sc setting True sig2 task i l w = (Inr (transition_state Listening l), w1)"
    "ready_pool (length ls) (nw_pool w1)" "grows (nw_pool w) (nw_pool w1)" "accept_submitted (nw_pool w1) i (tl_fd l)"
    using listen_on_ready [OF assms, of "length ls" w i] Cons.prems by fastforce
  have len: "length (workers (nw_pool w1)) = length (workers (nw_pool w))" using 1(3) by (simp add: grows_def)
  obtain w2 where 2: "listen_listeners sc setting True sig2 task (i + 1) ls (acc @ [transition_state Listening l]) w1 =
      (Inr (acc @ transition_state Listening l # map (transition_state Listening) ls), w2)"
    "grows (nw_pool w1) (nw_pool w2)" "\<forall>j < length ls. accept_submitted (nw_pool w2) (i + 1 + j) (tl_fd (ls ! j))"
    using Cons.IH [OF 1(2), of "i + 1" "acc @ [transition_state Listening l]"] Cons.prems(2) len by auto
  have "accept_submitted (nw_pool w2) i (tl_fd l)"
    using accept_submitted_grows [OF 2(2) _ 1(4)] Cons.prems(2) len by simp
  then have "\<forall>j < length (l # ls). accept_submitted (nw_pool w2) (i + j) (tl_fd ((l # ls) ! j))"
    using 2(3) by (auto simp: less_Suc_eq_0_disj)
  then show ?case using 1(1,3) 2(1,2) grows_trans by auto
qed (simp add: grows_def)

text \<open>A server listens everywhere: on a pool that takes work and when the kernel lets its sockets listen, a server
  of no more listeners than workers comes to listen with all of them, and the worker of each listener's index
  has been sent the accepting operation of exactly that listener's socket.\<close>

theorem server_listens_everywhere:
  assumes "\<And>fd b y. fst (sc_listen sc fd b y) = Inr ()" "ready_pool (length (ts_listeners s)) (nw_pool w)"
    "length (ts_listeners s) \<le> length (workers (nw_pool w))"
  shows "\<exists>w'. server_listen sc setting True sig2 task s w =
      (Inr (s\<lparr>ts_listeners := map (transition_state Listening) (ts_listeners s)\<rparr>), w') \<and>
    (\<forall>i < length (ts_listeners s). accept_submitted (nw_pool w') i (tl_fd (ts_listeners s ! i)))"
  using listen_listeners_ready [OF assms(1,2), of 0 setting sig2 task "[]"] assms(3)
  by (auto simp: server_listen_def)

definition demo_server :: tcp_server where
  "demo_server =
     \<lparr>ts_listeners = map (\<lambda>fd. \<lparr>tl_fd = fd, tl_addr = demo_address, tl_state = WantsListen\<rparr>) [3, 4], ts_addr = demo_address\<rparr>"

theorem server_listens_everywhere_witness:
  "case server_listen (demo_sockets 9) None True True (\<lambda>_ _ _. ()) demo_server
      \<lparr>nw_pool = two_workers, nw_sys = (Map.empty, 5)\<rparr> of
     (r, w') \<Rightarrow> is_ok r \<and> accept_submitted (nw_pool w') 0 3 \<and> accept_submitted (nw_pool w') 1 4"
proof -
  have "fst (sc_listen (demo_sockets 9) fd b y) = Inr ()" for fd b and y :: sockets
    by (cases y) (simp add: demo_sockets_def)
  moreover have "ready_pool (length (ts_listeners demo_server)) two_workers"
    using two_workers_facts by (simp add: ready_pool_def demo_server_def)
  ultimately show ?thesis
    using server_listens_everywhere [of "demo_sockets 9" demo_server "\<lparr>nw_pool = two_workers, nw_sys = (Map.empty, 5)\<rparr>"
        None True "\<lambda>_ _ _. ()"] two_workers_facts
    by (auto simp: demo_server_def less_Suc_eq is_ok_def)
qed

section \<open>A server that fails to listen\<close>

lemma listen_on_owns:
  assumes "socket_laws sc sock" "owns sock (l # ls) D w0 w" "listen_on sc setting sig1 sig2 task i l w = (r, w')"
  shows "case r of Inl _ \<Rightarrow> \<exists>D. owns sock ls D w0 w'
    | Inr l' \<Rightarrow> l' = transition_state Listening l \<and> owns sock (l' # ls) D w0 w'"
proof -
  let ?listen = "sc_listen sc (tl_fd l) (backlog_of setting)"
  obtain r1 w1 where 1: "on_sys ?listen w = (r1, w1)" by fastforce
  from 1 obtain s1: "?listen (nw_sys w) = (r1, nw_sys w1)" and p1: "nw_pool w1 = nw_pool w" by (rule on_sysE)
  note drop = owns_drop [OF assms(1)]
  show ?thesis
  proof (cases r1)
    case (Inl e)
    then have "owns sock (l # ls) D w0 w1"
      using owns_same [OF assms(2)] socket_lawsD(6) [OF assms(1) s1 [unfolded Inl]] p1 by simp
    from drop [OF this] show ?thesis using assms(3) 1 Inl by (auto simp: listen_on_def Let_def)
  next
    case (Inr u)
    let ?l = "transition_state Listening l"
    have "sock (nw_sys w1) = (sock (nw_sys w))(tl_fd l \<mapsto> kernel_state Listening)"
      using socket_lawsD(7) [OF assms(1) s1 [unfolded Inr]] by simp
    from owns_move [OF assms(2) this] p1 have o1: "owns sock (?l # ls) D w0 w1" by simp
    obtain r2 p2 where 2: "get_worker_data sig1 sig2 (tl_fd l) i (nw_pool w1) = (r2, p2)" by fastforce
    have o2: "owns sock (?l # ls) D w0 (w1\<lparr>nw_pool := p2\<rparr>)"
      using owns_same [OF o1] get_worker_data_closes [OF 2] by simp
    have t: "tl_fd ?l = tl_fd l" by (simp add: transition_state_def)
    show ?thesis
    proof (cases r2)
      case (Inl e)
      from drop [OF o2] show ?thesis using assms(3) 1 Inr 2 Inl by (auto simp: listen_on_def t Let_def)
    next
      case (Inr k)
      obtain r3 p3 where 3: "pool_spawn_with sig1 sig2 (task i k (tl_fd l)) p2 = (r3, p3)" by fastforce
      have o3: "owns sock (?l # ls) D w0 (w1\<lparr>nw_pool := p3\<rparr>)"
        using owns_same [OF o2] pool_spawn_with_closes [OF 3] by simp
      from drop [OF o3] o3 show ?thesis
        using assms(3) 1 \<open>r1 = Inr u\<close> 2 Inr 3
        by (auto simp: listen_on_def t Let_def split: option.splits sum.splits)
    qed
  qed
qed

lemma listen_listeners_fails:
  assumes "socket_laws sc sock"
  shows "owns sock (map (transition_state Listening) acc @ ls) {} w0 w \<Longrightarrow>
    listen_listeners sc setting sig1 sig2 task i ls (map (transition_state Listening) acc) w = (Inl e, w') \<Longrightarrow>
    \<exists>j < length ls. (\<exists>D. owns sock (map (transition_state Listening) (acc @ take j ls)) D w0 w') \<and>
      (\<exists>w1. fst (listen_on sc setting sig1 sig2 task (i + j) (ls ! j) w1) = Inl e)"
proof (induction ls arbitrary: acc i w)
  case (Cons l ls)
  obtain r1 w1 where 1: "listen_on sc setting sig1 sig2 task i l w = (r1, w1)" by fastforce
  have o: "owns sock (l # map (transition_state Listening) acc @ ls) {} w0 w"
    using Cons.prems(1) by (simp add: owns_swap)
  note s = listen_on_owns [OF assms o 1]
  show ?case
  proof (cases r1)
    case (Inl e')
    with s obtain D where "owns sock (ls @ map (transition_state Listening) acc) D w0 w1"
      by (auto simp: owns_comm [of sock "map (transition_state Listening) acc"])
    from owns_drops [OF assms this] show ?thesis
      using 1 Inl Cons.prems(2) by (intro exI [of _ 0]) (auto intro!: exI [of _ w])
  next
    case (Inr l')
    then have "l' = transition_state Listening l"
      "owns sock (map (transition_state Listening) (acc @ [l]) @ ls) {} w0 w1"
      using s Inr by (auto simp: owns_swap)
    with Cons.IH [of "acc @ [l]" w1 "i + 1"] obtain j where
      "j < length ls" "\<exists>D. owns sock (map (transition_state Listening) ((acc @ [l]) @ take j ls)) D w0 w'"
      "\<exists>w1. fst (listen_on sc setting sig1 sig2 task (i + 1 + j) (ls ! j) w1) = Inl e"
      using 1 Inr Cons.prems(2) by auto
    then show ?thesis by (intro exI [of _ "Suc j"]) simp
  qed
qed simp

text \<open>A server whose \<open>listen\<close> fails does not stop: its listeners before the one that failed keep
  listening with their tasks although the caller got an error and no server; the others are closed or on their way to be.\<close>

theorem failed_listen_leaves_running:
  assumes "socket_laws sc sock" "owns sock (ts_listeners s) {} w0 w"
    "server_listen sc setting sig1 sig2 task s w = (Inl e, w')"
  shows "\<exists>j < length (ts_listeners s).
    (\<exists>D. owns sock (map (transition_state Listening) (take j (ts_listeners s))) D w0 w') \<and>
    (\<exists>w1. fst (listen_on sc setting sig1 sig2 task j (ts_listeners s ! j) w1) = Inl e)"
proof -
  obtain r1 where r1: "listen_listeners sc setting sig1 sig2 task 0 (ts_listeners s) [] w = (r1, w')"
    "map_ok (\<lambda>ls. s\<lparr>ts_listeners := ls\<rparr>) r1 = Inl e"
    using assms(3) by (auto simp: server_listen_def Let_def split: prod.splits)
  then have "r1 = Inl e" by (cases r1) simp_all
  with listen_listeners_fails [OF assms(1), of "[]" "ts_listeners s" w0 w setting sig1 sig2 task 0 e w'] assms(2) r1(1)
  show ?thesis by simp
qed

end
