(* ===== verification/Listener_Task.thy ===== *)
theory Listener_Task
  imports Io_Future Net_Tcp_Props
begin

text \<open>
  The task of a listener (the loop in \<open>listen_on\<close> of \<open>src/net/tcp_listener.rs\<close>): it waits for accepted connections
  and for the notification of a shutdown, and spawns a handler for every connection. The \<open>select!\<close> polls its two
  sides in an order of its choice; the first that is ready is taken. \<open>tw_handed\<close> is the history of the streams
  whose handler was spawned.
\<close>

section \<open>The loop\<close>

record ('f, 'st, 'r) task_world =
  tw_io :: "('f, 'st) io_world"
  tw_sub :: 'r
  tw_handed :: "tcp_stream list"

record ('f, 'r) listener_env =
  le_handle :: submission_handle
  le_waker :: waker
  le_getsockname :: "raw_fd \<Rightarrow> i32 + sockaddr_storage"
  le_handler :: "tcp_stream \<Rightarrow> 'f"
  le_signals :: "bool \<times> bool"
  le_poll_next :: "'r \<Rightarrow> notification option poll \<times> 'r"
  le_flags :: u64
  le_logs :: bool

datatype accept_step = AcceptAgain | AcceptStop | AcceptYield | AcceptPanic

text \<open>The line that is logged asks the stream for its peer's address and unwraps it; it is only evaluated when the
  crate is built with \<open>log-info\<close> and the level is enabled (\<open>le_logs\<close>). \<open>None\<close> is the panic.\<close>

definition logged_stream :: "('f, 'r) listener_env \<Rightarrow> tcp_stream \<Rightarrow> tcp_stream option" where
  "logged_stream env s =
     (if le_logs env
      then (case address_peer (le_getsockname env) s of (Inl _, _) \<Rightarrow> None | (Inr _, s) \<Rightarrow> Some s)
      else Some s)"

text \<open>The arm of a completion; results that are no accepted connection only continue the loop.\<close>

fun accept_arm ::
  "('f, 'r) listener_env \<Rightarrow> 'st io_completion_result option \<Rightarrow> ('f, 'st, 'r) task_world
    \<Rightarrow> accept_step \<times> ('f, 'st, 'r) task_world" where
  "accept_arm env (Some (Inr (AcceptDone fd addr))) w =
     (let peer = Option.bind addr (\<lambda>s. case socket_address_try_from s of Inl _ \<Rightarrow> None | Inr a \<Rightarrow> Some a) in
      case logged_stream env (stream_new fd None peer) of
        None \<Rightarrow> (AcceptPanic, w)
      | Some stream \<Rightarrow>
          (case pool_spawn_with (fst (le_signals env)) (snd (le_signals env)) (le_handler env stream) (io_pool (tw_io w)) of
             (None, p) \<Rightarrow> (AcceptPanic, w\<lparr>tw_io := (tw_io w)\<lparr>io_pool := p\<rparr>\<rparr>)
           | (Some (Inl _), p) \<Rightarrow> (AcceptAgain, w\<lparr>tw_io := (tw_io w)\<lparr>io_pool := p\<rparr>\<rparr>)
           | (Some (Inr _), p) \<Rightarrow>
               (AcceptAgain, w\<lparr>tw_io := (tw_io w)\<lparr>io_pool := p\<rparr>, tw_handed := tw_handed w @ [stream]\<rparr>)))"
| "accept_arm env _ w = (AcceptAgain, w)"

definition poll_accept ::
  "('f, 'r) listener_env \<Rightarrow> ('f, 'st, 'r) task_world
    \<Rightarrow> 'st io_completion_result option poll \<times> ('f, 'st, 'r) task_world" where
  "poll_accept env w =
     (let (p, io) = handle_poll (le_handle env) (le_waker env) (tw_io w) in (p, w\<lparr>tw_io := io\<rparr>))"

text \<open>\<open>None\<close>: the poll of the subscription does not return.\<close>

definition poll_recv ::
  "('f, 'r) listener_env \<Rightarrow> ('f, 'st, 'r) task_world \<Rightarrow> (bool \<times> ('f, 'st, 'r) task_world) option" where
  "poll_recv env w =
     map_option (\<lambda>(p, r). (p \<noteq> PollPending, w\<lparr>tw_sub := r\<rparr>))
       (notification_poll (le_poll_next env) (le_flags env) (tw_sub w))"

definition listener_iteration ::
  "('f, 'r) listener_env \<Rightarrow> bool \<Rightarrow> ('f, 'st, 'r) task_world \<Rightarrow> (accept_step \<times> ('f, 'st, 'r) task_world) option" where
  "listener_iteration env accept_first w =
     (if accept_first then
        (case poll_accept env w of
           (PollReady r, w) \<Rightarrow> Some (accept_arm env r w)
         | (PollPending, w) \<Rightarrow>
             map_option (\<lambda>(stop, w). (if stop then AcceptStop else AcceptYield, w)) (poll_recv env w))
      else
        (case poll_recv env w of
           None \<Rightarrow> None
         | Some (True, w) \<Rightarrow> Some (AcceptStop, w)
         | Some (False, w) \<Rightarrow>
             (case poll_accept env w of
                (PollReady r, w) \<Rightarrow> Some (accept_arm env r w)
              | (PollPending, w) \<Rightarrow> Some (AcceptYield, w))))"

text \<open>What other threads do to the state that the task shares with them: a turn of a worker, which takes up submissions and
  completions, and calls of the pool, which put messages into channels.\<close>

datatype ('f, 'st) other_act = WorkerTurn nat loop_input | PoolCall "('f, 'st) pool \<Rightarrow> ('f, 'st) pool"

fun other_step ::
  "'f worker_env \<Rightarrow> ('f, 'st) other_act \<Rightarrow> ('f, 'st, 'r) task_world \<Rightarrow> ('f, 'st, 'r) task_world" where
  "other_step wenv (WorkerTurn j inp) w = w\<lparr>tw_io := snd (worker_turn wenv inp j (tw_io w))\<rparr>"
| "other_step wenv (PoolCall f) w = w\<lparr>tw_io := (tw_io w)\<lparr>io_pool := f (io_pool (tw_io w))\<rparr>\<rparr>"

text \<open>One poll of the task: it runs until it yields, stops or panics; \<open>None\<close> when it never does. \<open>turn\<close> is the
  order in each round, and \<open>others n\<close> what other threads do before round \<open>n\<close>.\<close>

partial_function (option) listener_poll_among ::
  "'f worker_env \<Rightarrow> ('f, 'r) listener_env \<Rightarrow> (nat \<Rightarrow> ('f, 'st) other_act list) \<Rightarrow> (nat \<Rightarrow> bool) \<Rightarrow> nat
    \<Rightarrow> ('f, 'st, 'r) task_world \<Rightarrow> (accept_step \<times> ('f, 'st, 'r) task_world) option" where
  "listener_poll_among wenv env others turn n w =
     (case listener_iteration env (turn n) (fold (other_step wenv) (others n) w) of
        None \<Rightarrow> None
      | Some (st, w) \<Rightarrow> if st = AcceptAgain then listener_poll_among wenv env others turn (n + 1) w else Some (st, w))"

text \<open>The poll of a task that has the state to itself.\<close>

partial_function (option) listener_poll ::
  "('f, 'r) listener_env \<Rightarrow> (nat \<Rightarrow> bool) \<Rightarrow> nat \<Rightarrow> ('f, 'st, 'r) task_world
    \<Rightarrow> (accept_step \<times> ('f, 'st, 'r) task_world) option" where
  "listener_poll env turn n w =
     (case listener_iteration env (turn n) w of
        None \<Rightarrow> None
      | Some (st, w) \<Rightarrow> if st = AcceptAgain then listener_poll env turn (n + 1) w else Some (st, w))"

lemma listener_poll_alone: "listener_poll_among wenv env (\<lambda>_. []) turn n w = listener_poll env turn n w"
proof -
  have "listener_poll env turn n w = Some y" if r: "listener_poll_among wenv env (\<lambda>_. []) turn n w = Some y" for y
  proof (rule listener_poll_among.raw_induct [where P = "\<lambda>wenv env others turn n w y.
        others = (\<lambda>_. []) \<longrightarrow> listener_poll env turn n w = Some y", OF _ r, THEN mp], goal_cases)
    case (1 rec wenv env others turn n w y)
    show ?case using 1(2) by (subst listener_poll.simps) (auto split: option.splits if_splits dest: 1(1))
  qed simp
  moreover have "listener_poll_among wenv env (\<lambda>_. []) turn n w = Some y" if r: "listener_poll env turn n w = Some y" for y
  proof (rule listener_poll.raw_induct [where P = "\<lambda>env turn n w y.
        listener_poll_among wenv env (\<lambda>_. []) turn n w = Some y", OF _ r], goal_cases)
    case (1 rec env turn n w y)
    show ?case using 1(2) by (subst listener_poll_among.simps) (auto split: option.splits if_splits dest: 1(1))
  qed
  ultimately show ?thesis by (metis not_Some_eq)
qed

section \<open>A listener that spins\<close>

lemma set_same_queue [simp]: "set_world_queue i (world_queue w i) w = w"
  by (simp add: set_world_queue_def world_queue_def)

text \<open>The queue of the worker has no slot of the listener's key, and nobody is notified.\<close>

definition unserved :: "('f, 'r) listener_env \<Rightarrow> ('f, 'st, 'r) task_world \<Rightarrow> bool" where
  "unserved env w \<longleftrightarrow>
     map_of (world_queue (tw_io w) (sh_worker (le_handle env))) (sh_key (le_handle env)) = None \<and>
     le_poll_next env (tw_sub w) = (PollPending, tw_sub w)"

lemma unserved_iteration:
  assumes "unserved env w"
  shows "listener_iteration env first w = Some (AcceptAgain, w)"
proof -
  have "poll_accept env w = (PollReady None, w)"
    using assms by (simp add: unserved_def poll_accept_def handle_poll_def queue_poll_def)
  moreover have "poll_recv env w = Some (False, w)"
    using assms by (simp add: unserved_def poll_recv_def notification_poll.simps)
  ultimately show ?thesis by (simp add: listener_iteration_def)
qed

text \<open>Only a turn of the accepting operation's own worker puts a slot under its key.\<close>

definition turn_of :: "nat \<Rightarrow> ('f, 'st) other_act \<Rightarrow> bool" where
  "turn_of i a \<longleftrightarrow> (case a of WorkerTurn j _ \<Rightarrow> j = i | PoolCall _ \<Rightarrow> False)"

lemma other_step_queue:
  "\<not> turn_of i a \<Longrightarrow> world_queue (tw_io (other_step wenv a w)) i = world_queue (tw_io w) i"
  "tw_sub (other_step wenv a w) = tw_sub w"
  by (cases a; simp add: turn_of_def worker_turn_def world_queue_def Let_def split_beta)+

lemma others_unserved:
  "unserved env w \<Longrightarrow> list_all (\<lambda>a. \<not> turn_of (sh_worker (le_handle env)) a) as \<Longrightarrow>
    unserved env (fold (other_step wenv) as w)"
  by (induction as arbitrary: w) (auto simp: unserved_def other_step_queue)

lemma unserved_never_returns:
  assumes "listener_poll_among wenv env others turn n w = Some y"
  shows "(\<forall>n. list_all (\<lambda>a. \<not> turn_of (sh_worker (le_handle env)) a) (others n)) \<longrightarrow> \<not> unserved env w"
proof (rule listener_poll_among.raw_induct
    [where P = "\<lambda>wenv env others turn n w y.
       (\<forall>n. list_all (\<lambda>a. \<not> turn_of (sh_worker (le_handle env)) a) (others n)) \<longrightarrow> \<not> unserved env w",
     OF _ assms], goal_cases)
  case (1 rec wenv env others turn n w y)
  show ?case
  proof (intro impI notI)
    assume o: "\<forall>n. list_all (\<lambda>a. \<not> turn_of (sh_worker (le_handle env)) a) (others n)" and "unserved env w"
    then have u: "unserved env (fold (other_step wenv) (others n) w)" using others_unserved by blast
    then have "rec wenv env others turn (n + 1) (fold (other_step wenv) (others n) w) = Some y"
      using 1(2) by (simp add: unserved_iteration)
    with 1(1) o u show False by blast
  qed
qed

text \<open>C30. A listener's task that is polled on the worker of its accepting operation before that operation was taken up
  never yields. The missing slot counts as a result and the loop goes on without waiting; only a turn of that worker
  would add the slot, and its thread is in this poll. So whatever the other workers do in the meantime, whatever is
  submitted, and whatever the order of the two sides in each round, the poll does not return while its subscription
  has nothing for it.\<close>

theorem listener_spins_unserved:
  assumes "map_of (world_queue (tw_io w) (sh_worker (le_handle env))) (sh_key (le_handle env)) = None"
    "le_poll_next env (tw_sub w) = (PollPending, tw_sub w)"
    "\<And>n inp. WorkerTurn (sh_worker (le_handle env)) inp \<notin> set (others n)"
  shows "listener_poll_among wenv env others turn n w = None"
proof -
  have "\<forall>n. list_all (\<lambda>a. \<not> turn_of (sh_worker (le_handle env)) a) (others n)"
    using assms(3) by (auto simp: list_all_iff turn_of_def split: other_act.split)
  then show ?thesis
    using unserved_never_returns [of wenv env others turn n w] assms(1,2)
    by (cases "listener_poll_among wenv env others turn n w") (auto simp: unserved_def)
qed

text \<open>On any other worker the same poll ends as soon as the operation's worker has had its turn: the slot is there,
  without a result, and the task yields.\<close>

theorem listener_yields_once_served:
  fixes w :: "('f, 'st, 'r) task_world"
  assumes "others n = [WorkerTurn (sh_worker (le_handle env)) inp]"
    "l = (io_loops (tw_io w) (sh_worker (le_handle env)))
       \<lparr>wl_inbox := ch_messages (wk_channel (workers (io_pool (tw_io w)) ! sh_worker (le_handle env)))\<rparr>"
    "message_event l inp" "wl_pushed l < we_capacity wenv"
    "wl_inbox l = [SubmitIO \<lparr>sub_key = sh_key (le_handle env), sub_op = op_accept_multi fd, sub_waker = None\<rparr>]"
    "le_poll_next env (tw_sub w) = (PollPending, tw_sub w)"
  shows "\<exists>w'. listener_poll_among wenv env others turn n w = Some (AcceptYield, w')"
proof -
  let ?i = "sh_worker (le_handle env)" and ?k = "sh_key (le_handle env)"
  define v where "v = fold (other_step wenv) (others n) w"
  obtain l' where "main_iteration wenv inp l = (GoOn, l')" "ctx_queue (wl_context l') =
      queue_add_entry (ctx_queue (wl_context l)) ?k \<lparr>entry_op = op_accept_multi fd, entry_key = ?k\<rparr> None"
    using loop_takes_submission [OF assms(3,5,4)] by auto
  then have "map_of (world_queue (tw_io v) ?i) ?k =
      Some (slot_new \<lparr>entry_op = op_accept_multi fd, entry_key = ?k\<rparr> None)"
    using assms(1,2) by (simp add: v_def worker_turn_def world_queue_def map_of_add_entry Let_def)
  then have "fst (poll_accept env v) = PollPending"
    by (simp add: poll_accept_def handle_poll_def queue_poll_def slot_new_def op_accept_multi_def try_extract_result_def
        multi_new_def split_beta Let_def)
  moreover have "tw_sub v = tw_sub w" "tw_sub (snd (poll_accept env v)) = tw_sub w"
    using assms(1) by (simp_all add: v_def other_step_queue poll_accept_def split_beta)
  moreover have "poll_recv env u = Some (False, u)" if "tw_sub u = tw_sub w" for u :: "('f, 'st, 'r) task_world"
    using assms(6) that by (simp add: poll_recv_def notification_poll.simps)
  ultimately have "\<exists>w'. listener_iteration env (turn n) v = Some (AcceptYield, w')"
    by (cases "poll_accept env v") (simp add: listener_iteration_def)
  then show ?thesis by (subst listener_poll_among.simps) (auto simp: v_def)
qed

definition demo_listener :: "(unit, unit) listener_env" where
  "demo_listener =
     \<lparr>le_handle = \<lparr>sh_key = 0, sh_worker = 0\<rparr>, le_waker = 4,
      le_getsockname = \<lambda>_. Inr (sockaddr_storage_of demo_address), le_handler = \<lambda>_. (), le_signals = (True, True),
      le_poll_next = \<lambda>r. (PollPending, r), le_flags = 3, le_logs = True\<rparr>"

theorem listener_spins_unserved_witness:
  "listener_poll_among demo_env demo_listener (\<lambda>_. [WorkerTurn 1 \<lparr>li_poll = Inr [], li_signals = [], li_completions = [],
       li_submit_ok = True\<rparr>])
     (\<lambda>_. True) 0 \<lparr>tw_io = demo_world, tw_sub = (), tw_handed = []\<rparr> = None"
  using listener_spins_unserved [of "\<lparr>tw_io = demo_world, tw_sub = (), tw_handed = []\<rparr>" demo_listener]
  by (simp add: demo_listener_def demo_world_def idle_loop_def world_queue_def)

section \<open>Accepted connections\<close>

text \<open>What a listener hands to the handler of the connection \<open>fd\<close>: the peer's address is known if it was logged.\<close>

definition handed_stream :: "('f, 'r) listener_env \<Rightarrow> raw_fd \<Rightarrow> socket_address \<Rightarrow> tcp_stream" where
  "handed_stream env fd a = stream_new fd None (if le_logs env then Some a else None)"

lemma logged_stream_handed:
  assumes "peer_address_try_from_fd (le_getsockname env) fd = Inr a"
  shows "logged_stream env (stream_new fd None None) = Some (handed_stream env fd a)"
  using assms by (simp add: logged_stream_def handed_stream_def stream_new_def address_peer_def query_peer_address_def)

text \<open>Every stream that a listener hands to its handler takes the server's own address for its peer's: the
  accepting operation gives no address, so the peer's is asked of the descriptor with \<open>getsockname\<close>, by the
  line that is logged or by the handler, and the stream answers with it for the peer as for itself.\<close>

theorem accepted_peer_is_local:
  assumes "op_complete cenv (op_accept_multi lfd) fd = (Inr c, op')" "le_getsockname env fd = Inr s"
    "socket_address_try_from s = Inr a" "pool_spawn_with (fst (le_signals env)) (snd (le_signals env))
      (le_handler env (handed_stream env fd a)) (io_pool (tw_io w)) = (Some (Inr ()), p)"
  shows "accept_arm env (Some (Inr c)) w =
      (AcceptAgain, w\<lparr>tw_io := (tw_io w)\<lparr>io_pool := p\<rparr>, tw_handed := tw_handed w @ [handed_stream env fd a]\<rparr>) \<and>
    query_peer_address (le_getsockname env) (handed_stream env fd a) = Inr a \<and>
    query_local_address (le_getsockname env) (handed_stream env fd a) = Inr a"
proof -
  have "c = AcceptDone fd None"
    using assms(1) by (auto simp: op_complete_def op_accept_multi_def split: if_splits)
  moreover have own: "peer_address_try_from_fd (le_getsockname env) fd = Inr a"
      "local_address_try_from_fd (le_getsockname env) fd = Inr a"
    using assms(2,3)
    by (simp_all add: peer_address_try_from_fd_def local_address_try_from_fd_def socket_address_try_from_fd_def)
  ultimately show ?thesis
    using assms(4) logged_stream_handed [OF own(1)]
    by (simp add: query_peer_address_def query_local_address_def handed_stream_def stream_new_def)
qed

definition demo_task_world :: "(unit, unit, unit) task_world" where
  "demo_task_world = \<lparr>tw_io = demo_world, tw_sub = (), tw_handed = []\<rparr>"

lemma demo_address_roundtrip: "socket_address_try_from (sockaddr_storage_of demo_address) = Inr demo_address"
  by (simp add: demo_address_def) code_simp

lemma two_workers_ready: "ready_pool n two_workers" if "n < 100"
  using two_workers_facts that by (simp add: ready_pool_def)

theorem accepted_peer_is_local_witness:
  "\<exists>w'. accept_arm demo_listener (Some (Inr (AcceptDone 9 None))) demo_task_world = (AcceptAgain, w') \<and>
     tw_handed w' = [stream_new 9 None (Some demo_address)]"
proof -
  obtain p where p: "pool_spawn_with True True () two_workers = (Some (Inr ()), p)"
    using pool_spawn_with_ready [OF two_workers_ready [of "Suc 0"], of True "()"] by auto
  have "op_complete (we_completion demo_env) (op_accept_multi 5) 9 =
      (Inr (AcceptDone 9 None :: unit io_completion), op_accept_multi 5)"
    by (simp add: op_complete_def op_accept_multi_def)
  from accepted_peer_is_local [OF this, of demo_listener "sockaddr_storage_of demo_address" demo_address demo_task_world p]
  show ?thesis
    by (simp add: handed_stream_def demo_listener_def demo_task_world_def demo_world_def p demo_address_roundtrip
        del: sockaddr_storage_of.simps)
qed

text \<open>Connections that are accepted and not yet taken, on a pool that takes work.\<close>

definition accepting ::
  "('f, 'r) listener_env \<Rightarrow> (raw_fd \<Rightarrow> socket_address) \<Rightarrow> raw_fd list \<Rightarrow> ('f, 'st, 'r) task_world \<Rightarrow> bool" where
  "accepting env addr fds w \<longleftrightarrow>
     (\<exists>slot m. map_of (world_queue (tw_io w) (sh_worker (le_handle env))) (sh_key (le_handle env)) = Some slot \<and>
        slot_state slot = Some (MultiResult m) \<and> mr_state m = Running \<and>
        mr_inner m = map (\<lambda>fd. Inr (AcceptDone fd None)) fds) \<and>
     le_poll_next env (tw_sub w) = (PollPending, tw_sub w) \<and>
     (\<forall>fd \<in> set fds. peer_address_try_from_fd (le_getsockname env) fd = Inr (addr fd)) \<and>
     fst (le_signals env) \<and> ready_pool (length fds) (io_pool (tw_io w))"

lemma world_queue_set [simp]: "world_queue (set_world_queue i q w) i = q"
  "io_pool (set_world_queue i q w) = io_pool w"
  by (simp_all add: world_queue_def set_world_queue_def)

lemma world_queue_pool [simp]: "world_queue (w\<lparr>io_pool := p\<rparr>) i = world_queue w i"
  by (simp add: world_queue_def)

lemma poll_accept_accepting:
  assumes "accepting env addr fds w"
  obtains w' where "poll_accept env w = (case fds of [] \<Rightarrow> PollPending | fd # _ \<Rightarrow> PollReady (Some (Inr (AcceptDone fd None))), w')"
    "accepting env addr (tl fds) w'" "tw_handed w' = tw_handed w" "io_pool (tw_io w') = io_pool (tw_io w)"
proof -
  let ?i = "sh_worker (le_handle env)" and ?k = "sh_key (le_handle env)"
  obtain slot m where s: "map_of (world_queue (tw_io w) ?i) ?k = Some slot" "slot_state slot = Some (MultiResult m)"
    "mr_state m = Running" "mr_inner m = map (\<lambda>fd. Inr (AcceptDone fd None)) fds"
    using assms by (auto simp: accepting_def)
  have rp: "ready_pool (length fds) p \<Longrightarrow> ready_pool (length (tl fds)) p" for p :: "('a, 'c) pool"
    by (auto simp: ready_pool_def)
  define slot' where "slot' = (case fds of
      [] \<Rightarrow> slot\<lparr>slot_state := Some (MultiResult m), slot_waker := Some (le_waker env)\<rparr>
    | _ # fds \<Rightarrow> slot\<lparr>slot_state := Some (MultiResult (m\<lparr>mr_inner := map (\<lambda>fd. Inr (AcceptDone fd None)) fds\<rparr>))\<rparr>)"
  have "queue_poll (world_queue (tw_io w) ?i) ?k (le_waker env) =
      (case fds of [] \<Rightarrow> PollPending | fd # _ \<Rightarrow> PollReady (Some (Inr (AcceptDone fd None))),
       AList.update ?k slot' (world_queue (tw_io w) ?i))"
    using s by (cases fds) (auto simp: queue_poll_def try_extract_result_def slot'_def Let_def split: list.splits)
  then have "poll_accept env w = (case fds of [] \<Rightarrow> PollPending | fd # _ \<Rightarrow> PollReady (Some (Inr (AcceptDone fd None))),
      w\<lparr>tw_io := set_world_queue ?i (AList.update ?k slot' (world_queue (tw_io w) ?i)) (tw_io w)\<rparr>)"
    by (simp add: poll_accept_def handle_poll_def)
  moreover have "accepting env addr (tl fds)
      (w\<lparr>tw_io := set_world_queue ?i (AList.update ?k slot' (world_queue (tw_io w) ?i)) (tw_io w)\<rparr>)"
    using assms s rp by (cases fds) (auto simp: accepting_def slot'_def update_conv')
  ultimately show ?thesis using that by simp
qed

lemma accepting_waits: "accepting env addr fds w \<Longrightarrow> poll_recv env w = Some (False, w)"
  by (simp add: accepting_def poll_recv_def notification_poll.simps)

lemma accept_arm_accepting:
  assumes "accepting env addr (fd # fds) w0" "accepting env addr fds w" "io_pool (tw_io w) = io_pool (tw_io w0)"
  obtains w' where "accept_arm env (Some (Inr (AcceptDone fd None))) w = (AcceptAgain, w')"
    "accepting env addr fds w'" "tw_handed w' = tw_handed w @ [handed_stream env fd (addr fd)]"
proof -
  let ?f = "le_handler env (handed_stream env fd (addr fd))"
  have "ready_pool (Suc (length fds)) (io_pool (tw_io w))" "fst (le_signals env)"
    using assms(1,3) by (auto simp: accepting_def)
  then obtain p where p: "pool_spawn_with (fst (le_signals env)) (snd (le_signals env)) ?f (io_pool (tw_io w)) = (Some (Inr ()), p)"
    "ready_pool (length fds) p"
    using pool_spawn_with_ready by fastforce
  have "peer_address_try_from_fd (le_getsockname env) fd = Inr (addr fd)" using assms(1) by (simp add: accepting_def)
  then have "accept_arm env (Some (Inr (AcceptDone fd None))) w = (AcceptAgain,
      w\<lparr>tw_io := (tw_io w)\<lparr>io_pool := p\<rparr>, tw_handed := tw_handed w @ [handed_stream env fd (addr fd)]\<rparr>)"
    using p(1) by (simp add: logged_stream_handed)
  with assms(2) p(2) show ?thesis by (intro that) (auto simp: accepting_def)
qed

lemma accepting_iteration:
  assumes "accepting env addr fds w"
  shows "\<exists>w'. accepting env addr (tl fds) w' \<and>
    (case fds of
       [] \<Rightarrow> listener_iteration env first w = Some (AcceptYield, w') \<and> tw_handed w' = tw_handed w
     | fd # _ \<Rightarrow> listener_iteration env first w = Some (AcceptAgain, w') \<and>
         tw_handed w' = tw_handed w @ [handed_stream env fd (addr fd)])"
proof -
  obtain w1 where w1: "poll_accept env w =
      (case fds of [] \<Rightarrow> PollPending | fd # _ \<Rightarrow> PollReady (Some (Inr (AcceptDone fd None))), w1)"
    "accepting env addr (tl fds) w1" "tw_handed w1 = tw_handed w" "io_pool (tw_io w1) = io_pool (tw_io w)"
    using poll_accept_accepting [OF assms] .
  show ?thesis
  proof (cases fds)
    case Nil
    then show ?thesis
      using w1 accepting_waits [OF assms] accepting_waits [OF w1(2)] by (auto simp: listener_iteration_def)
  next
    case (Cons fd fds')
    obtain w2 where "accept_arm env (Some (Inr (AcceptDone fd None))) w1 = (AcceptAgain, w2)"
      "accepting env addr fds' w2" "tw_handed w2 = tw_handed w1 @ [handed_stream env fd (addr fd)]"
      using accept_arm_accepting [of env addr fd fds' w w1] assms w1 Cons by auto
    then show ?thesis using w1 Cons accepting_waits [OF assms] by (auto simp: listener_iteration_def)
  qed
qed

text \<open>C22. A listener hands over every connection that was accepted, in order, and then waits: with the connections
  \<open>fds\<close> reported and not yet taken, one poll of its task spawns a handler for each, in the order they came, and
  yields with none left, its waker registered for the next.\<close>

theorem listener_hands_over_all:
  assumes "accepting env addr fds w"
  shows "\<exists>w'. listener_poll env turn n w = Some (AcceptYield, w') \<and>
    tw_handed w' = tw_handed w @ map (\<lambda>fd. handed_stream env fd (addr fd)) fds \<and> accepting env addr [] w'"
  using assms
proof (induction fds arbitrary: n w)
  case Nil
  from accepting_iteration [OF Nil, of "turn n"] show ?case by (subst listener_poll.simps) auto
next
  case (Cons fd fds)
  obtain w1 where w1: "accepting env addr fds w1" "listener_iteration env (turn n) w = Some (AcceptAgain, w1)"
    "tw_handed w1 = tw_handed w @ [handed_stream env fd (addr fd)]"
    using accepting_iteration [OF Cons.prems, of "turn n"] by auto
  from Cons.IH [OF w1(1), of "n + 1"] w1(2,3) show ?case by (subst listener_poll.simps) auto
qed

definition accepted_world :: "(unit, unit, unit) task_world" where
  "accepted_world = demo_task_world\<lparr>tw_io := set_world_queue 0
     [(0, \<lparr>slot_state = Some (MultiResult \<lparr>mr_inner = [Inr (AcceptDone 9 None), Inr (AcceptDone 10 None)],
        mr_op = op_accept_multi 5, mr_state = Running\<rparr>), slot_waker = None\<rparr>)] demo_world\<rparr>"

theorem listener_hands_over_all_witness:
  "\<exists>w'. listener_poll demo_listener (\<lambda>n. even n) 0 accepted_world = Some (AcceptYield, w') \<and>
     map st_fd (tw_handed w') = [9, 10]"
proof -
  have "peer_address_try_from_fd (le_getsockname demo_listener) fd = Inr demo_address" for fd
    using demo_address_roundtrip
    by (simp add: peer_address_try_from_fd_def socket_address_try_from_fd_def demo_listener_def del: sockaddr_storage_of.simps)
  then have "accepting demo_listener (\<lambda>_. demo_address) [9, 10] accepted_world"
    using two_workers_ready [of "Suc (Suc 0)"]
    by (simp add: accepting_def accepted_world_def demo_listener_def demo_task_world_def demo_world_def)
  from listener_hands_over_all [OF this, of "\<lambda>n. even n" 0] show ?thesis
    by (auto simp: accepted_world_def demo_task_world_def handed_stream_def stream_new_def)
qed

end
