(* ===== verification/Timer_Source.thy ===== *)
theory Timer_Source
  imports Sleep Event_Source
begin

text \<open>
  A sleep on its worker: the task that \<open>submit\<close> of \<open>src/timing/futures/sleep.rs\<close> hands to \<open>register_event_source\<close>,
  run as a task of an event source over the registries of its worker, with the future polled elsewhere, the
  worker delivering events and the worker stopping. A poll of the task is one step here; that it makes no more
  of a sleep than the finer process of the theory \<open>Sleep\<close> is the simulation proved below.
\<close>

section \<open>The handler\<close>

record timer_world = worker_events +
  tw_sleep :: sleep

definition set_state_and_wake :: "sleep_state \<Rightarrow> waker \<Rightarrow> sleep \<Rightarrow> sleep" where
  "set_state_and_wake st w s = s\<lparr>sl_state := st, sl_woken := sl_woken s @ [w]\<rparr>"

text \<open>The handler after its event: \<open>rd\<close> and \<open>cl\<close> are whether the timer can be read and closed.\<close>

definition timer_handle :: "bool \<Rightarrow> bool \<Rightarrow> waker \<Rightarrow> sleep \<Rightarrow> sleep" where
  "timer_handle rd cl w s =
     (if \<not> rd then set_state_and_wake SleepFailure w s
      else if \<not> cl then set_state_and_wake SleepFailure w s
      else set_state_and_wake SleepComplete w (s\<lparr>sl_open_timers := sl_open_timers s - 1\<rparr>))"

text \<open>A poll of the handler's future; it does not look at the event it is given.\<close>

definition timer_poll ::
  "bool \<Rightarrow> bool \<Rightarrow> waker \<Rightarrow> event_receiver \<Rightarrow> waker \<Rightarrow> timer_world \<Rightarrow> unit poll \<times> event_receiver \<times> timer_world" where
  "timer_poll rd cl w r wkr wd =
     (case receiver_next_event r wkr wd of
        (Some (PollReady _), wd) \<Rightarrow> (PollReady (), r, wd\<lparr>tw_sleep := timer_handle rd cl w (tw_sleep wd)\<rparr>)
      | (_, wd) \<Rightarrow> (PollPending, r, wd))"

definition timer_interest :: i32 where "timer_interest = INTEREST_READ OR INTEREST_ONESHOT"

section \<open>The process\<close>

text \<open>The timer's descriptor, the worker with the sleep, its task, and whether the timer has expired. The waker
  the handler holds is the one in \<open>sl_handler\<close>; where the task stands is read off \<open>tr_task\<close>.\<close>

record timer_run =
  tr_world :: timer_world
  tr_task :: "event_receiver source_task"
  tr_expired :: bool

definition timer_new :: "u64 \<Rightarrow> u32 \<Rightarrow> worker_events \<Rightarrow> timer_run" where
  "timer_new secs nanos w =
     \<lparr>tr_world = worker_events.extend w \<lparr>tw_sleep = sleep_new secs nanos\<rparr>, tr_task = SourceStart, tr_expired = False\<rparr>"

abbreviation tr_sleep :: "timer_run \<Rightarrow> sleep" where "tr_sleep c \<equiv> tw_sleep (tr_world c)"

abbreviation tr_queues :: "timer_run \<Rightarrow> event_registry" where "tr_queues c \<equiv> we_queues (tr_world c)"

definition with_sleep :: "sleep \<Rightarrow> timer_run \<Rightarrow> timer_run" where
  "with_sleep s c = c\<lparr>tr_world := (tr_world c)\<lparr>tw_sleep := s\<rparr>\<rparr>"

definition with_queues :: "event_registry \<Rightarrow> timer_run \<Rightarrow> timer_run" where
  "with_queues q c = c\<lparr>tr_world := (tr_world c)\<lparr>we_queues := q\<rparr>\<rparr>"

text \<open>The steps: a poll of the future up to the write of \<open>Pending\<close>, that write, a poll of the task by its worker,
  the expiry, its event delivered and its queue woken, and the broadcast of a worker that stops. A timer that has
  not expired cannot be read.\<close>

datatype timer_action =
    FuturePoll submit_outcome waker
  | FuturePending
  | TaskPoll epoll_call bool bool waker
  | TimerFires
  | TimerEvent i32
  | StopBroadcast

fun timer_act :: "(i64 \<times> i64 \<Rightarrow> bool) \<Rightarrow> raw_fd \<Rightarrow> timer_action \<Rightarrow> timer_run \<Rightarrow> timer_run option" where
  "timer_act fires fd (FuturePoll out w) c =
     (if sl_registered (tr_sleep c) then None else Some (with_sleep (snd (sleep_poll out w (tr_sleep c))) c))"
| "timer_act fires fd FuturePending c = map_option (\<lambda>s. with_sleep s c) (write_pending (tr_sleep c))"
| "timer_act fires fd (TaskPoll epoll rd cl wkr) c =
     (case sl_handler (tr_sleep c) of
        None \<Rightarrow> None
      | Some (w, _) \<Rightarrow>
          if tr_task c = SourceDone \<or> rd \<and> \<not> tr_expired c then None
          else (case source_poll epoll (timer_poll rd cl w) id fd timer_interest wkr (tr_task c) (tr_world c) of
                  (_, t, wd) \<Rightarrow> Some (c\<lparr>tr_world := wd, tr_task := t\<rparr>)))"
| "timer_act fires fd TimerFires c =
     (if sl_handler (tr_sleep c) \<noteq> None \<and> fires (timer_value (tr_sleep c)) then Some (c\<lparr>tr_expired := True\<rparr>) else None)"
| "timer_act fires fd (TimerEvent t) c =
     (case tr_task c of
        SourceHandling r _ \<Rightarrow>
          if tr_expired c
          then (let k = er_key r; (_, q) = push_event \<lparr>event_type = t, event_key = k\<rparr> (tr_queues c) in
                Some (with_queues (snd (registry_wake k q)) c))
          else None
      | _ \<Rightarrow> None)"
| "timer_act fires fd StopBroadcast c = Some (with_queues (snd (broadcast_and_wake SHUTDOWN (tr_queues c))) c)"

section \<open>Simulation\<close>

text \<open>The events that wait for the receiver with the key.\<close>

definition waiting_events :: "u64 \<Rightarrow> event_registry \<Rightarrow> event list" where
  "waiting_events k r = (case map_of r k of None \<Rightarrow> [] | Some q \<Rightarrow> eq_events q)"

definition timer_pc :: "timer_run \<Rightarrow> handler_pc" where
  "timer_pc c =
     (case tr_task c of
        SourceStart \<Rightarrow> AwaitTimer
      | SourceHandling r _ \<Rightarrow> if waiting_events (er_key r) (tr_queues c) = [] then AwaitTimer else TimerReady
      | SourceDone \<Rightarrow> if sl_woken (tr_sleep c) = [] then AwaitTimer else HandlerDone)"

text \<open>The sleep as the theory \<open>Sleep\<close> has it: its task stands where \<open>tr_task\<close> and the queue say.\<close>

definition timer_view :: "timer_run \<Rightarrow> sleep" where
  "timer_view c = (tr_sleep c)\<lparr>sl_handler := map_option (\<lambda>(w, _). (w, timer_pc c)) (sl_handler (tr_sleep c))\<rparr>"

lemma timer_view_sel [simp]:
  "sl_state (timer_view c) = sl_state (tr_sleep c)" "sl_woken (timer_view c) = sl_woken (tr_sleep c)"
  "sl_registered (timer_view c) = sl_registered (tr_sleep c)" "sl_open_timers (timer_view c) = sl_open_timers (tr_sleep c)"
  "sl_secs (timer_view c) = sl_secs (tr_sleep c)" "sl_nanos (timer_view c) = sl_nanos (tr_sleep c)"
  "timer_value (timer_view c) = timer_value (tr_sleep c)"
  by (simp_all add: timer_view_def timer_value_def)

text \<open>The part of the invariant that the abstract process does not see.\<close>

definition timer_local :: "(i64 \<times> i64 \<Rightarrow> bool) \<Rightarrow> timer_run \<Rightarrow> bool" where
  "timer_local fires c \<longleftrightarrow>
     (tr_expired c \<longrightarrow> fires (timer_value (tr_sleep c))) \<and>
     (sl_handler (tr_sleep c) \<noteq> None \<and> tr_task c \<noteq> SourceDone \<longrightarrow> 0 < sl_open_timers (tr_sleep c)) \<and>
     (case tr_task c of
        SourceStart \<Rightarrow> sl_woken (tr_sleep c) = []
      | SourceHandling r h \<Rightarrow>
          h = r \<and> sl_woken (tr_sleep c) = [] \<and> sl_handler (tr_sleep c) \<noteq> None \<and> map_of (tr_queues c) (er_key r) \<noteq> None
      | SourceDone \<Rightarrow> sl_handler (tr_sleep c) \<noteq> None)"

definition timer_inv :: "(i64 \<times> i64 \<Rightarrow> bool) \<Rightarrow> timer_run \<Rightarrow> bool" where
  "timer_inv fires c \<longleftrightarrow> sleep_inv (timer_view c) \<and> timer_local fires c"

lemma map_of_push_and_wake:
  "map_of (snd (registry_wake k (snd (push_event e r)))) k' =
     (if k' = k \<and> event_key e = k
      then map_option (\<lambda>q. \<lparr>eq_events = eq_events q @ [e], eq_wakers = []\<rparr>) (map_of r k) else
        (if k' = k then map_option (\<lambda>q. q\<lparr>eq_wakers := []\<rparr>) (map_of r k)
         else if k' = event_key e then map_option (queue_push e) (map_of r k') else map_of r k'))"
  by (auto simp: registry_wake_def push_event_def queue_wake_def queue_push_def update_conv' split: option.splits prod.splits)

lemma with_sleep_sel [simp]:
  "tr_sleep (with_sleep s c) = s" "tr_queues (with_sleep s c) = tr_queues c" "tr_task (with_sleep s c) = tr_task c"
  "tr_expired (with_sleep s c) = tr_expired c"
  by (simp_all add: with_sleep_def)

lemma with_queues_sel [simp]:
  "tr_sleep (with_queues q c) = tr_sleep c" "tr_queues (with_queues q c) = q" "tr_task (with_queues q c) = tr_task c"
  "tr_expired (with_queues q c) = tr_expired c"
  by (simp_all add: with_queues_def)

text \<open>What a poll of the task comes to.\<close>

lemma task_pollE:
  assumes "timer_act fires fd (TaskPoll epoll rd cl wkr) c = Some d" "timer_inv fires c"
  obtains w pc where "sl_handler (tr_sleep c) = Some (w, pc)" "rd \<longrightarrow> tr_expired c" "tr_expired d = tr_expired c"
    "tr_task c = SourceStart" "tr_task d = SourceDone" "tr_sleep d = tr_sleep c"
  | w pc r q where "sl_handler (tr_sleep c) = Some (w, pc)" "rd \<longrightarrow> tr_expired c" "tr_expired d = tr_expired c"
    "tr_task c = SourceStart \<or> tr_task c = SourceHandling r r \<and> waiting_events (er_key r) (tr_queues c) = []"
    "tr_task d = SourceHandling r r" "tr_sleep d = tr_sleep c" "map_of (tr_queues d) (er_key r) = Some q" "eq_events q = []"
  | w pc r where "sl_handler (tr_sleep c) = Some (w, pc)" "rd \<longrightarrow> tr_expired c" "tr_expired d = tr_expired c"
    "tr_task c = SourceHandling r r" "waiting_events (er_key r) (tr_queues c) \<noteq> []" "tr_task d = SourceDone"
    "tr_sleep d = timer_handle rd cl w (tr_sleep c)"
    "map_of (tr_queues d) (er_key r) = None" "map_of (key_fds (we_interests (tr_world d))) (er_key r) = None"
proof -
  obtain w pc where h: "sl_handler (tr_sleep c) = Some (w, pc)" using assms(1) by (auto split: option.splits)
  have rd: "rd \<longrightarrow> tr_expired c" using assms(1) by (auto split: option.splits if_splits)
  show thesis
  proof (cases "tr_task c")
    case SourceStart
    obtain x i where i: "register_interest epoll fd timer_interest (we_interests (tr_world c)) = (x, i)" by fastforce
    show thesis
    proof (cases x)
      case (Inl e)
      then have "d = c\<lparr>tr_world := (tr_world c)\<lparr>we_interests := i\<rparr>, tr_task := SourceDone\<rparr>"
        using assms(1) h SourceStart i by (auto split: if_splits)
      with that(1) [OF h rd] SourceStart show thesis by simp
    next
      case (Inr k)
      let ?r = "\<lparr>er_source = fd, er_key = k\<rparr>"
      let ?q = "register_waker wkr event_queue_new"
      have "tr_task d = SourceHandling ?r ?r" "tr_sleep d = tr_sleep c" "map_of (tr_queues d) (er_key ?r) = Some ?q"
        "tr_expired d = tr_expired c" "eq_events ?q = []"
        using assms(1) h SourceStart i Inr
        by (auto simp: Let_def source_handle_def timer_poll_def receiver_next_event_def registry_register_def
            event_queue_new_def next_event_poll_def queue_pop_def register_waker_def update_conv' split: if_splits)
      with that(2) [OF h rd] SourceStart show thesis by blast
    qed
  next
    case (SourceHandling r h')
    with assms(2) obtain q where [simp]: "h' = r" and q: "map_of (tr_queues c) (er_key r) = Some q"
      by (auto simp: timer_inv_def timer_local_def)
    show thesis
    proof (cases "eq_events q")
      case Nil
      then have "tr_task d = SourceHandling r r" "tr_sleep d = tr_sleep c"
        "map_of (tr_queues d) (er_key r) = Some (register_waker wkr q)" "tr_expired d = tr_expired c"
        using assms(1) h SourceHandling q
        by (auto simp: Let_def source_handle_def timer_poll_def receiver_next_event_def registry_register_def
            next_event_poll_def queue_pop_def update_conv' split: if_splits)
      moreover have "waiting_events (er_key r) (tr_queues c) = []" "eq_events (register_waker wkr q) = []"
        using q Nil by (simp_all add: waiting_events_def register_waker_def)
      ultimately show thesis using that(2) [OF h rd] SourceHandling by simp
    next
      case (Cons e es)
      then have "tr_task d = SourceDone" "tr_sleep d = timer_handle rd cl w (tr_sleep c)" "tr_expired d = tr_expired c"
        "map_of (tr_queues d) (er_key r) = None" "map_of (key_fds (we_interests (tr_world d))) (er_key r) = None"
        using assms(1) h SourceHandling q
        by (auto simp: Let_def source_handle_def timer_poll_def receiver_next_event_def next_event_poll_def queue_pop_def
            source_end_gone source_end_def deregister_gone registry_remove_def delete_conv' split: if_splits)
      moreover have "waiting_events (er_key r) (tr_queues c) \<noteq> []" using q Cons by (simp add: waiting_events_def)
      ultimately show thesis using that(3) [OF h rd] SourceHandling by simp
    qed
  next
    case SourceDone
    with assms(1) h show thesis by simp
  qed
qed

lemma timer_view_eqI:
  assumes "tr_sleep d = tr_sleep c" "timer_pc d = timer_pc c"
  shows "timer_view d = timer_view c"
  using assms by (simp add: timer_view_def)

lemma timer_view_with_sleep:
  assumes "sl_woken s = sl_woken (tr_sleep c)"
  shows "timer_view (with_sleep s c) = s\<lparr>sl_handler := map_option (\<lambda>(w, _). (w, timer_pc c)) (sl_handler s)\<rparr>"
proof -
  have "timer_pc (with_sleep s c) = timer_pc c"
    using assms by (cases "tr_task c") (simp_all add: timer_pc_def)
  then show ?thesis by (simp add: timer_view_def)
qed

lemma view_steps_none: "timer_view d = timer_view c \<Longrightarrow> \<exists>bs. run (sleep_act fires) bs (timer_view c) = Some (timer_view d)"
  by (rule exI [of _ "[]"]) simp

text \<open>The handler runs from its event to its end.\<close>

lemma handler_run:
  assumes "sl_handler s = Some (w, TimerReady)"
  shows "run (sleep_act fires)
      (HandlerStep (ReadTimer rd) # (if rd then [HandlerStep (CloseTimer cl)] else []) @ [HandlerStep handler_step.Wake]) s =
    Some ((timer_handle rd cl w s)\<lparr>sl_handler := Some (w, HandlerDone)\<rparr>)"
  using assms by (simp add: timer_handle_def set_state_and_wake_def handler_move_def)

lemma timer_handle_sel [simp]:
  "sl_handler (timer_handle rd cl w s) = sl_handler s" "sl_woken (timer_handle rd cl w s) = sl_woken s @ [w]"
  "timer_value (timer_handle rd cl w s) = timer_value s"
  "(timer_handle rd cl w s)\<lparr>sl_handler := h\<rparr> = timer_handle rd cl w (s\<lparr>sl_handler := h\<rparr>)"
  by (simp_all add: timer_handle_def set_state_and_wake_def timer_value_def)

lemma task_poll_view:
  assumes "timer_act fires fd (TaskPoll epoll rd cl wkr) c = Some d" "timer_inv fires c"
  shows "\<exists>bs. run (sleep_act fires) bs (timer_view c) = Some (timer_view d)"
  using assms
proof (cases rule: task_pollE)
  case (1 w pc)
  then have "timer_pc d = timer_pc c" using assms(2) by (simp add: timer_inv_def timer_local_def timer_pc_def)
  with 1 show ?thesis by (intro view_steps_none timer_view_eqI)
next
  case (2 w pc r q)
  then have "timer_pc d = timer_pc c" by (auto simp: timer_pc_def waiting_events_def)
  with 2 show ?thesis by (intro view_steps_none timer_view_eqI)
next
  case (3 w pc r)
  then have "sl_handler (timer_view c) = Some (w, TimerReady)" by (simp add: timer_view_def timer_pc_def)
  moreover have "timer_view d = (timer_handle rd cl w (timer_view c))\<lparr>sl_handler := Some (w, HandlerDone)\<rparr>"
    using 3 by (simp add: timer_view_def timer_pc_def)
  ultimately show ?thesis using handler_run [of "timer_view c" w fires rd cl] by metis
qed

text \<open>An event comes in for the task.\<close>

lemma event_view:
  assumes "timer_inv fires c" "tr_sleep d = tr_sleep c" "tr_task d = tr_task c"
    "\<And>r h. tr_task c = SourceHandling r h \<Longrightarrow> waiting_events (er_key r) (tr_queues d) \<noteq> []"
    "\<And>w. handler_act fires h (w, AwaitTimer) (timer_view c) = Some (handler_move w TimerReady (timer_view c))"
  shows "\<exists>bs. run (sleep_act fires) bs (timer_view c) = Some (timer_view d)"
proof (cases "timer_pc d = timer_pc c")
  case True
  with assms(2) show ?thesis by (intro view_steps_none timer_view_eqI)
next
  case False
  with assms(2-4) obtain r g where r: "tr_task c = SourceHandling r g" "timer_pc c = AwaitTimer" "timer_pc d = TimerReady"
    by (auto simp: timer_pc_def split: source_task.splits if_splits)
  with assms(1) obtain w pc where w: "sl_handler (tr_sleep c) = Some (w, pc)" by (auto simp: timer_inv_def timer_local_def)
  have v: "sl_handler (timer_view c) = Some (w, AwaitTimer)" using w r by (simp add: timer_view_def)
  moreover have "timer_view d = handler_move w TimerReady (timer_view c)"
    using w r assms(2) by (simp add: timer_view_def handler_move_def)
  ultimately have "run (sleep_act fires) [HandlerStep h] (timer_view c) = Some (timer_view d)"
    using assms(5) by simp
  then show ?thesis ..
qed

lemma timer_view_step:
  assumes "timer_inv fires c" "timer_act fires fd a c = Some d"
  shows "\<exists>bs. run (sleep_act fires) bs (timer_view c) = Some (timer_view d)"
proof (cases a)
  case (FuturePoll out w)
  let ?s = "tr_sleep c"
  from assms(2) FuturePoll have d: "d = with_sleep (snd (sleep_poll out w ?s)) c" and r: "\<not> sl_registered ?s"
    by (auto split: if_splits)
  have n: "sl_handler ?s = None" if "sl_state ?s = NotSubmitted"
    using assms(1) r that by (auto simp: timer_inv_def timer_local_def sleep_inv_def timer_view_def split: option.splits)
  have v: "timer_view d = (snd (sleep_poll out w ?s))\<lparr>sl_handler :=
      map_option (\<lambda>(w, _). (w, timer_pc c)) (sl_handler (snd (sleep_poll out w ?s)))\<rparr>"
    unfolding d by (rule timer_view_with_sleep) (cases out; cases "sl_state ?s"; simp add: sleep_poll_def)
  have "snd (sleep_poll out w (timer_view c)) = timer_view d"
  proof (cases "sl_state ?s")
    case NotSubmitted
    have t: "tr_task c = SourceStart" using assms(1) n [OF NotSubmitted] by (auto simp: timer_inv_def timer_local_def split: source_task.splits)
    with n [OF NotSubmitted] NotSubmitted show ?thesis
      unfolding v by (cases out) (simp_all add: sleep_poll_def timer_view_def timer_pc_def)
  qed (unfold v, simp_all add: sleep_poll_def timer_view_def)
  with r have "run (sleep_act fires) [SleepPoll out w] (timer_view c) = Some (timer_view d)" by simp
  then show ?thesis ..
next
  case FuturePending
  with assms(2) have "run (sleep_act fires) [WritePending] (timer_view c) = Some (timer_view d)"
    by (auto simp: write_pending_def timer_view_with_sleep split: if_splits) (simp add: timer_view_def)
  then show ?thesis ..
next
  case (TaskPoll epoll rd cl wkr)
  with assms task_poll_view show ?thesis by blast
next
  case TimerFires
  with assms(2) have "d = c\<lparr>tr_expired := True\<rparr>" by (simp split: if_splits)
  then have "timer_pc d = timer_pc c" "tr_sleep d = tr_sleep c" by (cases "tr_task c"; simp add: timer_pc_def)+
  then show ?thesis by (intro view_steps_none timer_view_eqI)
next
  case (TimerEvent t)
  with assms(2) obtain r h where r: "tr_task c = SourceHandling r h" "tr_expired c"
    and d: "d = with_queues (snd (registry_wake (er_key r)
      (snd (push_event \<lparr>event_type = t, event_key = er_key r\<rparr> (tr_queues c))))) c"
    by (auto simp: Let_def split: source_task.splits if_splits prod.splits)
  have "fires (timer_value (timer_view c))" using assms(1) r(2) by (simp add: timer_inv_def timer_local_def)
  moreover have "waiting_events (er_key r) (tr_queues d) \<noteq> []"
    using assms(1) r(1) by (auto simp: d timer_inv_def timer_local_def waiting_events_def map_of_push_and_wake)
  ultimately show ?thesis
    using r(1) by (intro event_view [OF assms(1), of _ TimerExpires]) (auto simp: d)
next
  case StopBroadcast
  with assms(2) have d: "d = with_queues (snd (broadcast_and_wake SHUTDOWN (tr_queues c))) c" by simp
  show ?thesis
    using assms(1) by (intro event_view [OF assms(1), of _ WorkerStops])
      (auto simp: d timer_inv_def timer_local_def waiting_events_def map_of_broadcast_and_wake)
qed

lemma sleep_poll_keeps:
  "sl_woken (snd (sleep_poll out w s)) = sl_woken s" "timer_value (snd (sleep_poll out w s)) = timer_value s"
  "sl_handler s \<noteq> None \<Longrightarrow> sl_handler (snd (sleep_poll out w s)) \<noteq> None"
  "sl_handler s \<noteq> None \<longrightarrow> 0 < sl_open_timers s \<Longrightarrow>
     sl_handler (snd (sleep_poll out w s)) \<noteq> None \<longrightarrow> 0 < sl_open_timers (snd (sleep_poll out w s))"
  by (cases out; cases "sl_state s"; simp add: sleep_poll_def timer_value_def)+

lemma timer_local_step:
  assumes "timer_inv fires c" "timer_act fires fd a c = Some d"
  shows "timer_local fires d"
proof (cases a)
  case (FuturePoll out w)
  then show ?thesis using assms sleep_poll_keeps [where out = out and w = w and s = "tr_sleep c"]
    by (auto simp: timer_inv_def timer_local_def split: source_task.splits if_splits)
next
  case FuturePending
  then show ?thesis using assms
    by (auto simp: timer_inv_def timer_local_def write_pending_def timer_value_def split: source_task.splits if_splits)
next
  case (TaskPoll epoll rd cl wkr)
  from assms(2,1) [unfolded TaskPoll] show ?thesis
    by (cases rule: task_pollE) (use assms(1) in \<open>auto simp: timer_inv_def timer_local_def split: source_task.splits\<close>)
next
  case TimerFires
  then show ?thesis using assms
    by (auto simp: timer_inv_def timer_local_def split: source_task.splits if_splits)
next
  case (TimerEvent t)
  then show ?thesis using assms
    by (auto simp: Let_def case_prod_beta timer_inv_def timer_local_def map_of_push_and_wake
      split: source_task.splits if_splits)
next
  case StopBroadcast
  then show ?thesis using assms
    by (auto simp: timer_inv_def timer_local_def map_of_broadcast_and_wake split: source_task.splits)
qed

lemma timer_new_inv: "timer_inv fires (timer_new secs nanos w)"
  and timer_new_view: "timer_view (timer_new secs nanos w) = sleep_new secs nanos"
  by (simp_all add: timer_inv_def timer_local_def timer_view_def timer_new_def sleep_inv_def sleep_new_def worker_events.defs)

lemma timer_inv_step:
  assumes "timer_inv fires c" "timer_act fires fd a c = Some d"
  shows "timer_inv fires d"
proof -
  obtain bs where "run (sleep_act fires) bs (timer_view c) = Some (timer_view d)" using timer_view_step [OF assms] ..
  then have "sleep_inv (timer_view d)" using assms(1) sleep.run_inv by (auto simp: timer_inv_def)
  with timer_local_step [OF assms] show ?thesis by (simp add: timer_inv_def)
qed

interpretation timer: simulation_of "timer_act fires fd" "timer_new secs nanos w" "timer_inv fires"
  "sleep_act fires" "sleep_new secs nanos" timer_view
  by unfold_locales (fact timer_new_inv, fact timer_inv_step, fact timer_new_view, fact timer_view_step)

section \<open>Properties\<close>

text \<open>C17. The task of a sleep implements the sleep: whatever the worker's registries, the events it delivers, its
  stopping and the interleaving with the polls of the future, a sleep run on the model of event sources is, seen
  through \<open>timer_view\<close>, in a state that the process of a sleep by itself can reach, with the same state, the same
  wakers called and the same timers open.\<close>

theorem timer_refines_sleep:
  assumes "reachable (timer_act fires fd) (timer_new secs nanos wd) c"
  shows "reachable (sleep_act fires) (sleep_new secs nanos) (timer_view c) \<and>
    sl_state (timer_view c) = sl_state (tr_sleep c) \<and> sl_woken (timer_view c) = sl_woken (tr_sleep c) \<and>
    sl_open_timers (timer_view c) = sl_open_timers (tr_sleep c)"
  using timer.view_reachable [OF assms] by simp

text \<open>A sleep whose task is through does not change any more, but for the write of \<open>Pending\<close> when the poll that
  registered the task has not got to it (\<open>late\<close>).\<close>

definition settled :: "sleep_state \<Rightarrow> bool \<Rightarrow> waker list \<Rightarrow> nat \<Rightarrow> timer_run \<Rightarrow> bool" where
  "settled st late ws n c \<longleftrightarrow>
     tr_task c = SourceDone \<and> sl_woken (tr_sleep c) = ws \<and> sl_open_timers (tr_sleep c) = n \<and>
     (if sl_registered (tr_sleep c) then late \<and> sl_state (tr_sleep c) = st
      else sl_state (tr_sleep c) = (if late then SleepPending else st))"

lemma settled_step:
  assumes "st \<noteq> NotSubmitted" "settled st late ws n c" "timer_act fires fd a c = Some d"
  shows "settled st late ws n d"
  using assms
  by (cases a; cases st; cases late) (auto simp: settled_def sleep_poll_def write_pending_def split: option.splits if_splits)

lemma settled_run:
  assumes "st \<noteq> NotSubmitted" "settled st late ws n c" "run (timer_act fires fd) as c = Some d"
  shows "settled st late ws n d"
  using assms(2,3) by (induction as arbitrary: c) (auto split: option.splits dest: settled_step [OF assms(1)])

lemma settled_poll:
  "settled st late ws n c \<Longrightarrow> st \<noteq> NotSubmitted \<Longrightarrow> \<not> sl_registered (tr_sleep c) \<Longrightarrow> fst (sleep_poll out w (tr_sleep c)) =
     (if late then PollPending
      else case st of SleepComplete \<Rightarrow> PollReady (Inr ()) | SleepFailure \<Rightarrow> PollReady (Inl TimerPollError) | _ \<Rightarrow> PollPending)"
  by (cases st) (auto simp: settled_def sleep_poll_def split: if_splits)

text \<open>C28. A sleep whose timer cannot be registered never ends. The task that finds its worker's poller refusing the
  timer returns without calling the handler: whatever happens then, nothing is woken, the timer stays open, and
  every poll of the sleep is pending.\<close>

theorem unregistered_sleep_hangs:
  assumes "epoll EpollAdd fd (Some (timer_interest, generator (we_interests wd))) = Inl e"
  shows "\<exists>c. run (timer_act fires fd) [FuturePoll Registered w, FuturePending, TaskPoll epoll False cl wkr]
      (timer_new secs nanos wd) = Some c \<and>
    (\<forall>as d. run (timer_act fires fd) as c = Some d \<longrightarrow>
       sl_woken (tr_sleep d) = [] \<and> sl_open_timers (tr_sleep d) = 1 \<and>
       (\<forall>out w'. fst (sleep_poll out w' (tr_sleep d)) = PollPending))"
proof -
  obtain c where c: "run (timer_act fires fd) [FuturePoll Registered w, FuturePending, TaskPoll epoll False cl wkr]
      (timer_new secs nanos wd) = Some c" "settled SleepPending True [] 1 c"
    using assms
    by (simp add: timer_new_def sleep_new_def worker_events.defs sleep_poll_def write_pending_def with_sleep_def
        register_interest_def Let_def settled_def)
  have "settled SleepPending True [] 1 d" if "run (timer_act fires fd) as c = Some d" for as d
    using settled_run [OF _ c(2) that] by simp
  with c(1) show ?thesis by (fastforce simp: settled_def sleep_poll_def split: if_splits)
qed

lemma handled_poll:
  assumes "timer_inv fires c" "tr_task c = SourceHandling r h" "sl_handler (tr_sleep c) = Some (w, pc)"
    "waiting_events (er_key r) (tr_queues c) \<noteq> []" "rd \<longrightarrow> tr_expired c"
  obtains d where "timer_act fires fd (TaskPoll epoll rd cl wkr) c = Some d" "tr_task d = SourceDone"
    "tr_sleep d = timer_handle rd cl w (tr_sleep c)"
    "map_of (tr_queues d) (er_key r) = None" "map_of (key_fds (we_interests (tr_world d))) (er_key r) = None"
proof -
  obtain d where d: "timer_act fires fd (TaskPoll epoll rd cl wkr) c = Some d"
    using assms(2,3,5) by (auto simp: case_prod_beta)
  from d assms(1) show thesis by (cases rule: task_pollE) (use that [OF d] assms in auto)
qed

lemma broadcast_waits:
  assumes "timer_inv fires c" "tr_task c = SourceHandling r h"
  shows "waiting_events (er_key r) (snd (broadcast_and_wake t (tr_queues c))) \<noteq> []"
  using assms by (auto simp: timer_inv_def timer_local_def waiting_events_def map_of_broadcast_and_wake)

text \<open>C23. A worker that stops fails the sleeps it serves and leaks their timers. The event it broadcasts is taken for
  the timer's; the timer has not expired and cannot be read: from any reachable state in which the task waits, the next
  poll of the task wakes the sleeper once and leaves the timer open for good. From then on the sleep is an error,
  except when the poll that registered the task had not yet written \<open>Pending\<close>: that write covers the error, and every
  poll after it is pending, with nothing left to wake it.\<close>

theorem shutdown_fails_sleep:
  assumes "reachable (timer_act fires fd) (timer_new secs nanos wd) c" "tr_task c = SourceHandling r h"
    "sl_handler (tr_sleep c) = Some (w, pc)" "\<not> tr_expired c"
  shows "\<exists>d. run (timer_act fires fd) [StopBroadcast, TaskPoll epoll False cl wkr] c = Some d \<and>
    (\<forall>as e. run (timer_act fires fd) as d = Some e \<longrightarrow>
       sl_woken (tr_sleep e) = [w] \<and>
       0 < sl_open_timers (tr_sleep e) \<and> sl_open_timers (tr_sleep e) = sl_open_timers (tr_sleep c) \<and>
       (\<not> sl_registered (tr_sleep e) \<longrightarrow> (\<forall>out w'. fst (sleep_poll out w' (tr_sleep e)) =
          (if sl_registered (tr_sleep c) then PollPending else PollReady (Inl TimerPollError)))))"
proof -
  let ?n = "sl_open_timers (tr_sleep c)" and ?late = "sl_registered (tr_sleep c)"
  have inv: "timer_inv fires c" by (rule timer.reachable_inv [OF assms(1)])
  then have n: "0 < ?n" "sl_woken (tr_sleep c) = []" using assms(2,3) by (simp_all add: timer_inv_def timer_local_def)
  obtain c' where c': "timer_act fires fd StopBroadcast c = Some c'" "tr_task c' = SourceHandling r h"
    "tr_sleep c' = tr_sleep c" "waiting_events (er_key r) (tr_queues c') \<noteq> []"
    using broadcast_waits [OF inv assms(2)] assms(2) by simp
  obtain d where d: "timer_act fires fd (TaskPoll epoll False cl wkr) c' = Some d" "tr_task d = SourceDone"
    "tr_sleep d = timer_handle False cl w (tr_sleep c)"
    using handled_poll [OF timer_inv_step [OF inv c'(1)] c'(2) _ c'(4), of w pc False fd epoll cl wkr] assms(3) c'(3)
    by auto
  have s: "settled SleepFailure ?late [w] ?n d"
    using d n(2) by (simp add: settled_def timer_handle_def set_state_and_wake_def)
  have "settled SleepFailure ?late [w] ?n e" if "run (timer_act fires fd) as d = Some e" for as e
    using settled_run [OF _ s that] by simp
  moreover have "run (timer_act fires fd) [StopBroadcast, TaskPoll epoll False cl wkr] c = Some d"
    using c'(1) d(1) by simp
  ultimately show ?thesis using n(1) settled_poll by (fastforce simp: settled_def)
qed

text \<open>C25. A timer that expires ends its sleep: from any reachable state in which the task waits and the timer has
  expired, when its event is delivered and the timer is read and closed, the next poll of the task closes the timer and
  wakes who sleeps, once, and the key is gone from both registries. From then on the sleep is complete, except when the
  poll that registered the task had not yet written \<open>Pending\<close>: that write covers the completion, and every poll after
  it is pending, with nothing left to wake it.\<close>

theorem timer_completes_sleep:
  assumes "reachable (timer_act fires fd) (timer_new secs nanos wd) c" "tr_task c = SourceHandling r h"
    "sl_handler (tr_sleep c) = Some (w, pc)" "tr_expired c"
  shows "\<exists>d. run (timer_act fires fd) [TimerEvent t, TaskPoll epoll True True wkr] c = Some d \<and>
    map_of (tr_queues d) (er_key r) = None \<and> map_of (key_fds (we_interests (tr_world d))) (er_key r) = None \<and>
    (\<forall>as e. run (timer_act fires fd) as d = Some e \<longrightarrow>
       sl_woken (tr_sleep e) = [w] \<and> sl_open_timers (tr_sleep c) = Suc (sl_open_timers (tr_sleep e)) \<and>
       (\<not> sl_registered (tr_sleep e) \<longrightarrow> (\<forall>out w'. fst (sleep_poll out w' (tr_sleep e)) =
          (if sl_registered (tr_sleep c) then PollPending else PollReady (Inr ())))))"
proof -
  let ?n = "sl_open_timers (tr_sleep c) - 1" and ?late = "sl_registered (tr_sleep c)"
  have inv: "timer_inv fires c" by (rule timer.reachable_inv [OF assms(1)])
  then have n: "0 < sl_open_timers (tr_sleep c)" "sl_woken (tr_sleep c) = []" "map_of (tr_queues c) (er_key r) \<noteq> None"
    using assms(2,3) by (simp_all add: timer_inv_def timer_local_def)
  obtain c' where c': "timer_act fires fd (TimerEvent t) c = Some c'" "tr_task c' = SourceHandling r h"
    "tr_sleep c' = tr_sleep c" "waiting_events (er_key r) (tr_queues c') \<noteq> []" "tr_expired c'"
    using n(3) assms(2,4) by (auto simp: Let_def case_prod_beta waiting_events_def map_of_push_and_wake)
  obtain d where d: "timer_act fires fd (TaskPoll epoll True True wkr) c' = Some d" "tr_task d = SourceDone"
    "tr_sleep d = timer_handle True True w (tr_sleep c)"
    "map_of (tr_queues d) (er_key r) = None" "map_of (key_fds (we_interests (tr_world d))) (er_key r) = None"
    using handled_poll [OF timer_inv_step [OF inv c'(1)] c'(2) _ c'(4), of w pc True fd epoll True wkr] assms(3) c'(3,5)
    by auto
  have s: "settled SleepComplete ?late [w] ?n d"
    using d n(2) by (simp add: settled_def timer_handle_def set_state_and_wake_def)
  have "settled SleepComplete ?late [w] ?n e" if "run (timer_act fires fd) as d = Some e" for as e
    using settled_run [OF _ s that] by simp
  moreover have "run (timer_act fires fd) [TimerEvent t, TaskPoll epoll True True wkr] c = Some d"
    using c'(1) d(1) by simp
  moreover have "sl_open_timers (tr_sleep c) = Suc ?n" using n(1) by simp
  ultimately show ?thesis using d(4,5) settled_poll by (fastforce simp: settled_def)
qed

section \<open>Witnesses\<close>

text \<open>A sleep of a second on a worker whose poller takes every registration, up to its task's first poll.\<close>

definition sleeping :: "timer_action list" where
  "sleeping = [FuturePoll Registered 4, FuturePending, TaskPoll (\<lambda>_ _ _. Inr ()) False False 9]"

lemma sleeping_run:
  obtains c where "run (timer_act (\<lambda>_. True) 7) sleeping (timer_new 1 0 no_events) = Some c"
    "tr_task c = SourceHandling \<lparr>er_source = 7, er_key = 100\<rparr> \<lparr>er_source = 7, er_key = 100\<rparr>"
    "sl_handler (tr_sleep c) = Some (4, AwaitTimer)" "\<not> sl_registered (tr_sleep c)" "\<not> tr_expired c"
    "sl_state (tr_sleep c) = SleepPending" "sl_open_timers (tr_sleep c) = 1"
    "sl_secs (tr_sleep c) = 1" "sl_nanos (tr_sleep c) = 0"
  by (simp add: sleeping_def timer_new_def no_events_def poller_registry_new_def sleep_new_def worker_events.defs
      sleep_poll_def write_pending_def with_sleep_def register_interest_def Let_def source_handle_def timer_poll_def
      receiver_next_event_def registry_register_def event_queue_new_def next_event_poll_def queue_pop_def
      register_waker_def)

theorem timer_refines_sleep_witness:
  "\<exists>c. run (timer_act (\<lambda>_. True) 7) sleeping (timer_new 1 0 no_events) = Some c \<and>
     reachable (sleep_act (\<lambda>_. True)) (sleep_new 1 0) (timer_view c) \<and> sl_state (timer_view c) = SleepPending"
proof -
  obtain c where c: "run (timer_act (\<lambda>_. True) 7) sleeping (timer_new 1 0 no_events) = Some c"
    "sl_state (tr_sleep c) = SleepPending"
    using sleeping_run by metis
  with timer_refines_sleep [OF run_reachable [OF c(1)]] show ?thesis by simp
qed

theorem unregistered_sleep_hangs_witness:
  "\<exists>c. run (timer_act (\<lambda>_. True) 7) [FuturePoll Registered 4, FuturePending,
       TaskPoll (\<lambda>_ _ _. Inl PermissionDenied) False True 9] (timer_new 0 1 no_events) = Some c \<and>
     fst (sleep_poll Registered 4 (tr_sleep c)) = PollPending"
proof -
  obtain c where c: "run (timer_act (\<lambda>_. True) 7) [FuturePoll Registered 4, FuturePending,
       TaskPoll (\<lambda>_ _ _. Inl PermissionDenied) False True 9] (timer_new 0 1 no_events) = Some c"
    "\<forall>as d. run (timer_act (\<lambda>_. True) 7) as c = Some d \<longrightarrow>
       sl_woken (tr_sleep d) = [] \<and> sl_open_timers (tr_sleep d) = 1 \<and>
       (\<forall>out w'. fst (sleep_poll out w' (tr_sleep d)) = PollPending)"
    using unregistered_sleep_hangs [of "\<lambda>_ _ _. Inl PermissionDenied" 7 no_events PermissionDenied "\<lambda>_. True" 4 True 9 0 1]
    by blast
  have "run (timer_act (\<lambda>_. True) 7) [] c = Some c" by simp
  with c show ?thesis by blast
qed

theorem shutdown_fails_sleep_witness:
  "\<exists>d. run (timer_act (\<lambda>_. True) 7) (sleeping @ [StopBroadcast, TaskPoll (\<lambda>_ _ _. Inr ()) False True 9])
     (timer_new 1 0 no_events) = Some d \<and> sl_woken (tr_sleep d) = [4] \<and> sl_open_timers (tr_sleep d) = 1"
proof -
  obtain c where c: "run (timer_act (\<lambda>_. True) 7) sleeping (timer_new 1 0 no_events) = Some c"
    "tr_task c = SourceHandling \<lparr>er_source = 7, er_key = 100\<rparr> \<lparr>er_source = 7, er_key = 100\<rparr>"
    "sl_handler (tr_sleep c) = Some (4, AwaitTimer)" "\<not> tr_expired c" "sl_open_timers (tr_sleep c) = 1"
    using sleeping_run by metis
  obtain d where d: "run (timer_act (\<lambda>_. True) 7) [StopBroadcast, TaskPoll (\<lambda>_ _ _. Inr ()) False True 9] c = Some d"
    "\<forall>as e. run (timer_act (\<lambda>_. True) 7) as d = Some e \<longrightarrow> sl_woken (tr_sleep e) = [4] \<and>
       sl_open_timers (tr_sleep e) = sl_open_timers (tr_sleep c)"
    using shutdown_fails_sleep [OF run_reachable [OF c(1)] c(2-4), of "\<lambda>_ _ _. Inr ()" True 9] by blast
  have "run (timer_act (\<lambda>_. True) 7) [] d = Some d" by simp
  with d(2) c(5) have "sl_woken (tr_sleep d) = [4]" "sl_open_timers (tr_sleep d) = 1" by metis+
  with c(1) d(1) show ?thesis by (simp add: run_append)
qed

theorem timer_completes_sleep_witness:
  "\<exists>d. run (timer_act (\<lambda>_. True) 7) (sleeping @ [TimerFires, TimerEvent 1, TaskPoll (\<lambda>_ _ _. Inr ()) True True 9])
     (timer_new 1 0 no_events) = Some d \<and> sl_woken (tr_sleep d) = [4] \<and> sl_open_timers (tr_sleep d) = 0"
proof -
  obtain b where b: "run (timer_act (\<lambda>_. True) 7) sleeping (timer_new 1 0 no_events) = Some b"
    "tr_task b = SourceHandling \<lparr>er_source = 7, er_key = 100\<rparr> \<lparr>er_source = 7, er_key = 100\<rparr>"
    "sl_handler (tr_sleep b) = Some (4, AwaitTimer)" "sl_open_timers (tr_sleep b) = 1"
    using sleeping_run by metis
  define c where "c = b\<lparr>tr_expired := True\<rparr>"
  have c: "run (timer_act (\<lambda>_. True) 7) (sleeping @ [TimerFires]) (timer_new 1 0 no_events) = Some c"
    using b(1,3) by (simp add: run_append c_def)
  have s: "tr_task c = tr_task b" "tr_sleep c = tr_sleep b" "tr_expired c" by (simp_all add: c_def)
  obtain d where d: "run (timer_act (\<lambda>_. True) 7) [TimerEvent 1, TaskPoll (\<lambda>_ _ _. Inr ()) True True 9] c = Some d"
    "\<forall>as e. run (timer_act (\<lambda>_. True) 7) as d = Some e \<longrightarrow> sl_woken (tr_sleep e) = [4] \<and>
       sl_open_timers (tr_sleep c) = Suc (sl_open_timers (tr_sleep e))"
    using timer_completes_sleep [OF run_reachable [OF c], of _ _ 4 AwaitTimer 1 "\<lambda>_ _ _. Inr ()" 9] b(2,3) s by metis
  have "run (timer_act (\<lambda>_. True) 7) [] d = Some d" by simp
  with d(2) have d': "sl_woken (tr_sleep d) = [4]" "sl_open_timers (tr_sleep c) = Suc (sl_open_timers (tr_sleep d))"
    by metis+
  have "run (timer_act (\<lambda>_. True) 7) ((sleeping @ [TimerFires]) @ [TimerEvent 1, TaskPoll (\<lambda>_ _ _. Inr ()) True True 9])
      (timer_new 1 0 no_events) = Some d"
    using d(1) by (simp only: run_append [of _ "sleeping @ [TimerFires]"] c option.case)
  with d' b(4) s(2) show ?thesis by simp
qed

end
