(* ===== verification/Worker_Init.thy ===== *)
theory Worker_Init
  imports Pool Event_Channel
begin

text \<open>
  How a worker comes to be (\<open>Worker::new\<close> and the beginning of \<open>worker_loop\<close> in \<open>src/worker/mod.rs\<close>,
  \<open>EventPoller::new\<close> of \<open>src/events/poller/mod.rs\<close>, \<open>IoContext::new\<close> of \<open>src/io/context.rs\<close>): its message channel, its
  poller, its ring and the ring's channel, each of which may fail, in which case what was made before is dropped; and
  on the worker's thread the signals it blocks and the descriptor it reads them from. The calls are arguments; a call
  gives an error number or its result, and the world after it.
\<close>

section \<open>Calls\<close>

text \<open>\<open>wc_ring\<close> is \<open>IoUring::new\<close> with the ring's descriptor, \<open>wc_register_eventfd\<close> the ring library's call on it, and
  \<open>wc_close\<close> the drop of an owned descriptor. A set of signals is the list of those added to it, and
  \<open>wc_sigprocmask\<close> is called on the thread it is given, with \<open>SIG_BLOCK\<close>.\<close>

record 'w worker_calls =
  wc_eventfd :: "u32 \<Rightarrow> i32 \<Rightarrow> 'w \<Rightarrow> (i32 + raw_fd) \<times> 'w"
  wc_epoll_create :: "i32 \<Rightarrow> 'w \<Rightarrow> (i32 + raw_fd) \<times> 'w"
  wc_fcntl :: "raw_fd \<Rightarrow> i32 \<Rightarrow> i32 \<Rightarrow> 'w \<Rightarrow> (i32 + i32) \<times> 'w"
  wc_epoll_ctl :: "raw_fd \<Rightarrow> epoll_op \<Rightarrow> raw_fd \<Rightarrow> (u32 \<times> u64) option \<Rightarrow> 'w \<Rightarrow> (os_error + unit) \<times> 'w"
  wc_ring :: "u32 \<Rightarrow> 'w \<Rightarrow> (i32 + raw_fd) \<times> 'w"
  wc_register_eventfd :: "raw_fd \<Rightarrow> raw_fd \<Rightarrow> 'w \<Rightarrow> (i32 + unit) \<times> 'w"
  wc_sigemptyset :: "i32 + unit"
  wc_sigaddset :: "i32 \<Rightarrow> i32 + unit"
  wc_sigprocmask :: "nat \<Rightarrow> i32 list \<Rightarrow> 'w \<Rightarrow> (i32 + unit) \<times> 'w"
  wc_signalfd :: "raw_fd \<Rightarrow> i32 list \<Rightarrow> i32 \<Rightarrow> 'w \<Rightarrow> (i32 + raw_fd) \<times> 'w"
  wc_close :: "raw_fd \<Rightarrow> 'w \<Rightarrow> 'w"

definition close_all :: "'w worker_calls \<Rightarrow> raw_fd list \<Rightarrow> 'w \<Rightarrow> 'w" where
  "close_all wc fds w = fold (wc_close wc) fds w"

section \<open>Channels, pollers and rings\<close>

definition channel_create :: "'w worker_calls \<Rightarrow> 'w \<Rightarrow> (channel_error + raw_fd) option \<times> 'w" where
  "channel_create wc w =
     (let flags = CHANNEL_NONBLOCK OR CHANNEL_CLOEXEC; (r, w) = wc_eventfd wc 0 flags w in (channel_new (\<lambda>_ _. r), w))"

datatype event_poller_error = FailedToCreateEpollFd os_error | FailedToSetEpollFlags os_error

record event_poller =
  ep_fd :: raw_fd
  ep_registry :: poller_registry
  ep_buffer_size :: usize

definition F_GETFD :: i32 where "F_GETFD = 1"
definition F_SETFD :: i32 where "F_SETFD = 2"
definition FD_CLOEXEC :: i32 where "FD_CLOEXEC = 1"

text \<open>The descriptor is not owned yet: nothing closes it when its flags cannot be set.\<close>

definition epoll_create :: "'w worker_calls \<Rightarrow> 'w \<Rightarrow> (event_poller_error + raw_fd) \<times> 'w" where
  "epoll_create wc w =
     (case wc_epoll_create wc 0 w of
        (Inl e, w) \<Rightarrow> (Inl (FailedToCreateEpollFd (os_error_of_i32 e)), w)
      | (Inr fd, w) \<Rightarrow>
          (case wc_fcntl wc fd F_GETFD 0 w of
             (Inl _, w) \<Rightarrow> (Inr fd, w)
           | (Inr flags, w) \<Rightarrow>
               (case wc_fcntl wc fd F_SETFD (flags OR FD_CLOEXEC) w of
                  (Inl e, w) \<Rightarrow> (Inl (FailedToSetEpollFlags (os_error_of_i32 e)), w)
                | (Inr _, w) \<Rightarrow> (Inr fd, w))))"

definition poller_new :: "'w worker_calls \<Rightarrow> usize \<Rightarrow> 'w \<Rightarrow> (event_poller_error + event_poller) \<times> 'w" where
  "poller_new wc n w =
     (let (r, w) = epoll_create wc w in
      (map_ok (\<lambda>fd. \<lparr>ep_fd = fd, ep_registry = poller_registry_new, ep_buffer_size = n\<rparr>) r, w))"

text \<open>\<open>register_interest\<close> with the poller's descriptor.\<close>

definition poller_register ::
  "'w worker_calls \<Rightarrow> event_poller \<Rightarrow> raw_fd \<Rightarrow> i32 \<Rightarrow> 'w \<Rightarrow> (poller_registry_error + u64) \<times> event_poller \<times> 'w" where
  "poller_register wc p fd interest w =
     (let (r, w) = wc_epoll_ctl wc (ep_fd p) EpollAdd fd (Some (interest, generator (ep_registry p))) w;
          (k, reg) = register_interest (\<lambda>_ _ _. r) fd interest (ep_registry p)
      in (k, p\<lparr>ep_registry := reg\<rparr>, w))"

datatype io_context_error = FailedToCreateContext i32 | FailedToSubmitEntries i32 | FailedToRegisterEventChannel i32

definition io_context_new :: "'w worker_calls \<Rightarrow> u32 \<Rightarrow> 'w \<Rightarrow> (io_context_error + raw_fd \<times> 'st io_context) \<times> 'w" where
  "io_context_new wc entries w =
     (let (r, w) = wc_ring wc entries w in
      (map_err FailedToCreateContext (map_ok (\<lambda>fd. (fd, \<lparr>ctx_queue = [], ctx_in_flight = []\<rparr>)) r), w))"

definition register_event_channel :: "'w worker_calls \<Rightarrow> raw_fd \<Rightarrow> raw_fd \<Rightarrow> 'w \<Rightarrow> (io_context_error + unit) \<times> 'w" where
  "register_event_channel wc ring fd w =
     (let (r, w) = wc_register_eventfd wc ring fd w in (map_err FailedToRegisterEventChannel r, w))"

section \<open>The worker\<close>

datatype worker_initialization_error =
    EventChannelFailed channel_error
  | EventPollerFailed event_poller_error
  | MessageChannelPollerRegistrationError poller_registry_error
  | IoChannelPollerRegistrationError poller_registry_error
  | IoContextCreationError io_context_error
  | IoChannelContextRegistrationError io_context_error

text \<open>A worker with what waits for its thread (\<open>WorkerTempData\<close>).\<close>

record ('f, 'st) created_worker =
  cw_worker :: "('f, 'st) worker"
  cw_message :: raw_fd
  cw_poller :: event_poller
  cw_ring :: raw_fd
  cw_context :: "'st io_context"
  cw_io :: raw_fd
  cw_message_key :: u64
  cw_io_key :: u64

definition POLLER_BUFFER_SIZE :: usize where "POLLER_BUFFER_SIZE = 1024"

text \<open>From the ring on. An error drops, the last first, what was made so far.\<close>

definition worker_create_io ::
  "'w worker_calls \<Rightarrow> nat \<Rightarrow> raw_fd \<Rightarrow> event_poller \<Rightarrow> u64 \<Rightarrow> 'w
    \<Rightarrow> (worker_initialization_error failure + ('f, 'st) created_worker) \<times> 'w" where
  "worker_create_io wc i message poller message_key w =
     (case io_context_new wc 256 w of
        (Inl e, w) \<Rightarrow> (Inl (Fail (IoContextCreationError e)), close_all wc [ep_fd poller, message] w)
      | (Inr (ring, ctx), w) \<Rightarrow>
          (case channel_create wc w of
             (None, w) \<Rightarrow> (Inl Panic, close_all wc [ring, ep_fd poller, message] w)
           | (Some (Inl e), w) \<Rightarrow> (Inl (Fail (EventChannelFailed e)), close_all wc [ring, ep_fd poller, message] w)
           | (Some (Inr io), w) \<Rightarrow>
               (case register_event_channel wc ring io w of
                  (Inl e, w) \<Rightarrow>
                    (Inl (Fail (IoChannelContextRegistrationError e)), close_all wc [io, ring, ep_fd poller, message] w)
                | (Inr _, w) \<Rightarrow>
                    (case poller_register wc poller io INTEREST_READ w of
                       (Inl e, _, w) \<Rightarrow>
                         (Inl (Fail (IoChannelPollerRegistrationError e)), close_all wc [io, ring, ep_fd poller, message] w)
                     | (Inr io_key, poller, w) \<Rightarrow>
                         (Inr \<lparr>cw_worker = worker_new i, cw_message = message, cw_poller = poller, cw_ring = ring,
                           cw_context = ctx, cw_io = io, cw_message_key = message_key, cw_io_key = io_key\<rparr>, w)))))"

definition worker_create ::
  "'w worker_calls \<Rightarrow> nat \<Rightarrow> 'w \<Rightarrow> (worker_initialization_error failure + ('f, 'st) created_worker) \<times> 'w" where
  "worker_create wc i w =
     (case channel_create wc w of
        (None, w) \<Rightarrow> (Inl Panic, w)
      | (Some (Inl e), w) \<Rightarrow> (Inl (Fail (EventChannelFailed e)), w)
      | (Some (Inr message), w) \<Rightarrow>
          (case poller_new wc POLLER_BUFFER_SIZE w of
             (Inl e, w) \<Rightarrow> (Inl (Fail (EventPollerFailed e)), close_all wc [message] w)
           | (Inr poller, w) \<Rightarrow>
               (case poller_register wc poller message INTEREST_READ w of
                  (Inl e, _, w) \<Rightarrow>
                    (Inl (Fail (MessageChannelPollerRegistrationError e)), close_all wc [ep_fd poller, message] w)
                | (Inr message_key, poller, w) \<Rightarrow> worker_create_io wc i message poller message_key w)))"

section \<open>The thread\<close>

datatype worker_runtime_error =
    FailedToBlockSignals nat os_error
  | FailedToRegisterSignalChannel nat poller_registry_error

fun add_signals :: "'w worker_calls \<Rightarrow> signal list \<Rightarrow> i32 list \<Rightarrow> i32 + i32 list" where
  "add_signals wc [] sigs = Inr sigs"
| "add_signals wc (s # ss) sigs =
     (case wc_sigaddset wc (c_int_of_signal s) of
        Inl e \<Rightarrow> Inl e
      | Inr _ \<Rightarrow> add_signals wc ss (sigs @ [c_int_of_signal s]))"

text \<open>\<open>SFD_NONBLOCK | SFD_CLOEXEC\<close>.\<close>

definition signalfd_flags :: i32 where "signalfd_flags = 0x800 OR 0x80000"

definition block_async_signals :: "'w worker_calls \<Rightarrow> nat \<Rightarrow> 'w \<Rightarrow> (os_error + raw_fd) \<times> 'w" where
  "block_async_signals wc thread w =
     (case wc_sigemptyset wc of
        Inl e \<Rightarrow> (Inl (os_error_of_i32 e), w)
      | Inr _ \<Rightarrow>
          (case add_signals wc handleable [] of
             Inl e \<Rightarrow> (Inl (os_error_of_i32 e), w)
           | Inr sigs \<Rightarrow>
               (case wc_sigprocmask wc thread sigs w of
                  (Inl e, w) \<Rightarrow> (Inl (os_error_of_i32 e), w)
                | (Inr _, w) \<Rightarrow>
                    (let (r, w) = wc_signalfd wc (- 1) sigs signalfd_flags w in (map_err os_error_of_i32 r, w)))))"

text \<open>The beginning of \<open>worker_loop\<close>: the signal descriptor and its key. It is a plain number that nothing closes.\<close>

definition signals_begin ::
  "'w worker_calls \<Rightarrow> nat \<Rightarrow> nat \<Rightarrow> event_poller \<Rightarrow> 'w
    \<Rightarrow> (worker_runtime_error + raw_fd \<times> u64) \<times> event_poller \<times> 'w" where
  "signals_begin wc thread i poller w =
     (case block_async_signals wc thread w of
        (Inl e, w) \<Rightarrow> (Inl (FailedToBlockSignals i e), poller, w)
      | (Inr sfd, w) \<Rightarrow>
          (case poller_register wc poller sfd INTEREST_READ w of
             (Inl e, poller, w) \<Rightarrow> (Inl (FailedToRegisterSignalChannel i e), poller, w)
           | (Inr k, poller, w) \<Rightarrow> (Inr (sfd, k), poller, w)))"

section \<open>The pool\<close>

text \<open>\<open>ThreadPool::start\<close> with the creation of its workers: its result, the workers whose threads were started, and
  the world. An error drops the pool and its workers, but not what their threads hold.\<close>

datatype created_start_error =
    CreatedInitError "worker_initialization_error failure"
  | CreatedStartFailed worker_start_error

fun start_created ::
  "'w worker_calls \<Rightarrow> nat list \<Rightarrow> ('f, 'st) created_worker list \<Rightarrow> 'w
    \<Rightarrow> (created_start_error + ('f, 'st) worker list) \<times> ('f, 'st) created_worker list \<times> 'w" where
  "start_created wc [] cws w = (Inr (map cw_worker cws), cws, w)"
| "start_created wc (i # is) cws w =
     (case worker_create wc i w of
        (Inl e, w) \<Rightarrow> (Inl (CreatedInitError e), cws, w)
      | (Inr cw, w) \<Rightarrow>
          (case worker_start (cw_worker cw) of
             (Inl e, _) \<Rightarrow>
               (Inl (CreatedStartFailed e), cws, close_all wc [cw_io cw, cw_ring cw, ep_fd (cw_poller cw), cw_message cw] w)
           | (Inr _, wk) \<Rightarrow> start_created wc is (take i cws @ [cw\<lparr>cw_worker := wk\<rparr>] @ drop i cws) w))"

definition pool_start_created ::
  "'w worker_calls \<Rightarrow> ('f, 'st) pool \<Rightarrow> 'w
    \<Rightarrow> (created_start_error + ('f, 'st) pool) \<times> ('f, 'st) created_worker list \<times> 'w" where
  "pool_start_created wc p w =
     (let (r, cws, w) = start_created wc [0..<unat (n_threads p)] [] w in (map_ok (\<lambda>ws. p\<lparr>workers := ws\<rparr>) r, cws, w))"

section \<open>What the kernel documents\<close>

text \<open>The open descriptors, what each epoll instance watches, and the signals each thread blocks.\<close>

record kernel_view =
  kv_open :: "raw_fd set"
  kv_interest :: "raw_fd \<Rightarrow> raw_fd \<Rightarrow> (u32 \<times> u64) option"
  kv_blocked :: "nat \<Rightarrow> i32 set"

definition opened :: "raw_fd \<Rightarrow> kernel_view \<Rightarrow> kernel_view" where
  "opened fd v = v\<lparr>kv_open := insert fd (kv_open v), kv_interest := (kv_interest v)(fd := \<lambda>_. None)\<rparr>"

definition closed_fd :: "raw_fd \<Rightarrow> kernel_view \<Rightarrow> kernel_view" where
  "closed_fd fd v = v\<lparr>kv_open := kv_open v - {fd}, kv_interest := \<lambda>ep. (kv_interest v ep)(fd := None)\<rparr>"

definition watched :: "raw_fd \<Rightarrow> raw_fd \<Rightarrow> u32 \<times> u64 \<Rightarrow> kernel_view \<Rightarrow> kernel_view" where
  "watched ep fd ev v = v\<lparr>kv_interest := (kv_interest v)(ep := (kv_interest v ep)(fd \<mapsto> ev))\<rparr>"

definition unwatched :: "raw_fd \<Rightarrow> raw_fd \<Rightarrow> kernel_view \<Rightarrow> kernel_view" where
  "unwatched ep fd v = v\<lparr>kv_interest := (kv_interest v)(ep := (kv_interest v ep)(fd := None))\<rparr>"

definition blocked_on :: "nat \<Rightarrow> i32 list \<Rightarrow> kernel_view \<Rightarrow> kernel_view" where
  "blocked_on t sigs v = v\<lparr>kv_blocked := (kv_blocked v)(t := kv_blocked v t \<union> set sigs)\<rparr>"

text \<open>A call that makes a descriptor gives an unused one, or changes nothing.\<close>

definition yields_fd :: "('w \<Rightarrow> kernel_view) \<Rightarrow> 'w \<Rightarrow> (i32 + raw_fd) \<times> 'w \<Rightarrow> bool" where
  "yields_fd kv w r \<longleftrightarrow>
     (case r of
        (Inl _, w') \<Rightarrow> kv w' = kv w
      | (Inr fd, w') \<Rightarrow> 0 \<le>s fd \<and> fd \<notin> kv_open (kv w) \<and> kv w' = opened fd (kv w))"

lemma usable_fd: "0 \<le>s fd \<Longrightarrow> fd \<noteq> INVALID_FD"
  by (auto simp: INVALID_FD_def word_sle_eq)

text \<open>A call that does something gives whether it did it.\<close>

definition takes_effect :: "('w \<Rightarrow> kernel_view) \<Rightarrow> (kernel_view \<Rightarrow> kernel_view) \<Rightarrow> 'w \<Rightarrow> ('e + 'a) \<times> 'w \<Rightarrow> bool" where
  "takes_effect kv f w r \<longleftrightarrow> kv (snd r) = (if is_ok (fst r) then f (kv w) else kv w)"

definition worker_laws :: "'w worker_calls \<Rightarrow> ('w \<Rightarrow> kernel_view) \<Rightarrow> bool" where
  "worker_laws wc kv \<longleftrightarrow>
     (\<forall>n f w. yields_fd kv w (wc_eventfd wc n f w)) \<and>
     (\<forall>f w. yields_fd kv w (wc_epoll_create wc f w)) \<and>
     (\<forall>n w. yields_fd kv w (wc_ring wc n w)) \<and>
     (\<forall>fd sigs f w. yields_fd kv w (wc_signalfd wc fd sigs f w)) \<and>
     (\<forall>fd c a w. kv (snd (wc_fcntl wc fd c a w)) = kv w) \<and>
     (\<forall>r fd w. kv (snd (wc_register_eventfd wc r fd w)) = kv w) \<and>
     (\<forall>ep fd i k w. takes_effect kv (watched ep fd (i, k)) w (wc_epoll_ctl wc ep EpollAdd fd (Some (i, k)) w)) \<and>
     (\<forall>ep fd w. takes_effect kv (unwatched ep fd) w (wc_epoll_ctl wc ep EpollDel fd None w)) \<and>
     (\<forall>t sigs w. takes_effect kv (blocked_on t sigs) w (wc_sigprocmask wc t sigs w)) \<and>
     (\<forall>fd w. kv (wc_close wc fd w) = closed_fd fd (kv w))"

lemma view_sel [simp]:
  "kv_open (opened fd v) = insert fd (kv_open v)" "kv_open (closed_fd fd v) = kv_open v - {fd}"
  "kv_open (watched ep fd ev v) = kv_open v" "kv_open (unwatched ep fd v) = kv_open v" "kv_open (blocked_on t sigs v) = kv_open v"
  "kv_interest (opened fd v) = (kv_interest v)(fd := \<lambda>_. None)"
  "kv_interest (watched ep fd ev v) = (kv_interest v)(ep := (kv_interest v ep)(fd \<mapsto> ev))"
  "kv_interest (unwatched ep fd v) = (kv_interest v)(ep := (kv_interest v ep)(fd := None))"
  "kv_interest (closed_fd fd v) = (\<lambda>ep. (kv_interest v ep)(fd := None))"
  "kv_interest (blocked_on t sigs v) = kv_interest v"
  "kv_blocked (opened fd v) = kv_blocked v" "kv_blocked (closed_fd fd v) = kv_blocked v"
  "kv_blocked (watched ep fd ev v) = kv_blocked v" "kv_blocked (unwatched ep fd v) = kv_blocked v"
  "kv_blocked (blocked_on t sigs v) = (kv_blocked v)(t := kv_blocked v t \<union> set sigs)"
  by (simp_all add: opened_def closed_fd_def watched_def unwatched_def blocked_on_def)

lemma worker_lawsD:
  assumes "worker_laws wc kv"
  shows "yields_fd kv w (wc_eventfd wc n f w)" "yields_fd kv w (wc_epoll_create wc f w)"
    "yields_fd kv w (wc_ring wc n w)" "yields_fd kv w (wc_signalfd wc fd sigs f w)"
    "kv (snd (wc_fcntl wc fd c a w)) = kv w" "kv (snd (wc_register_eventfd wc r fd w)) = kv w"
    "takes_effect kv (watched ep fd (i, k)) w (wc_epoll_ctl wc ep EpollAdd fd (Some (i, k)) w)"
    "takes_effect kv (blocked_on t sigs) w (wc_sigprocmask wc t sigs w)"
    "kv (wc_close wc fd w) = closed_fd fd (kv w)"
    "takes_effect kv (unwatched ep fd) w (wc_epoll_ctl wc ep EpollDel fd None w)"
  using assms by (simp_all add: worker_laws_def)

lemma close_all_view:
  assumes "worker_laws wc kv"
  shows "kv_open (kv (close_all wc fds w)) = kv_open (kv w) - set fds"
    and "kv_blocked (kv (close_all wc fds w)) = kv_blocked (kv w)"
proof -
  have "kv_open (kv (fold (wc_close wc) fds w)) = kv_open (kv w) - set fds \<and>
      kv_blocked (kv (fold (wc_close wc) fds w)) = kv_blocked (kv w)"
    by (induction fds arbitrary: w) (auto simp: worker_lawsD(9) [OF assms])
  then show "kv_open (kv (close_all wc fds w)) = kv_open (kv w) - set fds"
    and "kv_blocked (kv (close_all wc fds w)) = kv_blocked (kv w)" by (simp_all add: close_all_def)
qed

lemma channel_create_view:
  assumes "worker_laws wc kv" "channel_create wc w = (r, w')"
  shows "case r of None \<Rightarrow> False | Some (Inl _) \<Rightarrow> kv w' = kv w
    | Some (Inr fd) \<Rightarrow> 0 \<le>s fd \<and> fd \<notin> kv_open (kv w) \<and> kv w' = opened fd (kv w)"
  using assms(2) worker_lawsD(1) [OF assms(1), of w 0 "CHANNEL_NONBLOCK OR CHANNEL_CLOEXEC"]
  by (auto simp: channel_create_def channel_new_def channel_with_flags_def owned_new_def yields_fd_def Let_def
      dest: usable_fd split: prod.splits sum.splits if_splits)

lemma poller_new_view:
  assumes "worker_laws wc kv" "poller_new wc n w = (r, w')"
  shows "case r of
      Inl (FailedToCreateEpollFd _) \<Rightarrow> kv w' = kv w
    | Inl (FailedToSetEpollFlags _) \<Rightarrow> \<exists>fd. fd \<notin> kv_open (kv w) \<and> kv w' = opened fd (kv w)
    | Inr p \<Rightarrow> ep_fd p \<notin> kv_open (kv w) \<and> kv w' = opened (ep_fd p) (kv w) \<and> ep_registry p = poller_registry_new"
proof -
  obtain x w1 where 1: "wc_epoll_create wc 0 w = (x, w1)" by fastforce
  have f: "kv w'' = kv w'" if "wc_fcntl wc fd c a w' = (y, w'')" for fd c a y w' w''
    using worker_lawsD(5) [OF assms(1), of fd c a w'] that by simp
  show ?thesis
    using assms(2) 1 worker_lawsD(2) [OF assms(1), of w 0]
    by (auto simp: poller_new_def epoll_create_def yields_fd_def Let_def dest!: f split: prod.splits sum.splits) blast
qed

lemma poller_register_view:
  assumes "worker_laws wc kv" "poller_register wc p fd interest w = (r, q, w')"
  shows "ep_fd q = ep_fd p \<and> generator (ep_registry q) = generator (ep_registry p) + 1 \<and>
    (case r of
       Inl _ \<Rightarrow> kv w' = kv w \<and> key_fds (ep_registry q) = key_fds (ep_registry p)
     | Inr k \<Rightarrow> k = generator (ep_registry p) \<and> kv w' = watched (ep_fd p) fd (interest, k) (kv w) \<and>
         map_of (key_fds (ep_registry q)) = (map_of (key_fds (ep_registry p)))(k \<mapsto> fd))"
proof -
  let ?ev = "(interest, generator (ep_registry p))"
  obtain x w1 where 1: "wc_epoll_ctl wc (ep_fd p) EpollAdd fd (Some ?ev) w = (x, w1)" by fastforce
  show ?thesis
    using assms(2) 1 worker_lawsD(7) [OF assms(1), of "ep_fd p" fd interest "generator (ep_registry p)" w]
    by (cases x) (auto simp: poller_register_def register_interest_def takes_effect_def Let_def update_conv')
qed

lemma io_context_new_view:
  assumes "worker_laws wc kv" "io_context_new wc n w = (r, w')"
  shows "case r of Inl _ \<Rightarrow> kv w' = kv w
    | Inr (fd, _) \<Rightarrow> fd \<notin> kv_open (kv w) \<and> kv w' = opened fd (kv w)"
  using assms(2) worker_lawsD(3) [OF assms(1), of w n]
  by (auto simp: io_context_new_def yields_fd_def Let_def split: prod.splits sum.splits)

lemma register_event_channel_view:
  assumes "worker_laws wc kv" "register_event_channel wc ring fd w = (r, w')"
  shows "kv w' = kv w"
  using assms(2) worker_lawsD(6) [OF assms(1), of ring fd w]
  by (auto simp: register_event_channel_def Let_def split: prod.splits)

text \<open>From the ring on, what was open before the worker's creation apart from its message channel and poller.\<close>

lemma worker_create_io_view:
  assumes laws: "worker_laws wc kv" and c: "worker_create_io wc i message poller mk w = (r :: _ + ('f, 'st) created_worker, w')"
    and "message \<in> kv_open (kv w)" "ep_fd poller \<in> kv_open (kv w)"
  shows "kv_blocked (kv w') = kv_blocked (kv w) \<and>
   (case r of
      Inl e \<Rightarrow> kv_open (kv w') = kv_open (kv w) - {ep_fd poller, message} \<and> (\<forall>x. e \<noteq> Fail (EventPollerFailed x))
    | Inr cw \<Rightarrow>
        let p = cw_poller cw in
        cw_message cw = message \<and> ep_fd p = ep_fd poller \<and> cw_message_key cw = mk \<and> cw_worker cw = worker_new i \<and>
        cw_io_key cw = generator (ep_registry poller) \<and> generator (ep_registry p) = generator (ep_registry poller) + 1 \<and>
        map_of (key_fds (ep_registry p)) = (map_of (key_fds (ep_registry poller)))(cw_io_key cw \<mapsto> cw_io cw) \<and>
        cw_ring cw \<notin> kv_open (kv w) \<and> cw_io cw \<notin> kv_open (kv w) \<and> cw_ring cw \<noteq> cw_io cw \<and>
        kv w' = watched (ep_fd p) (cw_io cw) (INTEREST_READ, cw_io_key cw) (opened (cw_io cw) (opened (cw_ring cw) (kv w))))"
proof -
  obtain x1 w1 where 1: "io_context_new wc 256 w = (x1 :: io_context_error + raw_fd \<times> 'st io_context, w1)" by fastforce
  note k1 = io_context_new_view [OF laws 1]
  note cl = close_all_view [OF laws]
  show ?thesis
  proof (cases x1)
    case (Inl e)
    with c 1 k1 show ?thesis by (auto simp: worker_create_io_def cl)
  next
    case (Inr rc)
    obtain ring ctx where rc: "rc = (ring, ctx)" by fastforce
    obtain x2 w2 where 2: "channel_create wc w1 = (x2, w2)" by fastforce
    note k2 = channel_create_view [OF laws 2]
    then consider (fail) e where "x2 = Some (Inl e)" | (io) io where "x2 = Some (Inr io)"
      by (auto split: option.splits sum.splits)
    then show ?thesis
    proof cases
      case fail
      with c 1 2 k1 k2 Inr rc show ?thesis by (auto simp: worker_create_io_def cl)
    next
      case io
      obtain x3 w3 where 3: "register_event_channel wc ring io w2 = (x3, w3)" by fastforce
      note k3 = register_event_channel_view [OF laws 3]
      obtain x4 q w4 where 4: "poller_register wc poller io INTEREST_READ w3 = (x4, q, w4)" by (cases "poller_register wc poller io INTEREST_READ w3")
      note k4 = poller_register_view [OF laws 4]
      show ?thesis
        using c 1 2 3 4 k1 k2 k3 k4 Inr rc io assms(3,4)
        by (cases x3; cases x4) (auto simp: worker_create_io_def cl Let_def)
    qed
  qed
qed

text \<open>A worker over the descriptors there were: four new ones, and the poller watches the two channels under the keys
  the worker keeps, which are those of its registry.\<close>

definition worker_fds :: "('f, 'st) created_worker \<Rightarrow> raw_fd list" where
  "worker_fds cw = [cw_message cw, ep_fd (cw_poller cw), cw_ring cw, cw_io cw]"

definition wired :: "kernel_view \<Rightarrow> kernel_view \<Rightarrow> ('f, 'st) created_worker \<Rightarrow> bool" where
  "wired v0 v cw \<longleftrightarrow>
     distinct (worker_fds cw) \<and> set (worker_fds cw) \<inter> kv_open v0 = {} \<and> kv_open v = kv_open v0 \<union> set (worker_fds cw) \<and>
     cw_message_key cw = 100 \<and> cw_io_key cw = 101 \<and> generator (ep_registry (cw_poller cw)) = 102 \<and>
     map_of (key_fds (ep_registry (cw_poller cw))) = [100 \<mapsto> cw_message cw, 101 \<mapsto> cw_io cw] \<and>
     kv_interest v (ep_fd (cw_poller cw)) =
       [cw_message cw \<mapsto> (INTEREST_READ, 100), cw_io cw \<mapsto> (INTEREST_READ, 101)]"

lemma worker_create_view:
  assumes laws: "worker_laws wc kv" and c: "worker_create wc i w = (r :: _ + ('f, 'st) created_worker, w')"
  shows "kv_blocked (kv w') = kv_blocked (kv w) \<and>
   (case r of
      Inl (Fail (EventPollerFailed (FailedToSetEpollFlags _))) \<Rightarrow>
        \<exists>fd. fd \<notin> kv_open (kv w) \<and> kv_open (kv w') = insert fd (kv_open (kv w))
    | Inl _ \<Rightarrow> kv_open (kv w') = kv_open (kv w)
    | Inr cw \<Rightarrow> wired (kv w) (kv w') cw \<and> cw_worker cw = worker_new i)"
proof -
  obtain x1 w1 where 1: "channel_create wc w = (x1, w1)" by fastforce
  note k1 = channel_create_view [OF laws 1]
  then consider (fail) e where "x1 = Some (Inl e)" | (message) m where "x1 = Some (Inr m)"
    by (auto split: option.splits sum.splits)
  then show ?thesis
  proof cases
    case fail
    with c 1 k1 show ?thesis by (auto simp: worker_create_def)
  next
    case message
    obtain x2 w2 where 2: "poller_new wc POLLER_BUFFER_SIZE w1 = (x2, w2)" by fastforce
    note k2 = poller_new_view [OF laws 2]
    show ?thesis
    proof (cases x2)
      case (Inl e)
      with c 1 2 k1 k2 message show ?thesis
        by (cases e) (auto simp: worker_create_def close_all_view [OF laws])
    next
      case (Inr p)
      obtain x3 q w3 where 3: "poller_register wc p m INTEREST_READ w2 = (x3, q, w3)"
        by (cases "poller_register wc p m INTEREST_READ w2")
      note k3 = poller_register_view [OF laws 3]
      show ?thesis
      proof (cases x3)
        case Inl
        with c 1 2 3 k1 k2 k3 message Inr show ?thesis
          by (auto simp: worker_create_def close_all_view [OF laws])
      next
        case (Inr mk)
        then have io: "worker_create_io wc i m q mk w3 = (r, w')"
          using c 1 2 3 message \<open>x2 = Inr p\<close> by (simp add: worker_create_def)
        have "m \<in> kv_open (kv w3)" "ep_fd q \<in> kv_open (kv w3)"
          using k1 k2 k3 message Inr \<open>x2 = Inr p\<close> by auto
        from worker_create_io_view [OF laws io this] show ?thesis
          using k1 k2 k3 message Inr \<open>x2 = Inr p\<close>
          by (auto simp: Let_def wired_def worker_fds_def poller_registry_new_def fun_eq_iff
              split: sum.splits failure.splits worker_initialization_error.splits)
      qed
    qed
  qed
qed

lemma add_signals_mask: "add_signals wc ss sigs = Inr sigs' \<Longrightarrow> sigs' = sigs @ map c_int_of_signal ss"
  by (induction ss arbitrary: sigs) (fastforce split: sum.splits)+

abbreviation handled_signals :: "i32 list" where "handled_signals \<equiv> map c_int_of_signal handleable"

lemma block_async_signals_view:
  assumes "worker_laws wc kv" "block_async_signals wc t w = (r, w')"
  shows "(\<forall>t'. t' \<noteq> t \<longrightarrow> kv_blocked (kv w') t' = kv_blocked (kv w) t') \<and>
    (case r of
       Inl _ \<Rightarrow> kv_open (kv w') = kv_open (kv w) \<and> kv_interest (kv w') = kv_interest (kv w)
     | Inr fd \<Rightarrow> fd \<notin> kv_open (kv w) \<and> kv w' = opened fd (blocked_on t handled_signals (kv w)))"
proof (cases "wc_sigemptyset wc")
  case (Inr u)
  show ?thesis
  proof (cases "add_signals wc handleable []")
    case (Inr sigs)
    then have sigs: "sigs = handled_signals" using add_signals_mask by fastforce
    obtain x w1 where 1: "wc_sigprocmask wc t sigs w = (x, w1)" by fastforce
    obtain y w2 where 2: "wc_signalfd wc (- 1) sigs signalfd_flags w1 = (y, w2)" by fastforce
    show ?thesis
      using assms(2) 1 2 Inr \<open>wc_sigemptyset wc = Inr u\<close> worker_lawsD(8) [OF assms(1), of t sigs w]
        worker_lawsD(4) [OF assms(1), of w1 "- 1" sigs signalfd_flags]
      by (cases x; cases y) (auto simp: block_async_signals_def takes_effect_def yields_fd_def sigs)
  qed (use assms(2) Inr in \<open>auto simp: block_async_signals_def\<close>)
qed (use assms(2) in \<open>auto simp: block_async_signals_def\<close>)

lemma signals_begin_view:
  assumes "worker_laws wc kv" "signals_begin wc t i p w = (r, q, w')"
  shows "ep_fd q = ep_fd p \<and> (\<forall>t'. t' \<noteq> t \<longrightarrow> kv_blocked (kv w') t' = kv_blocked (kv w) t') \<and>
    (case r of
       Inl (FailedToBlockSignals _ _) \<Rightarrow> kv_open (kv w') = kv_open (kv w)
     | Inl (FailedToRegisterSignalChannel _ _) \<Rightarrow>
         \<exists>fd. fd \<notin> kv_open (kv w) \<and> kv_open (kv w') = insert fd (kv_open (kv w))
     | Inr (fd, k) \<Rightarrow> fd \<notin> kv_open (kv w) \<and> k = generator (ep_registry p) \<and>
         kv w' = watched (ep_fd p) fd (INTEREST_READ, k) (opened fd (blocked_on t handled_signals (kv w))))"
proof -
  obtain x w1 where 1: "block_async_signals wc t w = (x, w1)" by fastforce
  note k1 = block_async_signals_view [OF assms(1) 1]
  show ?thesis
  proof (cases x)
    case Inl
    with assms(2) 1 k1 show ?thesis by (auto simp: signals_begin_def)
  next
    case (Inr fd)
    obtain y p' w2 where 2: "poller_register wc p fd INTEREST_READ w1 = (y, p', w2)"
      by (cases "poller_register wc p fd INTEREST_READ w1")
    note k2 = poller_register_view [OF assms(1) 2]
    show ?thesis using assms(2) 1 2 k1 k2 Inr by (cases y) (auto simp: signals_begin_def)
  qed
qed

section \<open>Properties\<close>

text \<open>C24. A worker that cannot be created leaves nothing behind, whichever of its calls fails, with one exception: a
  poller whose close-on-exec flag cannot be set is left open.\<close>

theorem failed_creation_closes:
  assumes "worker_laws wc kv"
    "worker_create wc i w = (Inl e :: worker_initialization_error failure + ('f, 'st) created_worker, w')"
  shows "(if \<exists>x. e = Fail (EventPollerFailed (FailedToSetEpollFlags x))
      then \<exists>fd. fd \<notin> kv_open (kv w) \<and> kv_open (kv w') = insert fd (kv_open (kv w))
      else kv_open (kv w') = kv_open (kv w)) \<and>
    kv_blocked (kv w') = kv_blocked (kv w)"
  using worker_create_view [OF assms]
  by (auto split: failure.splits worker_initialization_error.splits event_poller_error.splits)

text \<open>C18. A worker whose creation and whose thread's beginning succeed is wired as its loop relies on: it owns five new,
  distinct descriptors, its poller watches exactly the message channel, the ring's channel and the signals, each for
  reading and under the key the loop compares with, and these three keys are distinct; the thread blocks the signals
  it reads, and no other thread blocks any it did not block before.\<close>

theorem worker_wired:
  assumes "worker_laws wc kv" "worker_create wc i w = (Inr (cw :: ('f, 'st) created_worker), w1)"
    "signals_begin wc t i (cw_poller cw) w1 = (Inr (sfd, k), q, w2)"
  shows "distinct (sfd # worker_fds cw) \<and> set (sfd # worker_fds cw) \<inter> kv_open (kv w) = {} \<and>
    kv_open (kv w2) = kv_open (kv w) \<union> set (sfd # worker_fds cw) \<and>
    kv_interest (kv w2) (ep_fd q) =
      [cw_message cw \<mapsto> (INTEREST_READ, cw_message_key cw), cw_io cw \<mapsto> (INTEREST_READ, cw_io_key cw),
       sfd \<mapsto> (INTEREST_READ, k)] \<and>
    distinct [cw_message_key cw, cw_io_key cw, k] \<and>
    set handled_signals \<subseteq> kv_blocked (kv w2) t \<and> (\<forall>t'. t' \<noteq> t \<longrightarrow> kv_blocked (kv w2) t' = kv_blocked (kv w) t')"
proof -
  note k1 = worker_create_view [OF assms(1,2), simplified]
  note k2 = signals_begin_view [OF assms(1,3), simplified]
  have "ep_fd (cw_poller cw) \<in> kv_open (kv w1)" "sfd \<notin> kv_open (kv w1)" "ep_fd q = ep_fd (cw_poller cw)"
    using k1 k2 by (auto simp: wired_def worker_fds_def)
  then have "kv_interest (kv w2) (ep_fd q) = (kv_interest (kv w1) (ep_fd (cw_poller cw)))(sfd \<mapsto> (INTEREST_READ, k))"
    using k2 by auto
  moreover have "sfd # worker_fds cw = sfd # worker_fds cw \<and> distinct (sfd # worker_fds cw)"
    using k1 k2 by (auto simp: wired_def)
  ultimately show ?thesis using k1 k2 by (auto simp: wired_def)
qed

text \<open>The pool's start, with its workers' creation forgotten.\<close>

fun forget_cause :: "created_start_error \<Rightarrow> pool_start_error" where
  "forget_cause (CreatedInitError e) = WorkerInitError"
| "forget_cause (CreatedStartFailed e) = WorkerStartFailed e"

lemma start_workers_cong:
  "(\<And>i. i \<in> set is \<Longrightarrow> create i = create' i) \<Longrightarrow> start_workers create is ws = start_workers create' is ws"
  by (induction "is" arbitrary: ws) (auto split: sum.splits prod.splits)

lemma start_created_refines:
  fixes cws :: "('f, 'st) created_worker list"
  assumes "worker_laws wc kv" "distinct is"
  shows "\<exists>create. map_err forget_cause (fst (start_created wc is cws w)) = start_workers create is (map cw_worker cws)"
  using assms(2)
proof (induction "is" arbitrary: cws w)
  case (Cons i "is")
  obtain r w1 where 1: "worker_create wc i w = (r :: _ + ('f, 'st) created_worker, w1)" by fastforce
  show ?case
  proof (cases r)
    case (Inl e)
    with 1 have "map_err forget_cause (fst (start_created wc (i # is) cws w)) =
        start_workers (\<lambda>_. False) (i # is) (map cw_worker cws)" by simp
    then show ?thesis by (rule exI [of _ "\<lambda>_. False"])
  next
    case (Inr cw)
    with worker_create_view [OF assms(1) 1] have n: "cw_worker cw = worker_new i" by simp
    obtain x wk where s: "worker_start (worker_new i :: ('f, 'st) worker) = (x, wk)" by fastforce
    obtain create where c: "map_err forget_cause (fst (start_created wc is
        (take i cws @ [cw\<lparr>cw_worker := wk\<rparr>] @ drop i cws) w1)) =
        start_workers create is (map cw_worker (take i cws @ [cw\<lparr>cw_worker := wk\<rparr>] @ drop i cws))"
      using Cons by (metis distinct.simps(2))
    have "start_workers create is ws = start_workers (create(i := True)) is ws" for ws :: "('f, 'st) worker list"
      using Cons.prems by (intro start_workers_cong) auto
    with 1 Inr n s c have "map_err forget_cause (fst (start_created wc (i # is) cws w)) =
        start_workers (create(i := True)) (i # is) (map cw_worker cws)"
      by (cases x) (simp_all add: take_map drop_map)
    then show ?thesis by (rule exI [of _ "create(i := True)"])
  qed
qed simp

text \<open>The pool's start with its workers' channels, pollers and rings implements the start in which whether a worker
  can be created is a choice: whatever the kernel grants or refuses, there is a choice with the same outcome.\<close>

theorem pool_creation_refines:
  assumes "worker_laws wc kv"
  shows "\<exists>create. map_err forget_cause (fst (pool_start_created wc (pool_new n c) w)) =
    pool_start create (pool_new n c :: ('f, 'st) pool)"
proof -
  let ?is = "[0..<unat n]"
  obtain create where "map_err forget_cause (fst (start_created wc ?is [] w)) =
      start_workers create ?is (map cw_worker ([] :: ('f, 'st) created_worker list))"
    using start_created_refines [OF assms, of ?is "[]" w] by auto
  then have "map_err forget_cause (fst (pool_start_created wc (pool_new n c) w)) =
      pool_start create (pool_new n c :: ('f, 'st) pool)"
    by (auto simp: pool_start_created_def pool_start_def pool_new_def Let_def case_prod_beta map_err_def map_ok_def split: sum.splits)
  then show ?thesis by blast
qed

text \<open>The descriptors of workers that were started, all of them open, new and distinct.\<close>

definition hold :: "kernel_view \<Rightarrow> kernel_view \<Rightarrow> ('f, 'st) created_worker list \<Rightarrow> bool" where
  "hold v0 v cws \<longleftrightarrow>
     distinct (concat (map worker_fds cws)) \<and> set (concat (map worker_fds cws)) \<inter> kv_open v0 = {} \<and>
     kv_open v0 \<union> set (concat (map worker_fds cws)) \<subseteq> kv_open v \<and>
     (\<forall>cw \<in> set cws. wk_state (cw_worker cw) = Starting \<and> wk_join_handle (cw_worker cw))"

lemma hold_next:
  assumes "hold v0 v cws" "wired v v' cw" "wk_state wk = Starting" "wk_join_handle wk"
  shows "hold v0 v' (cws @ [cw\<lparr>cw_worker := wk\<rparr>])"
proof -
  have "worker_fds (cw\<lparr>cw_worker := wk\<rparr>) = worker_fds cw" by (simp add: worker_fds_def)
  moreover have "distinct (worker_fds cw)" "set (worker_fds cw) \<inter> kv_open v = {}"
    "kv_open v' = kv_open v \<union> set (worker_fds cw)"
    using assms(2) by (simp_all add: wired_def)
  ultimately show ?thesis using assms(1,3,4) by (auto simp: hold_def)
qed

text \<open>The workers \<open>i\<close> and on, \<open>k\<close> of them, created one after another; \<open>None\<close> when one of them cannot be.\<close>

fun creations ::
  "'w worker_calls \<Rightarrow> nat \<Rightarrow> nat \<Rightarrow> 'w \<Rightarrow> (('f, 'st) created_worker list \<times> 'w) option" where
  "creations wc i 0 w = Some ([], w)"
| "creations wc i (Suc k) w =
     (case worker_create wc i w of
        (Inl _, _) \<Rightarrow> None
      | (Inr cw, w) \<Rightarrow> map_option (\<lambda>(cws, w). (cw # cws, w)) (creations wc (Suc i) k w))"

definition with_thread :: "('f, 'st) created_worker \<Rightarrow> ('f, 'st) created_worker" where
  "with_thread cw = cw\<lparr>cw_worker := snd (worker_start (cw_worker cw))\<rparr>"

lemma start_created_hold:
  fixes cws :: "('f, 'st) created_worker list"
  assumes "worker_laws wc kv" "start_created wc [length cws..<n] cws w = (r, cws', w')" "hold v0 (kv w) cws"
  shows "hold v0 (kv w') cws' \<and>
    (\<forall>e. r = Inl e \<longrightarrow> (\<exists>k made w1 cause. length cws + k < n \<and> creations wc (length cws) k w = Some (made, w1) \<and>
       cws' = cws @ map with_thread made \<and>
       worker_create wc (length cws + k) w1 = (Inl cause :: _ + ('f, 'st) created_worker, w') \<and>
       e = CreatedInitError cause))"
  using assms(2,3)
proof (induction "n - length cws" arbitrary: cws w)
  case (Suc m)
  let ?i = "length cws"
  have up: "[?i..<n] = ?i # [Suc ?i..<n]" using Suc.hyps(2) by (simp add: upt_conv_Cons)
  obtain x w1 where 1: "worker_create wc ?i w = (x :: _ + ('f, 'st) created_worker, w1)" by fastforce
  note k1 = worker_create_view [OF assms(1) 1]
  have keep: "hold v0 (kv w1) cws" if "x = Inl e" for e
    using k1 that Suc.prems(2)
    by (auto simp: hold_def split: failure.splits worker_initialization_error.splits event_poller_error.splits)
  show ?case
  proof (cases x)
    case (Inl cause)
    then have "r = Inl (CreatedInitError cause)" "cws' = cws" "w' = w1" using 1 Suc.prems(1) by (simp_all add: up)
    moreover have "?i + 0 < n" using Suc.hyps(2) by simp
    ultimately show ?thesis using keep [OF Inl] 1 Inl
      by (intro conjI) (auto intro!: exI [of _ "0 :: nat"])
  next
    case (Inr cw)
    then have cw: "wired (kv w) (kv w1) cw" "cw_worker cw = worker_new ?i" using k1 by simp_all
    obtain wk where wk: "worker_start (cw_worker cw) = (Inr (), wk)" "wk_state wk = Starting" "wk_join_handle wk"
      by (simp add: cw(2) worker_new_def worker_start_def)
    let ?cws = "cws @ [cw\<lparr>cw_worker := wk\<rparr>]"
    have t: "with_thread cw = cw\<lparr>cw_worker := wk\<rparr>" by (simp add: with_thread_def wk(1))
    have "start_created wc [length ?cws..<n] ?cws w1 = (r, cws', w')"
      using Suc.prems(1) 1 Inr wk(1) by (simp add: up)
    moreover have "m = n - length ?cws" using Suc.hyps(2) by simp
    ultimately have IH: "hold v0 (kv w') cws' \<and>
      (\<forall>e. r = Inl e \<longrightarrow> (\<exists>k made w2 cause. length ?cws + k < n \<and> creations wc (length ?cws) k w1 = Some (made, w2) \<and>
         cws' = ?cws @ map with_thread made \<and>
         worker_create wc (length ?cws + k) w2 = (Inl cause :: _ + ('f, 'st) created_worker, w') \<and>
         e = CreatedInitError cause))"
      using Suc.hyps(1) hold_next [OF Suc.prems(2) cw(1) wk(2,3)] by blast
    have "\<exists>k made w1 cause. ?i + k < n \<and> creations wc ?i k w = Some (made, w1) \<and> cws' = cws @ map with_thread made \<and>
        worker_create wc (?i + k) w1 = (Inl cause :: _ + ('f, 'st) created_worker, w') \<and> e = CreatedInitError cause"
      if "r = Inl e" for e
    proof -
      from IH that obtain k made w2 cause where "length ?cws + k < n" "creations wc (length ?cws) k w1 = Some (made, w2)"
        "cws' = ?cws @ map with_thread made"
        "worker_create wc (length ?cws + k) w2 = (Inl cause :: _ + ('f, 'st) created_worker, w')" "e = CreatedInitError cause"
        by blast
      with 1 Inr t show ?thesis
        by (intro exI [of _ "Suc k"] exI [of _ "cw # made"] exI [of _ w2] exI [of _ cause]) simp
    qed
    with IH show ?thesis by blast
  qed
qed auto

text \<open>C26. A pool that cannot be started strands the workers it started. The start fails only because some worker \<open>k\<close>
  cannot be created; by then the threads of exactly the workers before it were started, those that the \<open>k\<close> creations
  before it gave, and nothing takes them back: their descriptors are distinct, new and still open when the start
  returns, and the error that names the cause of worker \<open>k\<close> is all that the caller gets.\<close>

theorem failed_start_strands_workers:
  assumes "worker_laws wc kv"
    "pool_start_created wc (pool_new n c :: ('f, 'st) pool) w = (Inl e, cws, w')"
  shows "\<exists>k made w1 cause. k < unat n \<and> creations wc 0 k w = Some (made, w1) \<and> cws = map with_thread made \<and>
      worker_create wc k w1 = (Inl cause :: _ + ('f, 'st) created_worker, w') \<and> e = CreatedInitError cause \<and>
      length made = k \<and> (\<forall>cw \<in> set cws. wk_state (cw_worker cw) = Starting \<and> wk_join_handle (cw_worker cw)) \<and>
      distinct (concat (map worker_fds cws)) \<and> set (concat (map worker_fds cws)) \<inter> kv_open (kv w) = {} \<and>
      set (concat (map worker_fds cws)) \<subseteq> kv_open (kv w')"
proof -
  obtain r where r: "start_created wc [0..<unat n] [] w = (r, cws, w')" "r = Inl e"
    using assms(2) by (auto simp: pool_start_created_def pool_new_def Let_def case_prod_beta prod_eq_iff map_ok_def split: sum.splits)
  have "hold (kv w) (kv w) ([] :: ('f, 'st) created_worker list)" by (simp add: hold_def)
  with start_created_hold [OF assms(1), of "[]" "unat n" w r cws w' "kv w"] r have h: "hold (kv w) (kv w') cws"
    and "\<exists>k made w1 cause. k < unat n \<and> creations wc 0 k w = Some (made, w1) \<and> cws = map with_thread made \<and>
      worker_create wc k w1 = (Inl cause :: _ + ('f, 'st) created_worker, w') \<and> e = CreatedInitError cause"
    by simp_all
  then obtain k made w1 cause where k: "k < unat n" "creations wc 0 k w = Some (made, w1)" "cws = map with_thread made"
    "worker_create wc k w1 = (Inl cause :: _ + ('f, 'st) created_worker, w')" "e = CreatedInitError cause" by blast
  have "creations wc i k w = Some (made, w1) \<Longrightarrow> length made = k" for i w and made :: "('f, 'st) created_worker list"
    by (induction k arbitrary: i w made) (auto split: prod.splits sum.splits)
  with k have "length made = k" by blast
  with h k show ?thesis
    unfolding hold_def by (intro exI [of _ k] exI [of _ made] exI [of _ w1] exI [of _ cause]) simp
qed

section \<open>A kernel\<close>

text \<open>A kernel that gives the least free descriptor from 3 on, of eight, whose \<open>epoll\<close> takes the descriptors it is told
  to, and whose \<open>fcntl\<close> works or fails.\<close>

definition least_fd :: "kernel_view \<Rightarrow> (i32 + raw_fd) \<times> kernel_view" where
  "least_fd v =
     (case find (\<lambda>fd. fd \<notin> kv_open v) [3, 4, 5, 6, 7, 8, 9, 10] of
        None \<Rightarrow> (Inl 24, v)
      | Some fd \<Rightarrow> (Inr fd, opened fd v))"

definition small_kernel :: "(raw_fd \<Rightarrow> bool) \<Rightarrow> bool \<Rightarrow> kernel_view worker_calls" where
  "small_kernel takes flags =
     \<lparr>wc_eventfd = \<lambda>_ _. least_fd, wc_epoll_create = \<lambda>_. least_fd,
      wc_fcntl = \<lambda>_ _ _ v. (if flags then Inr 0 else Inl 9, v),
      wc_epoll_ctl = \<lambda>ep op fd ev v.
        (case ev of
           Some (i, k) \<Rightarrow> if takes fd then (Inr (), watched ep fd (i, k) v) else (Inl PermissionDenied, v)
         | None \<Rightarrow> (Inr (), unwatched ep fd v)),
      wc_ring = \<lambda>_. least_fd, wc_register_eventfd = \<lambda>_ _ v. (Inr (), v), wc_sigemptyset = Inr (),
      wc_sigaddset = \<lambda>_. Inr (), wc_sigprocmask = \<lambda>t sigs v. (Inr (), blocked_on t sigs v),
      wc_signalfd = \<lambda>_ _ _. least_fd, wc_close = closed_fd\<rparr>"

lemma small_kernel_laws: "worker_laws (small_kernel takes flags) id"
proof -
  have "\<forall>fd \<in> set [3, 4, 5, 6, 7, 8, 9, 10 :: raw_fd]. 0 \<le>s fd" by (simp add: word_sle_eq)
  then have "yields_fd id w (least_fd w)" for w
    by (auto simp: yields_fd_def least_fd_def find_Some_iff nth_mem simp del: set_simps find.simps split: option.split)
  then show ?thesis by (simp add: worker_laws_def small_kernel_def takes_effect_def)
qed

definition boot :: kernel_view where
  "boot = \<lparr>kv_open = {0, 1, 2}, kv_interest = \<lambda>_ _. None, kv_blocked = \<lambda>_. {}\<rparr>"

lemma boot_sel [simp]: "kv_open boot = {0, 1, 2}" by (simp add: boot_def)

lemmas small_kernel_defs = worker_create_def channel_create_def channel_new_def channel_with_flags_def owned_new_def
  INVALID_FD_def small_kernel_def least_fd_def poller_new_def epoll_create_def poller_register_def register_interest_def
  poller_registry_new_def worker_create_io_def io_context_new_def register_event_channel_def close_all_def Let_def

theorem failed_creation_closes_witness:
  "\<exists>v. worker_create (small_kernel (\<lambda>fd. fd = 3) True) 0 boot =
     (Inl (Fail (IoChannelPollerRegistrationError (FailedToRegisterInterest PermissionDenied)))
        :: worker_initialization_error failure + (unit, unit) created_worker, v) \<and> kv_open v = {0, 1, 2}"
proof -
  obtain v where v: "worker_create (small_kernel (\<lambda>fd. fd = 3) True) 0 boot =
     (Inl (Fail (IoChannelPollerRegistrationError (FailedToRegisterInterest PermissionDenied)))
        :: worker_initialization_error failure + (unit, unit) created_worker, v)"
    by (simp add: small_kernel_defs)
  with failed_creation_closes [OF small_kernel_laws v] show ?thesis by simp
qed

theorem worker_wired_witness:
  "\<exists>cw q v. worker_create (small_kernel (\<lambda>_. True) True) 0 boot = (Inr (cw :: (unit, unit) created_worker), v) \<and>
     (\<exists>v'. signals_begin (small_kernel (\<lambda>_. True) True) 1 0 (cw_poller cw) v = (Inr (7, 102), q, v') \<and>
       kv_interest v' 4 = [3 \<mapsto> (INTEREST_READ, 100), 6 \<mapsto> (INTEREST_READ, 101), 7 \<mapsto> (INTEREST_READ, 102)] \<and>
       kv_blocked v' 0 = {})"
proof -
  let ?wc = "small_kernel (\<lambda>_. True) True"
  have handled: "\<exists>sigs. add_signals ?wc ss sigs0 = Inr sigs" for ss sigs0
    by (induction ss arbitrary: sigs0) (auto simp: small_kernel_def)
  then obtain sigs where sigs: "add_signals ?wc handleable [] = Inr sigs" by blast
  obtain cw v where cw: "worker_create ?wc 0 boot = (Inr (cw :: (unit, unit) created_worker), v)"
    "cw_message cw = 3" "cw_io cw = 6" "cw_message_key cw = 100" "cw_io_key cw = 101"
    "ep_fd (cw_poller cw) = 4" "generator (ep_registry (cw_poller cw)) = 102" "kv_open v = {6, 5, 4, 3, 0, 1, 2}"
    by (simp add: small_kernel_defs)
  obtain q v' where s: "signals_begin ?wc 1 0 (cw_poller cw) v = (Inr (7, 102), q, v')" "ep_fd q = 4"
    using cw(6-8) sigs
    by (simp add: signals_begin_def block_async_signals_def small_kernel_defs)
  from worker_wired [OF small_kernel_laws cw(1) s(1)] s cw show ?thesis by (auto simp: boot_def)
qed

theorem pool_creation_refines_witness:
  "\<exists>create. map_err forget_cause (fst (pool_start_created (small_kernel (\<lambda>fd. fd \<noteq> 7) True) (pool_new 2 0) boot)) =
    pool_start create (pool_new 2 0 :: (unit, unit) pool)"
  by (rule pool_creation_refines [OF small_kernel_laws])

theorem failed_start_strands_workers_witness:
  "\<exists>e cw v. pool_start_created (small_kernel (\<lambda>fd. fd \<noteq> 7) True) (pool_new 2 0 :: (unit, unit) pool) boot =
     (Inl e, [cw], v) \<and> worker_fds cw = [3, 4, 5, 6] \<and> {3, 4, 5, 6} \<subseteq> kv_open v \<and> wk_state (cw_worker cw) = Starting"
proof -
  let ?wc = "small_kernel (\<lambda>fd. fd \<noteq> 7) True"
  have two: "[0..<2] = [0, 1 :: nat]" by (simp add: upt_rec)
  obtain e cw v where r: "pool_start_created ?wc (pool_new 2 0 :: (unit, unit) pool) boot = (Inl e, [cw], v)"
    "worker_fds cw = [3, 4, 5, 6]"
    by (simp add: pool_start_created_def pool_new_def two small_kernel_defs worker_start_def worker_new_def worker_fds_def)
  have "wk_state (cw_worker cw) = Starting \<and> set (worker_fds cw) \<subseteq> kv_open v"
    using failed_start_strands_workers [OF small_kernel_laws r(1)] by auto
  with r show ?thesis by auto
qed

end
