(* ===== verification/Channel_Repair.thy ===== *)
theory Channel_Repair
  imports Worker_Init Worker_Props
begin

text \<open>
  The repair of a worker's message channel (the message \<open>RepairMessageChannel\<close> in \<open>src/worker/mod.rs\<close>): a new
  eventfd takes the place of the old one behind the descriptor that the worker's senders share, and its key the place
  of the old key. It is asked for by a sender whose signals fail (\<open>src/worker/work_sender.rs\<close>), through the channel itself.
\<close>

section \<open>The repair\<close>

text \<open>The key the loop compares with, and the descriptor that the receiver and all senders share.\<close>

record message_channel =
  mc_key :: u64
  mc_fd :: raw_fd

definition poller_deregister ::
  "'w worker_calls \<Rightarrow> event_poller \<Rightarrow> u64 \<Rightarrow> 'w \<Rightarrow> (poller_registry_error + unit) \<times> event_poller \<times> 'w" where
  "poller_deregister wc p k w =
     (case map_of (key_fds (ep_registry p)) k of
        None \<Rightarrow> (let (x, reg) = deregister_interest (\<lambda>_ _ _. Inr ()) k (ep_registry p) in (x, p\<lparr>ep_registry := reg\<rparr>, w))
      | Some fd \<Rightarrow>
          (let (r, w) = wc_epoll_ctl wc (ep_fd p) EpollDel fd None w;
               (x, reg) = deregister_interest (\<lambda>_ _ _. r) k (ep_registry p)
           in (x, p\<lparr>ep_registry := reg\<rparr>, w)))"

text \<open>\<open>None\<close> is a panic. A failure is logged and leaves the channel as it was, the new descriptor dropped; a failed
  deregistration is only logged. \<open>channel\<close> is dropped at the end, without its descriptor.\<close>

definition repair_channel ::
  "'w worker_calls \<Rightarrow> event_poller \<Rightarrow> message_channel \<Rightarrow> 'w \<Rightarrow> (event_poller \<times> message_channel) option \<times> 'w" where
  "repair_channel wc poller mc w =
     (case channel_create wc w of
        (None, w) \<Rightarrow> (None, w)
      | (Some (Inl _), w) \<Rightarrow> (Some (poller, mc), w)
      | (Some (Inr fd), w) \<Rightarrow>
          (case poller_register wc poller fd INTEREST_READ w of
             (Inl _, poller, w) \<Rightarrow> (Some (poller, mc), close_all wc (owned_drop fd) w)
           | (Inr new_key, poller, w) \<Rightarrow>
               (let (_, poller, w) = poller_deregister wc poller (mc_key mc) w;
                    (new_fd, channel) = owned_release fd
                in case owned_swap new_fd (mc_fd mc) of
                     None \<Rightarrow> (None, w)
                   | Some (old_fd, shared) \<Rightarrow>
                       (let w = (if 0 \<le>s old_fd then wc_close wc old_fd w else w) in
                        (Some (poller, \<lparr>mc_key = new_key, mc_fd = shared\<rparr>), close_all wc (owned_drop channel) w)))))"

text \<open>What the loop's model is told of a repair.\<close>

definition repaired_key :: "message_channel \<Rightarrow> message_channel \<Rightarrow> u64 option" where
  "repaired_key mc mc' = (if mc_key mc' = mc_key mc then None else Some (mc_key mc'))"

section \<open>Properties\<close>

text \<open>The channel is connected: its descriptor is open and watched by the poller for reading, under its key; the poller
  watches open descriptors only, and keys to come are unused.\<close>

definition connected :: "kernel_view \<Rightarrow> event_poller \<Rightarrow> message_channel \<Rightarrow> bool" where
  "connected v p mc \<longleftrightarrow>
     mc_fd mc \<in> kv_open v \<and> 0 \<le>s mc_fd mc \<and> ep_fd p \<in> kv_open v \<and> ep_fd p \<noteq> mc_fd mc \<and>
     map_of (key_fds (ep_registry p)) (mc_key mc) = Some (mc_fd mc) \<and>
     kv_interest v (ep_fd p) (mc_fd mc) = Some (INTEREST_READ, mc_key mc) \<and>
     dom (kv_interest v (ep_fd p)) \<subseteq> kv_open v \<and>
     (\<forall>k \<in> dom (map_of (key_fds (ep_registry p))). k < generator (ep_registry p))"

lemma poller_deregister_view:
  assumes "worker_laws wc kv" "poller_deregister wc p k w = (r, q, w')" "map_of (key_fds (ep_registry p)) k = Some fd"
  shows "ep_fd q = ep_fd p \<and> generator (ep_registry q) = generator (ep_registry p) \<and>
    map_of (key_fds (ep_registry q)) = (map_of (key_fds (ep_registry p)))(k := None) \<and>
    kv w' = (if is_ok r then unwatched (ep_fd p) fd (kv w) else kv w)"
proof -
  obtain x w1 where 1: "wc_epoll_ctl wc (ep_fd p) EpollDel fd None w = (x, w1)" by fastforce
  show ?thesis
    using assms(2,3) 1 worker_lawsD(10) [OF assms(1), of "ep_fd p" fd w]
    by (cases x) (auto simp: poller_deregister_def deregister_interest_def takes_effect_def Let_def delete_conv')
qed

text \<open>C19. A repair replaces the channel or leaves it as it was. In the first case the new descriptor, unused before, is
  the one that all senders share and the only one that was opened, the old one is closed, and poller and registry have
  the new key for the new descriptor in place of the old; in the second no descriptor was opened or closed. In both the
  channel is connected again, nothing else the poller watches is touched, and the loop goes on with the channel's key.\<close>

theorem repair_keeps_connected:
  assumes "worker_laws wc kv" "connected (kv w) p mc" "generator (ep_registry p) + 1 \<noteq> 0"
    "repair_channel wc p mc w = (r, w')" "wl_message_key l = mc_key mc"
  shows "\<exists>q mc'. r = Some (q, mc') \<and> connected (kv w') q mc' \<and>
    (if mc' = mc then kv_open (kv w') = kv_open (kv w)
     else mc_fd mc' \<notin> kv_open (kv w) \<and> kv_open (kv w') = insert (mc_fd mc') (kv_open (kv w) - {mc_fd mc}) \<and>
       mc_key mc' = generator (ep_registry p) \<and>
       map_of (key_fds (ep_registry q)) =
         (map_of (key_fds (ep_registry p)))(mc_key mc := None, mc_key mc' \<mapsto> mc_fd mc')) \<and>
    (\<forall>fd. fd \<noteq> mc_fd mc \<longrightarrow> fd \<noteq> mc_fd mc' \<longrightarrow>
       kv_interest (kv w') (ep_fd q) fd = kv_interest (kv w) (ep_fd p) fd) \<and>
    wl_message_key (snd (snd (handle_message (env\<lparr>we_repair := repaired_key mc mc'\<rparr>) RepairMessageChannel l))) = mc_key mc'"
proof -
  let ?g = "generator (ep_registry p)"
  note c = assms(2) [unfolded connected_def]
  have up: "k < ?g + 1" if "k < ?g \<or> k = ?g" for k
    using that unatSuc [of ?g] assms(3) by (auto simp: word_less_nat_alt add.commute)
  have key: "wl_message_key (snd (snd (handle_message (env\<lparr>we_repair := repaired_key mc mc'\<rparr>) RepairMessageChannel l))) =
      mc_key mc'" for mc'
    using assms(5) by (simp add: repaired_key_def)
  obtain x w1 where 1: "channel_create wc w = (x, w1)" by fastforce
  note k1 = channel_create_view [OF assms(1) 1]
  then consider (fail) e where "x = Some (Inl e)" | (new) fd where "x = Some (Inr fd)"
    by (auto split: option.splits sum.splits)
  then show ?thesis
  proof cases
    case fail
    with assms(2,4) 1 k1 key show ?thesis by (auto simp: repair_channel_def connected_def)
  next
    case new
    obtain y q1 w2 where 2: "poller_register wc p fd INTEREST_READ w1 = (y, q1, w2)"
      by (cases "poller_register wc p fd INTEREST_READ w1")
    note k2 = poller_register_view [OF assms(1) 2]
    have fd: "0 \<le>s fd" "fd \<notin> kv_open (kv w)" "kv w1 = opened fd (kv w)" "fd \<noteq> INVALID_FD" "owned_drop fd = [fd]"
      "owned_swap fd (mc_fd mc) = Some (mc_fd mc, fd)" "fd \<noteq> mc_fd mc" "fd \<noteq> ep_fd p"
      using k1 new c by (auto dest: usable_fd simp: owned_drop_def owned_release_def owned_swap_def Let_def)
    show ?thesis
    proof (cases y)
      case (Inl e)
      then have r: "r = Some (q1, mc)" "w' = wc_close wc fd w2"
        using assms(4) 1 2 new fd(5) by (simp_all add: repair_channel_def close_all_def)
      have v: "kv w' = closed_fd fd (opened fd (kv w))" using r(2) k2 Inl fd(3) worker_lawsD(9) [OF assms(1)] by simp
      have "connected (kv w') q1 mc"
        using c k2 Inl fd up unfolding connected_def v by auto
      moreover have "kv_open (kv w') = kv_open (kv w)" using fd(2) by (simp add: v)
      moreover have "kv_interest (kv w) (ep_fd p) fd = None" using c fd(2) by auto
      ultimately show ?thesis using r(1) key k2 fd(8) by (auto simp: v)
    next
      case (Inr k)
      obtain z q w3 where 3: "poller_deregister wc q1 (mc_key mc) w2 = (z, q, w3)"
        by (cases "poller_deregister wc q1 (mc_key mc) w2")
      have old: "mc_key mc < ?g" "mc_key mc \<noteq> k" using c k2 Inr by auto
      then have "map_of (key_fds (ep_registry q1)) (mc_key mc) = Some (mc_fd mc)" using c k2 Inr by simp
      note k3 = poller_deregister_view [OF assms(1) 3 this]
      let ?mc = "\<lparr>mc_key = k, mc_fd = fd\<rparr>"
      have r: "r = Some (q, ?mc)" "w' = wc_close wc (mc_fd mc) w3"
        using assms(4) 1 2 3 new Inr fd(6) c
        by (simp_all add: repair_channel_def owned_release_def owned_drop_def close_all_def)
      have v: "kv_open (kv w') = insert fd (kv_open (kv w) - {mc_fd mc})"
        "kv_interest (kv w') (ep_fd p) = ((kv_interest (kv w) (ep_fd p))(fd \<mapsto> (INTEREST_READ, k)))(mc_fd mc := None)"
        using r(2) k2 k3 Inr fd worker_lawsD(9) [OF assms(1)] by (auto simp: fun_eq_iff split: if_splits)
      have m: "map_of (key_fds (ep_registry q)) = (map_of (key_fds (ep_registry p)))(mc_key mc := None, k \<mapsto> fd)"
        using k2 k3 Inr old(2) by (simp add: fun_upd_twist)
      have "connected (kv w') q ?mc"
        using c k2 k3 Inr fd up v m unfolding connected_def by (auto simp: dom_def)
      moreover have "?mc \<noteq> mc" using fd(7) by auto
      ultimately show ?thesis using r(1) key [of ?mc] k2 k3 Inr fd v m by (intro exI [of _ q] exI [of _ ?mc]) simp
    qed
  qed
qed

text \<open>A worker that was created has a connected channel.\<close>

lemma wired_connected:
  assumes "wired v0 v cw" "0 \<le>s cw_message cw"
  shows "connected v (cw_poller cw) \<lparr>mc_key = cw_message_key cw, mc_fd = cw_message cw\<rparr>"
  using assms by (auto simp: connected_def wired_def worker_fds_def dom_def split: if_splits)

theorem repair_keeps_connected_witness:
  "\<exists>cw v q v'. worker_create (small_kernel (\<lambda>_. True) True) 0 boot = (Inr (cw :: (unit, unit) created_worker), v) \<and>
     repair_channel (small_kernel (\<lambda>_. True) True) (cw_poller cw) \<lparr>mc_key = 100, mc_fd = 3\<rparr> v =
       (Some (q, \<lparr>mc_key = 102, mc_fd = 7\<rparr>), v') \<and>
     3 \<notin> kv_open v' \<and> connected v' q \<lparr>mc_key = 102, mc_fd = 7\<rparr>"
proof -
  let ?wc = "small_kernel (\<lambda>_. True) True"
  let ?mc = "\<lparr>mc_key = 100, mc_fd = 3\<rparr>"
  obtain cw v where cw: "worker_create ?wc 0 boot = (Inr (cw :: (unit, unit) created_worker), v)"
    "cw_message cw = 3" "cw_message_key cw = 100" "generator (ep_registry (cw_poller cw)) = 102"
    "ep_fd (cw_poller cw) = 4" "kv_open v = {6, 5, 4, 3, 0, 1, 2}" "key_fds (ep_registry (cw_poller cw)) = [(100, 3), (101, 6)]"
    by (simp add: small_kernel_defs)
  have "wired boot v cw" using worker_create_view [OF small_kernel_laws cw(1)] by simp
  then have "connected v (cw_poller cw) ?mc" using wired_connected [of boot v cw] cw(2,3) by (simp add: word_sle_eq)
  moreover obtain q v' where r: "repair_channel ?wc (cw_poller cw) ?mc v = (Some (q, \<lparr>mc_key = 102, mc_fd = 7\<rparr>), v')"
    using cw(4-7) by (simp add: repair_channel_def small_kernel_defs poller_deregister_def deregister_interest_def
        owned_release_def owned_swap_def owned_drop_def)
  ultimately show ?thesis
    using repair_keeps_connected [OF small_kernel_laws _ _ r, of "idle_loop" undefined] cw(1,4,6)
    by (auto simp: idle_loop_def)
qed

section \<open>Who asks for a repair\<close>

text \<open>A poll in which the message channel did not come up.\<close>

definition quiet :: "u64 \<Rightarrow> loop_input \<Rightarrow> bool" where
  "quiet k inp \<longleftrightarrow> (case li_poll inp of Inl _ \<Rightarrow> True | Inr es \<Rightarrow> k \<notin> snd ` set es)"

text \<open>Iterations of the loop, before each of which messages may have come in.\<close>

fun iterate :: "'f worker_env \<Rightarrow> (('f, 'st) message list \<times> loop_input) list \<Rightarrow> ('f, 'st) worker_loop
    \<Rightarrow> loop_result \<times> ('f, 'st) worker_loop" where
  "iterate env [] l = (GoOn, l)"
| "iterate env ((ms, inp) # inps) l =
     (case main_iteration env inp (l\<lparr>wl_inbox := wl_inbox l @ ms\<rparr>) of
        (GoOn, l) \<Rightarrow> iterate env inps l
      | r \<Rightarrow> r)"

lemma retry_waiting_inbox:
  "wl_inbox (snd (retry_waiting env ss l)) = wl_inbox l \<and> wl_message_key (snd (retry_waiting env ss l)) = wl_message_key l"
proof (induction ss arbitrary: l)
  case (Cons s ss)
  let ?l = "l\<lparr>wl_waiting := ss\<rparr>"
  have "wl_message_key (snd (loop_prepare env s ?l)) = wl_message_key l" by (simp add: loop_prepare_def split_beta Let_def)
  then show ?case
    using Cons.IH loop_prepare_cases [of env s ?l] by (auto simp: split_beta)
qed simp

lemma special_keys_wake: "wl_message_key (wake_queues ks l) = wl_message_key l"
  by (induction ks arbitrary: l) (auto simp: split_beta wake_wakers_def)

lemma handle_signal_key: "handle_signal n l = Some l' \<Longrightarrow> wl_message_key l' = wl_message_key l"
  by (auto simp: handle_signal_def loop_defs split: option.splits notification.splits prod.splits)

lemma push_to_queue_key [simp]:
  "wl_message_key (snd (push_to_queue e d l)) = wl_message_key l"
  "should_recv (fst (push_to_queue e d l)) = should_recv d"
  by (simp_all add: push_to_queue_def split: prod.split)

lemma dispatch_quiet:
  "dispatch_events reads es d l = Some (d', l') \<Longrightarrow> wl_message_key l \<notin> event_key ` set es \<Longrightarrow>
     should_recv d' = should_recv d \<and> wl_message_key l' = wl_message_key l"
proof (induction es arbitrary: reads d l)
  case (Cons e es)
  have rest: "wl_message_key l \<notin> event_key ` set es" "event_key e \<noteq> wl_message_key l" using Cons.prems(2) by auto
  have step: "should_recv d' = should_recv d \<and> wl_message_key l' = wl_message_key l"
    if "dispatch_events reads' es d1 l1 = Some (d', l')" "wl_message_key l1 = wl_message_key l"
      "should_recv d1 = should_recv d" for reads' d1 l1
    using Cons.IH [OF that(1)] that(2,3) rest(1) by simp
  have push: "should_recv d' = should_recv d \<and> wl_message_key l' = wl_message_key l"
    if "dispatch_events reads' es (fst (push_to_queue e d l1)) (snd (push_to_queue e d l1)) = Some (d', l')"
      "wl_message_key l1 = wl_message_key l" for reads' l1
    by (rule step [OF that(1)]) (simp_all add: that(2))
  consider (io) "event_key e = wl_io_key l" | (sig) "event_key e \<noteq> wl_io_key l" "event_key e = wl_signal_key l"
    | (queue) "event_key e \<noteq> wl_io_key l" "event_key e \<noteq> wl_signal_key l" by blast
  then show ?case
  proof cases
    case io
    then show ?thesis using Cons.prems(1) rest(2) step [of reads "d\<lparr>should_complete_io := True\<rparr>" l] by simp
  next
    case sig
    consider (skip) "dispatch_events (tl reads) es d l = Some (d', l')"
      | (read) n reads' l1 where "handle_signal n l = Some l1"
          "dispatch_events reads' es (fst (push_to_queue e d l1)) (snd (push_to_queue e d l1)) = Some (d', l')"
      using sig rest(2) Cons.prems(1) by (auto simp: split_beta split: list.splits option.splits)
    then show ?thesis
      by cases (use step [of "tl reads" d l] in simp, use push handle_signal_key in blast)
  next
    case queue
    then show ?thesis using Cons.prems(1) rest(2) push [of reads l] by (simp add: split_beta)
  qed
qed simp

lemma main_iteration_quiet:
  assumes "quiet (wl_message_key l) inp"
  shows "wl_inbox (snd (main_iteration env inp l)) = wl_inbox l \<and>
    wl_message_key (snd (main_iteration env inp l)) = wl_message_key l"
proof (cases "li_poll inp = Inl OperationInterrupted")
  case True
  then show ?thesis by (simp add: main_iteration_def poll_events_def set_state_def)
next
  case False
  define es where "es = snd (poll_events (li_poll inp))"
  let ?d = "\<lparr>should_recv = False, should_complete_io = False, queues_to_wake = []\<rparr>"
  let ?l = "set_state Busy (set_state Idle l)"
  have k: "wl_message_key ?l \<notin> event_key ` set es" "wl_message_key ?l = wl_message_key l" "wl_inbox ?l = wl_inbox l"
    using assms by (auto simp: quiet_def es_def poll_events_def event_of_epoll_def set_state_def image_iff split: sum.splits)
  have m: "main_iteration env inp l = process_events env inp es (set_state Idle l)"
    using False by (auto simp: main_iteration_def es_def poll_events_def Let_def split: sum.splits)
  show ?thesis
  proof (cases "dispatch_events (li_signals inp) es ?d ?l")
    case None
    then show ?thesis using m k by (simp add: process_events_def)
  next
    case (Some dl)
    obtain d l0 where dl: "dl = (d, l0)" by fastforce
    have 0: "\<not> should_recv d" "wl_message_key l0 = wl_message_key l" "wl_inbox l0 = wl_inbox l"
      using dispatch_quiet [OF Some [unfolded dl] k(1)] dispatch_places [OF Some [unfolded dl]] k
      by (simp_all add: same_places_def)
    define l1 where "l1 = wake_queues (queues_to_wake d) l0"
    have 1: "wl_inbox l1 = wl_inbox l" "wl_message_key l1 = wl_message_key l"
      using 0 wake_queues_places [of l0 "queues_to_wake d" l0] by (simp_all add: l1_def same_places_def special_keys_wake)
    obtain submit l2 where 2: "(if should_complete_io d then complete_and_retry env inp l1 else (False, l1)) = (submit, l2)"
      by fastforce
    have 3: "wl_inbox l2 = wl_inbox l \<and> wl_message_key l2 = wl_message_key l"
    proof (cases "should_complete_io d")
      case True
      have "wl_inbox (loop_complete env cs l1) = wl_inbox l1 \<and> wl_message_key (loop_complete env cs l1) = wl_message_key l1" for cs
        by (simp add: loop_complete_def wake_wakers_def split_beta)
      with True 1 2 retry_waiting_inbox [of env "wl_waiting (loop_complete env (li_completions inp) l1)"
          "loop_complete env (li_completions inp) l1"]
      show ?thesis by (simp add: complete_and_retry_def Let_def)
    qed (use 1 2 in simp)
    show ?thesis
      using m Some dl 0(1) 2 3 unfolding process_events_def
      by (auto simp: l1_def [symmetric] Let_def run_ready_def loop_submit_def broadcast_notification_def
          broadcast_event_def wake_wakers_def split_beta)
  qed
qed

text \<open>C27. A broken channel is not repaired unless it works. When both signals of a sender fail, its message and the
  request for a repair are queued and the sender is told of success; whatever the kernel reports, as long as the
  channel does not come up in a poll, and whatever else is sent meanwhile, both stay in the queue.\<close>

theorem repair_waits_for_signal:
  assumes "ch_connected c" "wl_inbox l = ch_messages (snd (send_message_to False False m c))"
    "\<forall>(ms, inp) \<in> set inps. quiet (wl_message_key l) inp"
  shows "fst (send_message_to False False m c) = Inr () \<and>
    (\<exists>rest. wl_inbox (snd (iterate env inps l)) = ch_messages c @ [m, RepairMessageChannel] @ rest)"
proof -
  have "\<exists>rest. wl_inbox (snd (iterate env inps l)) = wl_inbox l @ rest"
    using assms(3)
  proof (induction env inps l rule: iterate.induct)
    case (2 env ms inp inps l)
    let ?l = "l\<lparr>wl_inbox := wl_inbox l @ ms\<rparr>"
    obtain r l1 where 1: "main_iteration env inp ?l = (r, l1)" by fastforce
    have "wl_inbox l1 = wl_inbox l @ ms" "wl_message_key l1 = wl_message_key l"
      using main_iteration_quiet [of ?l inp env] 2(2) 1 by auto
    with 2 1 show ?case by (cases r) auto
  qed simp
  moreover have "wl_inbox l = ch_messages c @ [m, RepairMessageChannel]" "fst (send_message_to False False m c) = Inr ()"
    using assms(1,2) by (simp_all add: send_message_to_def Let_def)
  ultimately show ?thesis by simp
qed

definition broken_channel :: "(unit, unit) worker_loop" where
  "broken_channel = idle_loop\<lparr>wl_inbox := [TaskSpawner (), RepairMessageChannel]\<rparr>"

definition other_events :: "((unit, unit) message list \<times> loop_input) list" where
  "other_events =
     [([ContinueWaker 5], \<lparr>li_poll = Inr [(EPOLLIN, 101)], li_signals = [], li_completions = [], li_submit_ok = True\<rparr>)]"

definition plain_env :: "unit worker_env" where
  "plain_env = \<lparr>we_capacity = 256, we_poll = \<lambda>_ _. (PollPending, ()),
     we_completion = \<lparr>env_grow = \<lambda>_. [0], env_parse_msghdr = \<lambda>_. Inr []\<rparr>, we_repair = Some 103\<rparr>"

theorem repair_waits_for_signal_witness:
  "\<exists>rest. wl_inbox (snd (iterate plain_env other_events broken_channel)) = [TaskSpawner (), RepairMessageChannel] @ rest"
proof -
  let ?c = "\<lparr>ch_messages = [], ch_connected = True\<rparr> :: (unit, unit) channel"
  have "wl_inbox broken_channel = ch_messages (snd (send_message_to False False (TaskSpawner ()) ?c))"
    by (simp add: broken_channel_def send_message_to_def)
  moreover have "\<forall>(ms, inp) \<in> set other_events. quiet (wl_message_key broken_channel) inp"
    by (simp add: other_events_def quiet_def broken_channel_def idle_loop_def)
  ultimately show ?thesis
    using repair_waits_for_signal [of ?c broken_channel "TaskSpawner ()" other_events plain_env] by simp
qed

end
