(* ===== verification/Init_Race.thy ===== *)
theory Init_Race
  imports Pool Transition
begin

text \<open>
  The static pool of \<open>src/lib.rs\<close>, made by \<open>init\<close> or by the first call of \<open>pool\<close>, from several threads at once. The cell
  it is kept in is a \<open>OnceCell\<close>: \<open>get\<close> reads it, \<open>set\<close> fails when it is full, and both \<open>set\<close> and \<open>get_or_init\<close> wait
  while another \<open>get_or_init\<close> is making the value. A pool that was started is known by its number.
\<close>

section \<open>Callers of the cell\<close>

datatype pool_cell = CellEmpty | CellBusy | CellFull nat

text \<open>Where a thread stands: a call of \<open>init\<close> before its check, before it starts a pool, and before it sets the cell; a
  call of \<open>pool\<close> before the cell, and making the pool; and how a call ended. \<open>InitPanics\<close> is the failed \<open>expect\<close>.\<close>

datatype cell_call =
    InitCheck | InitStart | InitSet nat
  | PoolGet | PoolMake
  | InitOk nat | InitAlready | InitLockError nat | InitPanics
  | PoolIs nat | PoolPanics

record pool_static =
  ps_cell :: pool_cell
  ps_calls :: "cell_call list"
  ps_started :: nat               \<comment> \<open>pools started so far\<close>

text \<open>Each thread calls \<open>init\<close>, or \<open>pool\<close>.\<close>

definition pool_static_new :: "bool list \<Rightarrow> pool_static" where
  "pool_static_new inits =
     \<lparr>ps_cell = CellEmpty, ps_calls = map (\<lambda>b. if b then InitCheck else PoolGet) inits, ps_started = 0\<rparr>"

definition call_at :: "nat \<Rightarrow> cell_call \<Rightarrow> pool_static \<Rightarrow> pool_static" where
  "call_at i c s = s\<lparr>ps_calls := (ps_calls s)[i := c]\<rparr>"

text \<open>One step of a call; \<open>ok\<close> is whether the pool it starts can be started.\<close>

fun call_step :: "bool \<Rightarrow> nat \<Rightarrow> cell_call \<Rightarrow> pool_static \<Rightarrow> pool_static option" where
  "call_step ok i InitCheck s =
     Some (case ps_cell s of CellFull _ \<Rightarrow> call_at i InitAlready s | _ \<Rightarrow> call_at i InitStart s)"
| "call_step ok i InitStart s =
     Some (if ok then call_at i (InitSet (ps_started s)) (s\<lparr>ps_started := Suc (ps_started s)\<rparr>) else call_at i InitPanics s)"
| "call_step ok i (InitSet p) s =
     (case ps_cell s of
        CellEmpty \<Rightarrow> Some (call_at i (InitOk p) (s\<lparr>ps_cell := CellFull p\<rparr>))
      | CellFull _ \<Rightarrow> Some (call_at i (InitLockError p) s)
      | CellBusy \<Rightarrow> None)"
| "call_step ok i PoolGet s =
     (case ps_cell s of
        CellEmpty \<Rightarrow> Some (call_at i PoolMake (s\<lparr>ps_cell := CellBusy\<rparr>))
      | CellFull p \<Rightarrow> Some (call_at i (PoolIs p) s)
      | CellBusy \<Rightarrow> None)"
| "call_step ok i PoolMake s =
     (if ok then (let p = ps_started s in
                  Some (call_at i (PoolIs p) (s\<lparr>ps_cell := CellFull p, ps_started := Suc p\<rparr>)))
      else Some (call_at i PoolPanics (s\<lparr>ps_cell := CellEmpty\<rparr>)))"
| "call_step ok i _ s = None"

definition cell_act :: "nat \<times> bool \<Rightarrow> pool_static \<Rightarrow> pool_static option" where
  "cell_act = (\<lambda>(i, ok) s. if i < length (ps_calls s) then call_step ok i (ps_calls s ! i) s else None)"

section \<open>One pool\<close>

text \<open>The pool that only this call knows: started and not yet, or never, in the cell.\<close>

fun stray_pool :: "cell_call \<Rightarrow> nat option" where
  "stray_pool (InitSet p) = Some p"
| "stray_pool (InitLockError p) = Some p"
| "stray_pool _ = None"

definition strays :: "pool_static \<Rightarrow> nat list" where
  "strays s = List.map_filter stray_pool (ps_calls s)"

definition cell_pools :: "pool_static \<Rightarrow> nat list" where
  "cell_pools s = (case ps_cell s of CellFull p \<Rightarrow> [p] | _ \<Rightarrow> [])"

abbreviation count_calls :: "(cell_call \<Rightarrow> bool) \<Rightarrow> pool_static \<Rightarrow> nat" where
  "count_calls P s \<equiv> length (filter P (ps_calls s))"

definition is_init_ok :: "cell_call \<Rightarrow> bool" where
  "is_init_ok c \<longleftrightarrow> (\<exists>p. c = InitOk p)"

definition is_make :: "cell_call \<Rightarrow> bool" where
  "is_make c \<longleftrightarrow> c = PoolMake"

definition cell_inv :: "pool_static \<Rightarrow> bool" where
  "cell_inv s \<longleftrightarrow>
     mset (cell_pools s) + mset (strays s) = mset [0..<ps_started s] \<and>
     (\<forall>p. InitOk p \<in> set (ps_calls s) \<or> PoolIs p \<in> set (ps_calls s) \<longrightarrow> ps_cell s = CellFull p) \<and>
     (InitAlready \<in> set (ps_calls s) \<or> (\<exists>p. InitLockError p \<in> set (ps_calls s)) \<longrightarrow> cell_pools s \<noteq> []) \<and>
     count_calls is_init_ok s \<le> length (cell_pools s) \<and>
     count_calls is_make s = (if ps_cell s = CellBusy then 1 else 0)"

abbreviation of_opt :: "'a option \<Rightarrow> 'a multiset" where
  "of_opt x \<equiv> (case x of None \<Rightarrow> {#} | Some y \<Rightarrow> {#y#})"

lemma map_filter_update:
  "i < length cs \<Longrightarrow> mset (List.map_filter f (cs[i := c])) + of_opt (f (cs ! i)) =
     mset (List.map_filter f cs) + of_opt (f c)"
proof (induction cs arbitrary: i)
  case (Cons x cs)
  then show ?case by (cases i) (auto simp: map_filter_simps split: option.splits)
qed simp

lemma call_at_sel [simp]:
  "ps_cell (call_at i c s) = ps_cell s" "ps_started (call_at i c s) = ps_started s"
  "ps_calls (call_at i c s) = (ps_calls s)[i := c]" "cell_pools (call_at i c s) = cell_pools s"
  by (simp_all add: call_at_def cell_pools_def)

lemma strays_call_at:
  "i < length (ps_calls s) \<Longrightarrow>
     mset (strays (call_at i c s)) + of_opt (stray_pool (ps_calls s ! i)) = mset (strays s) + of_opt (stray_pool c)"
  by (simp add: strays_def map_filter_update)

lemma cell_inv_new: "cell_inv (pool_static_new inits)"
proof -
  let ?calls = "map (\<lambda>b. if b then InitCheck else PoolGet) inits"
  have "List.map_filter stray_pool ?calls = []" "filter is_init_ok ?calls = []" "filter is_make ?calls = []"
    by (induction inits) (auto simp: map_filter_simps is_init_ok_def is_make_def)
  then show ?thesis by (auto simp: cell_inv_def pool_static_new_def cell_pools_def strays_def)
qed

lemma cell_invD:
  assumes "cell_inv s"
  shows "mset (cell_pools s) + mset (strays s) = mset [0..<ps_started s]"
    and "InitOk p \<in> set (ps_calls s) \<or> PoolIs p \<in> set (ps_calls s) \<Longrightarrow> ps_cell s = CellFull p"
    and "InitAlready \<in> set (ps_calls s) \<or> InitLockError p \<in> set (ps_calls s) \<Longrightarrow> cell_pools s \<noteq> []"
    and "count_calls is_init_ok s \<le> length (cell_pools s)"
    and "count_calls is_make s = (if ps_cell s = CellBusy then 1 else 0)"
  using assms unfolding cell_inv_def by blast+

text \<open>A call that moves, with what it does to the cell and to the pools started.\<close>

lemma cell_inv_move:
  assumes inv: "cell_inv s" and i: "i < length (ps_calls s)" "ps_calls s ! i = c0" "\<not> is_init_ok c0"
    and pools: "mset (cell_pools (s\<lparr>ps_cell := cell\<rparr>)) + mset (strays s) + of_opt (stray_pool c) =
      mset [0..<n] + of_opt (stray_pool c0)"
    and full: "\<And>p. ps_cell s = CellFull p \<Longrightarrow> cell = CellFull p"
    and c: "\<And>p. c = InitOk p \<or> c = PoolIs p \<Longrightarrow> cell = CellFull p"
      "\<And>p. c = InitAlready \<or> c = InitLockError p \<Longrightarrow> \<exists>q. cell = CellFull q"
      "is_init_ok c \<Longrightarrow> ps_cell s = CellEmpty"
    and make: "(if cell = CellBusy then 1 else 0) + (if is_make c0 then 1 else 0) =
      (if ps_cell s = CellBusy then 1 else 0) + (if is_make c then 1 else (0 :: nat))"
  shows "cell_inv (call_at i c (s\<lparr>ps_cell := cell, ps_started := n\<rparr>))"
proof -
  let ?t = "call_at i c (s\<lparr>ps_cell := cell, ps_started := n\<rparr>)"
  note inv = cell_invD [OF inv]
  have t: "ps_calls ?t = (ps_calls s)[i := c]" "ps_cell ?t = cell" "ps_started ?t = n"
    "cell_pools ?t = cell_pools (s\<lparr>ps_cell := cell\<rparr>)"
    by (simp_all add: cell_pools_def)
  have mem: "x = c \<or> x \<in> set (ps_calls s)" if "x \<in> set (ps_calls ?t)" for x
    using that set_update_subset_insert [of "ps_calls s" i c] unfolding t by blast
  have "mset (strays ?t) + of_opt (stray_pool c0) = mset (strays s) + of_opt (stray_pool c)"
    using strays_call_at [of i "s\<lparr>ps_cell := cell, ps_started := n\<rparr>" c] i by (simp add: strays_def)
  with pools have 1: "mset (cell_pools ?t) + mset (strays ?t) = mset [0..<ps_started ?t]"
    unfolding t by (metis (no_types, lifting) add.assoc add_right_cancel)
  have 2: "ps_cell ?t = CellFull p" if "InitOk p \<in> set (ps_calls ?t) \<or> PoolIs p \<in> set (ps_calls ?t)" for p
    using that mem c(1) inv(2) full unfolding t(2) by metis
  have stay: "cell_pools ?t \<noteq> []" if "cell_pools s \<noteq> []"
    using that full unfolding t(4) by (auto simp: cell_pools_def split: pool_cell.splits)
  have 3: "cell_pools ?t \<noteq> []" if "InitAlready \<in> set (ps_calls ?t) \<or> InitLockError p \<in> set (ps_calls ?t)" for p
    using that mem c(2) inv(3) stay unfolding t(4) by (fastforce simp: cell_pools_def)
  have 4: "count_calls is_init_ok ?t \<le> length (cell_pools ?t)"
  proof (cases "is_init_ok c")
    case True
    then have "cell_pools s = []" "\<exists>p. cell = CellFull p" using c(1,3) by (auto simp: cell_pools_def is_init_ok_def)
    with True show ?thesis
      using length_filter_update [OF i(1), of is_init_ok c] inv(4) i(2,3) unfolding t by (auto simp: cell_pools_def)
  next
    case False
    have "length (cell_pools s) \<le> length (cell_pools ?t)"
      using full unfolding t(4) by (auto simp: cell_pools_def split: pool_cell.splits)
    with False show ?thesis
      using length_filter_update [OF i(1), of is_init_ok c] inv(4) i(2,3) unfolding t(1) by simp
  qed
  have 5: "count_calls is_make ?t = (if ps_cell ?t = CellBusy then 1 else 0)"
    using length_filter_update [OF i(1), of is_make c] make inv(5) unfolding t(1,2) i(2) by linarith
  show ?thesis using 1 2 3 4 5 unfolding cell_inv_def by blast
qed

lemma cell_inv_step:
  assumes "cell_inv s" "cell_act a s = Some t"
  shows "cell_inv t"
proof -
  obtain i ok where a: "a = (i, ok)" by fastforce
  with assms(2) have i: "i < length (ps_calls s)" and st: "call_step ok i (ps_calls s ! i) s = Some t"
    by (auto simp: cell_act_def split: if_splits)
  note inv = cell_invD [OF assms(1)]
  note move = cell_inv_move [OF assms(1) i]
  note same = move [where cell = "ps_cell s" and n = "ps_started s", simplified]
  show ?thesis
  proof (cases "ps_calls s ! i")
    case InitCheck
    then show ?thesis using st inv(1)
      by (cases "ps_cell s") (auto intro!: same simp: is_init_ok_def is_make_def)
  next
    case InitStart
    show ?thesis
    proof (cases ok)
      case True
      have t: "t = call_at i (InitSet (ps_started s)) (s\<lparr>ps_cell := ps_cell s, ps_started := Suc (ps_started s)\<rparr>)"
        using st InitStart True by simp
      show ?thesis unfolding t
        by (rule move [OF InitStart]) (use inv(1) in \<open>simp_all add: is_init_ok_def is_make_def\<close>)
    next
      case False
      then show ?thesis using st InitStart inv(1) by (auto intro!: same simp: is_init_ok_def is_make_def)
    qed
  next
    case (InitSet p)
    show ?thesis
    proof (cases "ps_cell s")
      case CellEmpty
      have t: "t = call_at i (InitOk p) (s\<lparr>ps_cell := CellFull p, ps_started := ps_started s\<rparr>)"
        using st InitSet CellEmpty by simp
      show ?thesis unfolding t
        by (rule move [OF InitSet])
          (use inv(1) CellEmpty in \<open>simp_all add: is_init_ok_def is_make_def cell_pools_def\<close>)
    next
      case (CellFull q)
      then show ?thesis using st InitSet inv(1) by (auto intro!: same simp: is_init_ok_def is_make_def)
    qed (use st InitSet in simp)
  next
    case PoolGet
    show ?thesis
    proof (cases "ps_cell s")
      case CellEmpty
      have t: "t = call_at i PoolMake (s\<lparr>ps_cell := CellBusy, ps_started := ps_started s\<rparr>)"
        using st PoolGet CellEmpty by simp
      show ?thesis unfolding t
        by (rule move [OF PoolGet]) (use inv(1) CellEmpty in \<open>simp_all add: is_init_ok_def is_make_def cell_pools_def\<close>)
    next
      case (CellFull q)
      then show ?thesis using st PoolGet inv(1) by (auto intro!: same simp: is_init_ok_def is_make_def)
    qed (use st PoolGet in simp)
  next
    case PoolMake
    then have "is_make (ps_calls s ! i)" by (simp add: is_make_def)
    with i have "filter is_make (ps_calls s) \<noteq> []" by (metis filter_empty_conv nth_mem)
    then have busy: "ps_cell s = CellBusy" using inv(5) by (auto split: if_splits)
    show ?thesis
    proof (cases ok)
      case True
      have t: "t = call_at i (PoolIs (ps_started s)) (s\<lparr>ps_cell := CellFull (ps_started s), ps_started := Suc (ps_started s)\<rparr>)"
        using st PoolMake True by (simp add: Let_def)
      show ?thesis unfolding t
        by (rule move [OF PoolMake]) (use inv(1) busy in \<open>simp_all add: is_init_ok_def is_make_def cell_pools_def\<close>)
    next
      case False
      have t: "t = call_at i PoolPanics (s\<lparr>ps_cell := CellEmpty, ps_started := ps_started s\<rparr>)"
        using st PoolMake False by simp
      show ?thesis unfolding t
        by (rule move [OF PoolMake]) (use inv(1) busy in \<open>simp_all add: is_init_ok_def is_make_def cell_pools_def\<close>)
    qed
  qed (use st in simp_all)
qed

interpretation cell: invariant_of cell_act "pool_static_new inits" cell_inv
  by unfold_locales (fact cell_inv_new, fact cell_inv_step)

section \<open>Properties\<close>

text \<open>C20. There is one pool. In whatever order any number of calls of \<open>init\<close> and of \<open>pool\<close> interleave, and whichever pools
  cannot be started: at most one \<open>init\<close> succeeds; a pool that was handed out is the one in the cell, so that all calls
  have the same; and each pool that was started is, once, that one, one about to be set, or the stray one of an \<open>init\<close> that
  lost.\<close>

theorem one_pool:
  assumes "reachable cell_act (pool_static_new inits) s"
  shows "count_calls is_init_ok s \<le> 1 \<and>
    (\<forall>p. InitOk p \<in> set (ps_calls s) \<or> PoolIs p \<in> set (ps_calls s) \<longrightarrow> ps_cell s = CellFull p) \<and>
    mset (cell_pools s) + mset (strays s) = mset [0..<ps_started s]"
proof -
  note inv = cell_invD [OF cell.reachable_inv [OF assms]]
  have "length (cell_pools s) \<le> 1" by (simp add: cell_pools_def split: pool_cell.split)
  with inv(4) have "count_calls is_init_ok s \<le> 1" by linarith
  with inv(1,2) show ?thesis by blast
qed

lemma lost_call_step:
  assumes "cell_act a s = Some t" "i < length (ps_calls s)" "ps_calls s ! i = InitLockError p"
  shows "i < length (ps_calls t) \<and> ps_calls t ! i = InitLockError p"
proof -
  obtain j ok where a: "a = (j, ok)" by fastforce
  show ?thesis
  proof (cases "j = i")
    case True
    with assms a show ?thesis by (simp add: cell_act_def)
  next
    case False
    have "\<exists>c. ps_calls t = (ps_calls s)[j := c]"
      using assms(1) unfolding a cell_act_def
      by (cases "(ok, j, ps_calls s ! j, s)" rule: call_step.cases)
        (auto simp: call_at_def Let_def split: if_splits pool_cell.splits)
    with False assms(2,3) show ?thesis by auto
  qed
qed

lemma lost_call_run:
  assumes "run cell_act as s = Some t" "i < length (ps_calls s)" "ps_calls s ! i = InitLockError p"
  shows "i < length (ps_calls t) \<and> ps_calls t ! i = InitLockError p"
  using assms by (induction as arbitrary: s) (auto split: option.splits dest: lost_call_step)

text \<open>C29. An \<open>init\<close> that loses the race leaves its threads running. It is told that a lock could not be acquired; the pool it
  started is not, and will in no continuation be, the one in the cell, so that no call can reach it to stop it.\<close>

theorem lost_init_strands_pool:
  assumes "reachable cell_act (pool_static_new inits) s"
    "i < length (ps_calls s)" "ps_calls s ! i = InitLockError p" "run cell_act as s = Some t"
  shows "p < ps_started t \<and> ps_cell t \<noteq> CellFull p \<and>
    (\<forall>q. InitOk q \<in> set (ps_calls t) \<or> PoolIs q \<in> set (ps_calls t) \<longrightarrow> q \<noteq> p)"
proof -
  have lost: "i < length (ps_calls t)" "ps_calls t ! i = InitLockError p" using lost_call_run [OF assms(4,2,3)] by simp_all
  note inv = cell_invD [OF cell.reachable_inv [OF reachable_run [OF assms(1,4)]]]
  have "InitLockError p \<in> set (ps_calls t)" using lost nth_mem by metis
  then have "p \<in> set (strays t)" by (force simp: strays_def List.map_filter_def)
  moreover have "distinct (cell_pools t @ strays t)" "set (cell_pools t @ strays t) = {0..<ps_started t}"
    using inv(1) mset_eq_imp_distinct_iff [of "cell_pools t @ strays t" "[0..<ps_started t]"]
      mset_eq_setD [of "cell_pools t @ strays t" "[0..<ps_started t]"] by simp_all
  ultimately have "p < ps_started t" "ps_cell t \<noteq> CellFull p" by (auto simp: cell_pools_def)
  with inv(2) show ?thesis by blast
qed

definition two_inits :: "(nat \<times> bool) list" where
  "two_inits = [(0, True), (1, True), (0, True), (1, True), (0, True), (1, True)]"

lemma two_inits_run:
  "run cell_act two_inits (pool_static_new [True, True, False]) =
     Some \<lparr>ps_cell = CellFull 0, ps_calls = [InitOk 0, InitLockError 1, PoolGet], ps_started = 2\<rparr>"
  by (simp add: two_inits_def pool_static_new_def cell_act_def call_at_def)

theorem one_pool_witness:
  "\<exists>s. run cell_act two_inits (pool_static_new [True, True, False]) = Some s \<and> ps_started s = 2 \<and>
     count_calls is_init_ok s \<le> 1"
  using one_pool [OF run_reachable [OF two_inits_run]]
  by (simp add: two_inits_run)

theorem lost_init_strands_pool_witness:
  "\<exists>s t. run cell_act two_inits (pool_static_new [True, True, False]) = Some s \<and>
     run cell_act [(2, True)] s = Some t \<and> ps_calls t = [InitOk 0, InitLockError 1, PoolIs 0] \<and> ps_cell t \<noteq> CellFull 1"
proof -
  let ?s = "\<lparr>ps_cell = CellFull 0, ps_calls = [InitOk 0, InitLockError 1, PoolGet], ps_started = 2\<rparr>"
  obtain t where t: "run cell_act [(2, True)] ?s = Some t" "ps_calls t = [InitOk 0, InitLockError 1, PoolIs 0]"
    by (simp add: cell_act_def call_at_def)
  have "ps_cell t \<noteq> CellFull 1" using lost_init_strands_pool [OF run_reachable [OF two_inits_run] _ _ t(1), of 1 1] by simp
  with t two_inits_run show ?thesis by blast
qed

end
