(* ===== verification/Typed_Address.thy ===== *)
theory Typed_Address
  imports Address_Props
begin

text \<open>
  Named ports and the addresses of the two ends of a connection (\<open>src/net/address.rs\<close>): \<open>PeerAddress\<close> and
  \<open>LocalAddress\<close> are socket addresses of a type of their own, with the conversions of a socket address.
\<close>

section \<open>Ports\<close>

datatype service =
    FtpData | FtpControl | Ssh | Telnet | Smtp | Dns | Http | Pop3 | Imap | Snmp | SnmpTrap | Ldap | HttpDev | Https
  | Smb | Imaps | Pop3s | Mssql | MssqlAlt | Oracle | Mysql | Rdp | Postgres | Redis | HttpAlt | Mongodb | Db2

fun named_port :: "service \<Rightarrow> u16" where
  "named_port FtpData = 20"
| "named_port FtpControl = 21"
| "named_port Ssh = 22"
| "named_port Telnet = 23"
| "named_port Smtp = 25"
| "named_port Dns = 53"
| "named_port Http = 80"
| "named_port Pop3 = 110"
| "named_port Imap = 143"
| "named_port Snmp = 161"
| "named_port SnmpTrap = 162"
| "named_port Ldap = 389"
| "named_port HttpDev = 3000"
| "named_port Https = 443"
| "named_port Smb = 445"
| "named_port Imaps = 993"
| "named_port Pop3s = 995"
| "named_port Mssql = 1433"
| "named_port MssqlAlt = 1434"
| "named_port Oracle = 1521"
| "named_port Mysql = 3306"
| "named_port Rdp = 3389"
| "named_port Postgres = 5432"
| "named_port Redis = 6379"
| "named_port HttpAlt = 8080"
| "named_port Mongodb = 27017"
| "named_port Db2 = 50000"

text \<open>The target is little-endian: \<open>to_le\<close> and \<open>from_le\<close> leave a port alone.\<close>

definition port_to_be :: "u16 \<Rightarrow> u16" where "port_to_be p = swap_bytes 2 p"
definition port_from_be :: "u16 \<Rightarrow> u16" where "port_from_be p = swap_bytes 2 p"
definition port_to_le :: "u16 \<Rightarrow> u16" where "port_to_le p = p"
definition port_from_le :: "u16 \<Rightarrow> u16" where "port_from_le p = p"

definition show_port :: "u16 \<Rightarrow> string" where "show_port p = show_dec (unat p)"

section \<open>Peers\<close>

datatype peer_address = PeerAddress (peer_socket_address: socket_address)

definition peer_address_new :: "ip_address \<Rightarrow> u16 \<Rightarrow> peer_address" where
  "peer_address_new a p = PeerAddress \<lparr>ip = a, port = p\<rparr>"

definition peer_ip :: "peer_address \<Rightarrow> ip_address" where "peer_ip a = ip (peer_socket_address a)"
definition peer_port :: "peer_address \<Rightarrow> u16" where "peer_port a = port (peer_socket_address a)"

definition peer_storage :: "peer_address \<Rightarrow> sockaddr_storage" where
  "peer_storage a = sockaddr_storage_of (peer_socket_address a)"

definition peer_try_from :: "sockaddr_storage \<Rightarrow> u16 + peer_address" where
  "peer_try_from s = map_ok PeerAddress (socket_address_try_from s)"

definition show_peer_address :: "peer_address \<Rightarrow> string" where
  "show_peer_address a = show_socket_address (peer_socket_address a)"

section \<open>Local addresses\<close>

datatype local_address = LocalAddress (local_socket_address: socket_address)

definition local_address_new :: "ip_address \<Rightarrow> u16 \<Rightarrow> local_address" where
  "local_address_new a p = LocalAddress \<lparr>ip = a, port = p\<rparr>"

definition local_ip :: "local_address \<Rightarrow> ip_address" where "local_ip a = ip (local_socket_address a)"
definition local_port :: "local_address \<Rightarrow> u16" where "local_port a = port (local_socket_address a)"

definition local_any_v4 :: "u16 \<Rightarrow> local_address" where "local_any_v4 p = local_address_new any_v4 p"
definition local_any_v6 :: "u16 \<Rightarrow> local_address" where "local_any_v6 p = local_address_new any_v6 p"
definition local_localhost_v4 :: "u16 \<Rightarrow> local_address" where "local_localhost_v4 p = local_address_new localhost_v4 p"
definition local_localhost_v6 :: "u16 \<Rightarrow> local_address" where "local_localhost_v6 p = local_address_new localhost_v6 p"
definition local_broadcast_v4 :: "u16 \<Rightarrow> local_address" where "local_broadcast_v4 p = local_address_new broadcast_v4 p"
definition local_multicast_v4 :: "u16 \<Rightarrow> local_address" where "local_multicast_v4 p = local_address_new multicast_v4 p"

definition local_interface_local_v6 :: "u16 \<Rightarrow> local_address" where
  "local_interface_local_v6 p = local_address_new interface_local_v6 p"

definition local_link_local_v6 :: "u16 \<Rightarrow> local_address" where
  "local_link_local_v6 p = local_address_new link_local_v6 p"

definition local_storage :: "local_address \<Rightarrow> sockaddr_storage" where
  "local_storage a = sockaddr_storage_of (local_socket_address a)"

definition local_try_from :: "sockaddr_storage \<Rightarrow> u16 + local_address" where
  "local_try_from s = map_ok LocalAddress (socket_address_try_from s)"

definition show_local_address :: "local_address \<Rightarrow> string" where
  "show_local_address a = show_socket_address (local_socket_address a)"

section \<open>Properties\<close>

text \<open>No two services have the same port.\<close>

theorem named_ports_distinct: "named_port s = named_port t \<longleftrightarrow> s = t"
  by (cases s; cases t; simp)

theorem port_bytes_roundtrip:
  "port_from_be (port_to_be p) = p \<and> port_to_be (port_from_be p) = p \<and> port_from_le (port_to_le p) = p"
  by (simp add: port_from_be_def port_to_be_def port_from_le_def port_to_le_def)

text \<open>Both kinds of address survive the kernel's structure.\<close>

theorem typed_address_roundtrip:
  assumes "ip_wf a"
  shows "peer_try_from (peer_storage (peer_address_new a p)) = Inr (peer_address_new a p) \<and>
    local_try_from (local_storage (local_address_new a p)) = Inr (local_address_new a p)"
  using read_stored_sockaddr [of "\<lparr>ip = a, port = p\<rparr>"] assms
  by (simp add: peer_try_from_def peer_storage_def peer_address_new_def local_try_from_def local_storage_def
      local_address_new_def)

text \<open>The well-known addresses a listener may be bound to are well-formed, so that each is what the kernel is told.\<close>

theorem special_addresses_roundtrip:
  "a \<in> {local_any_v4 p, local_any_v6 p, local_localhost_v4 p, local_localhost_v6 p, local_broadcast_v4 p,
     local_multicast_v4 p, local_interface_local_v6 p, local_link_local_v6 p} \<Longrightarrow>
   local_try_from (local_storage a) = Inr a"
  using typed_address_roundtrip
  by (auto simp: local_any_v4_def local_any_v6_def local_localhost_v4_def local_localhost_v6_def local_broadcast_v4_def
      local_multicast_v4_def local_interface_local_v6_def local_link_local_v6_def any_v4_def any_v6_def localhost_v4_def
      localhost_v6_def broadcast_v4_def multicast_v4_def interface_local_v6_def link_local_v6_def)

end
