(* ===== verification/Buffer_Access.thy ===== *)
theory Buffer_Access
  imports Buffers
begin

text \<open>
  Access to the buffers of vectored and \<open>recvmsg\<close> operations (\<open>src/io/buffers.rs\<close>): what an input buffer gives as one
  piece or as several, with the panics of its unsafe accessors, and how the buffers of \<open>recvmsg\<close> are made, taken and
  cleared.
\<close>

section \<open>Input buffers\<close>

definition input_into_source :: "iovec_input_source \<Rightarrow> iovec_input_source" where
  "input_into_source b = b"

fun input_try_as_bytes :: "iovec_input_source \<Rightarrow> u8 list option" where
  "input_try_as_bytes (Single b) = Some b"
| "input_try_as_bytes (Multiple _) = None"

fun input_try_as_vec :: "iovec_input_source \<Rightarrow> u8 list list option" where
  "input_try_as_vec (Single _) = None"
| "input_try_as_vec (Multiple bs) = Some bs"

text \<open>The unsafe accessors: \<open>None\<close> is their panic.\<close>

fun input_into_bytes :: "iovec_input_source \<Rightarrow> u8 list option" where
  "input_into_bytes (Single b) = Some b"
| "input_into_bytes (Multiple _) = None"

fun input_into_vec :: "iovec_input_source \<Rightarrow> u8 list list option" where
  "input_into_vec (Single _) = None"
| "input_into_vec (Multiple bs) = Some bs"

text \<open>\<open>try_as_mut_bytes\<close> and \<open>as_mut_bytes\<close>: the bytes as \<open>f\<close> leaves them.\<close>

fun input_modify_bytes :: "(u8 list \<Rightarrow> u8 list) \<Rightarrow> iovec_input_source \<Rightarrow> iovec_input_source option" where
  "input_modify_bytes f (Single b) = Some (Single (f b))"
| "input_modify_bytes f (Multiple _) = None"

section \<open>Buffers of \<open>recvmsg\<close>\<close>

definition recv_buffers_new :: "bytes_mut list option \<Rightarrow> bytes_mut option \<Rightarrow> recv_msg_buffers" where
  "recv_buffers_new data control = \<lparr>rb_data = data, rb_control = control\<rparr>"

definition clear_data :: "recv_msg_buffers \<Rightarrow> recv_msg_buffers" where
  "clear_data r = r\<lparr>rb_data := None\<rparr>"

definition clear_control :: "recv_msg_buffers \<Rightarrow> recv_msg_buffers" where
  "clear_control r = r\<lparr>rb_control := None\<rparr>"

definition recv_buffers_split :: "recv_msg_buffers \<Rightarrow> bytes_mut list option \<times> bytes_mut option" where
  "recv_buffers_split r = (let (data, r) = take_data r; (control, r) = take_control r in (data, control))"

text \<open>\<open>IoRecvMsgOutputBuffers::unwrap\<close>, and \<open>as_raw\<close> and \<open>refs\<close>, which only look.\<close>

definition prepared_unwrap :: "recv_msg_buffers \<Rightarrow> recv_msg_buffers" where
  "prepared_unwrap r = recv_buffers_new (rb_data r) (rb_control r)"

definition recv_buffers_refs :: "recv_msg_buffers \<Rightarrow> bytes_mut list option \<times> bytes_mut option" where
  "recv_buffers_refs r = (rb_data r, rb_control r)"

section \<open>Properties\<close>

text \<open>An input buffer is one piece or several, and the safe accessors tell which; an unsafe one panics exactly when the
  safe one gives nothing, and otherwise gives the same.\<close>

theorem input_access_complementary:
  "(input_try_as_bytes b = None) \<noteq> (input_try_as_vec b = None) \<and>
   input_into_bytes b = input_try_as_bytes b \<and> input_into_vec b = input_try_as_vec b \<and>
   (input_modify_bytes f b = None) = (input_try_as_bytes b = None) \<and>
   map_option Single (input_try_as_bytes b) = input_modify_bytes (\<lambda>x. x) b"
  by (cases b) auto

text \<open>Preparing buffers and unwrapping them, also out of an error, gives the same buffers.\<close>

theorem prepared_buffers_unwrapped:
  "case recv_prepare r of
     Inr p \<Rightarrow> prepared_unwrap p = r
   | Inl e \<Rightarrow> rse_buffers e = r"
  by (cases r; cases "rb_data r"; cases "rb_control r")
    (auto simp: recv_prepare_def iovec_output_new_def io_output_buffer_new_def prepared_unwrap_def recv_buffers_new_def)

datatype buffers_op = AddData bytes_mut | ExtendData "bytes_mut list" | TakeData | ClearData

text \<open>A run of operations on the data: the buffers that left, and those still held.\<close>

fun data_run :: "buffers_op list \<Rightarrow> recv_msg_buffers \<Rightarrow> bytes_mut list \<times> recv_msg_buffers" where
  "data_run [] r = ([], r)"
| "data_run (AddData d # ops) r = data_run ops (add_data d r)"
| "data_run (ExtendData ds # ops) r = data_run ops (extend_data ds r)"
| "data_run (TakeData # ops) r =
     (let (d, r) = take_data r; (out, r) = data_run ops r in ((case d of None \<Rightarrow> [] | Some ds \<Rightarrow> ds) @ out, r))"
| "data_run (ClearData # ops) r =
     (let (out, s) = data_run ops (clear_data r) in ((case rb_data r of None \<Rightarrow> [] | Some ds \<Rightarrow> ds) @ out, s))"

fun put_in :: "buffers_op \<Rightarrow> bytes_mut list" where
  "put_in (AddData d) = [d]"
| "put_in (ExtendData ds) = ds"
| "put_in _ = []"

definition held_data :: "recv_msg_buffers \<Rightarrow> bytes_mut list" where
  "held_data r = (case rb_data r of None \<Rightarrow> [] | Some ds \<Rightarrow> ds)"

text \<open>The data buffers are a queue: over any run, those that left and those still held are, in order, those held before
  and those put in.\<close>

theorem data_buffers_in_order:
  "(let (out, s) = data_run ops r in out @ held_data s) = held_data r @ concat (map put_in ops)"
proof (induction ops arbitrary: r)
  case (Cons op ops)
  then show ?case
    by (cases op) (auto simp: add_data_def extend_data_def take_data_def clear_data_def held_data_def case_prod_beta Let_def
        split: option.splits)
qed (simp add: held_data_def)

end
