(* ===== verification/Spec2Isabelle.thy ===== *)
theory Spec2Isabelle
  imports Os_Error Mutex Rw_Lock Address_Props Control_Props Io_Completion_Props Worker_Props Pool
    Io_Future Io_Async Uring_Entry Fs_Props Sleep Event_Channel Event_Source Subscriptions Listener_Task
    Timer_Source Worker_Init Channel_Repair Init_Race Typed_Address Buffer_Access
begin

text \<open>
  cl-async is an asynchronous runtime for Linux: tasks are spawned on a pool of worker threads, each with an
  epoll instance for the readiness of descriptors and an io_uring ring for I/O operations, and built on these
  are futures of operations, files and directories, TCP sockets, timers, signals, and locks for tasks. This
  development models its own code, \<open>src/src/\<close> below; paths are relative to that directory.

  How the parts interact. A task is polled by the executor of its worker (\<open>Task_Executor\<close>). A future of an
  operation sends the operation through the channel of the worker whose turn it is (\<open>Pool\<close>), which puts it into
  its ring or among the waiting submissions (\<open>Worker\<close>, \<open>Io_Completion\<close>); the completion is stored in a slot under
  the operation's key and wakes the task, whose next poll takes it (\<open>Io_Future\<close>). Events of descriptors go from the
  poller to queues by key (\<open>Events\<close>), signals and shutdowns to subscriptions (\<open>Notifications\<close>, \<open>Subscriptions\<close>). Files,
  sockets and timers are clients of these.

  Which theory models which file.
  \<^item> \<open>Prelude\<close>, \<open>Assoc\<close>, \<open>Rust_Str\<close>, \<open>Libc\<close>: machine integers, results, bytes, maps as association lists, the operations
    of \<open>str\<close>, and the constants of the C library with their documented x86-64 values. \<open>Os_Error\<close>: \<open>os_error.rs\<close>.
  \<^item> \<open>Transition\<close>: interleavings of atomic actions as lists, reachability, the contract of an invariant
    (\<open>invariant_of\<close>) and of an implementation (\<open>simulation_of\<close>). \<open>Keyed_Store\<close>: the contract of a store of slots in which keys do not interfere (\<open>keyed_store\<close>),
    discharged for the completion queue and for the registry of event queues.
  \<^item> \<open>Mutex\<close>, \<open>Semaphore\<close>, \<open>Rw_Lock\<close>: \<open>sync/\<close>, one action per atomic operation. The lock is a client of the semaphore
    through the contract \<open>permit_pool\<close>.
  \<^item> \<open>Task_Executor\<close>: \<open>task/\<close>. \<open>Events\<close>, \<open>Event_Source\<close>, \<open>Event_Channel\<close>: \<open>events/\<close>, the task made by
    \<open>register_event_source\<close>, \<open>atomic_owned_fd.rs\<close>. \<open>Notifications\<close>, \<open>Subscriptions\<close>: \<open>notifications/\<close> and \<open>notify_on\<close>.
  \<^item> \<open>Worker\<close>, \<open>Worker_Props\<close>: \<open>worker/\<close>, \<open>io/submission_queue.rs\<close>: the messages, one iteration of the main loop, one
    round of the shutdown loop, the end of the thread. \<open>Worker_Init\<close>: how a worker is created, its signals, and the pool
    started over that. \<open>Channel_Repair\<close>: the swap of its message channel. \<open>Pool\<close>: \<open>pool.rs\<close> and the functions of \<open>lib.rs\<close>.
    \<open>Init_Race\<close>: the static pool of \<open>lib.rs\<close> under calls from several threads.
  \<^item> \<open>Buffers\<close>, \<open>Buffer_Access\<close>, \<open>File_Mode\<close>, \<open>Io_Operation\<close>, \<open>Io_Async\<close>, \<open>Uring_Entry\<close>, \<open>Io_Recovery\<close>: \<open>io/buffers.rs\<close>, \<open>io/operation/\<close>,
    \<open>io/mod.rs\<close>, \<open>io/failure.rs\<close>: what each operation is made of, what it asks of the kernel, what its result
    becomes, and how its buffers are given back. \<open>Io_Completion\<close>, \<open>Io_Completion_Props\<close>: \<open>io/completion.rs\<close>,
    \<open>io/completion_queue.rs\<close>, \<open>io/context.rs\<close>, \<open>io/entry.rs\<close>. \<open>Io_Future\<close>: \<open>io/operation/future.rs\<close>, \<open>io/owned_fd_async.rs\<close>.
  \<^item> \<open>Control_Message\<close>, \<open>Control_Levels\<close>, \<open>Control_Props\<close>, \<open>Io_Message\<close>: \<open>io/message.rs\<close>. Each level of control messages
    discharges the contract \<open>control_level\<close>, and the dispatch over the levels \<open>control_codec\<close>.
  \<^item> \<open>Fs_Stats\<close>, \<open>Fs_Path\<close>, \<open>Fs\<close>, \<open>Fs_Props\<close>: \<open>io/fs/\<close>. \<open>Sleep\<close>: \<open>timing/\<close>; \<open>Timer_Source\<close>: a sleep on
    the event source of its worker.
  \<^item> \<open>Address\<close>, \<open>Address_Lemmas\<close>, \<open>Address_Props\<close>, \<open>Typed_Address\<close>: \<open>net/address.rs\<close>. \<open>Net_Tcp\<close>, \<open>Net_Tcp_Props\<close>, \<open>Listener_Task\<close>: the
    rest of \<open>net/\<close>.

  State and operations. A struct is a record, an enum a datatype, a method a function that gives its result and
  the changed state, an error a value of a sum type; a panic is \<open>None\<close> or \<open>Panic\<close>. A hash map is an association list.
  Code that runs on several threads is a partial function of an action and a state, one action for each atomic
  step, so that a theorem about reachable states is one about all interleavings. System calls, the kernel's side
  of a ring or an eventfd, \<open>bytes\<close>, the broadcast channel and the ring library are arguments; where a theorem needs
  what they document, that is a hypothesis (\<open>socket_laws\<close>, \<open>worker_laws\<close>, \<open>broadcast_laws\<close>, \<open>adds_up\<close>, \<open>documented_nxthdr\<close>, ...), and its
  witness has an instance. The target is little-endian with 64-bit addresses; memory behind a pointer is the
  list of bytes from there on.

  What the lemmas show.
  \<^item> Locks: mutual exclusion of the mutex and its lost wake-up; the semaphore hands out no more permits than it has
    while no hungry future is dropped after it was served, and the lock built on it excludes writers under that
    condition and does not without it.
  \<^item> Runtime: the executor refines a scheduler of ready tasks, loses no task and no wake-up; a worker's loop
    conserves submissions; events wake who waits for them; what a shutdown strands; workers are chosen in turn;
    a worker's notifications block once 128 were sent, and a subscription hears those from before it.
  \<^item> Beginnings: a worker is wired as its loop relies on, or nothing of it stays open but a poller whose flags could
    not be set; the pool's start over this implements the start with a choice; started workers are stranded when a later
    one fails; there is one pool, and an initialisation that loses a race strands its own; a repaired channel is
    connected again, and is not repaired unless something else wakes the worker.
  \<^item> Operations: results are delivered in order and once; an awaited operation is followed from its first poll to
    its result; buffers come back from refused and failed operations; a read's buffer gets the data exactly.
  \<^item> Formats: IPv6 addresses and buffers of control messages survive printing or encoding and reading back.
  \<^item> Clients: missing directories are made, and an existing one is refused; a directory is read to its end; the
    sockets of a server are accounted for and all listen; a listener hands over every connection, and spins when it
    is polled too early; a sleep wakes once, and can be lost. A sleep on the event source of its worker implements that
    process; a stopping worker fails it, and a poller that refuses its timer leaves it waiting for ever.

  Loops and fuel. Recursion is structural or has a measure. \<open>sem_poll\<close> runs a poll to its end without interference and
  takes fuel 6, as many steps as a poll has. \<open>parse_chain\<close> follows the headers of a \<open>msghdr\<close> with fuel one more than the
  bytes, since each header takes some. \<open>trim_right\<close> and \<open>drop_component\<close> take the length of their path. \<open>notification_poll\<close>,
  \<open>channel_drain\<close> and \<open>listener_poll\<close> are partial functions in which \<open>None\<close> is a call that does not return; that they
  return, or do not, is proved.

  Not modelled: \<open>Display\<close> and \<open>Debug\<close> of the errors and messages, accessors that only return a field and one-line conversions between
  error types, boxing of tasks (\<open>task/task_factory.rs\<close>), the macros of \<open>sys.rs\<close> and \<open>logging.rs\<close> (a logged line is modelled
  where its arguments change the state), the draining of a worker's two channels before its shutdown loop, the reuse of
  a descriptor's number between a sender's load and its write while a channel is repaired, the unsafe cells behind the
  guards, memory orderings weaker than sequential consistency, and the tests.
\<close>

end
